(* ===== verification/Prelude.thy ===== *)
theory Prelude
  imports Main "HOL-Library.Word" "HOL-Library.Monad_Syntax"
begin

unbundle bit_operations_syntax

text \<open>
  Shared vocabulary of the development.

  \<^item> Machine integers of the C++ code: \<open>byte\<close>, \<open>u16\<close>, \<open>u32\<close> are words of that width.
  \<^item> A computation that can run into undefined behaviour has an option type: \<open>None\<close> is
    the undefined behaviour (a read past the end of a buffer, a dangling pointer, a signed
    overflow, a read of an indeterminate value), \<open>Some\<close> is a normal result.
    \<open>ok x Q\<close> says that \<open>x\<close> is defined and its result satisfies \<open>Q\<close>; the collection
    \<open>wp\<close> pushes \<open>ok\<close> through the control flow of a \<open>do\<close> block.
  \<^item> Bounds-checked buffer reads, \<open>std::span::subspan\<close>, and the little-endian layout of
    the packed structs, with their round trips.
  \<^item> Bytes and characters: \<open>std::string\<close> is a \<open>string\<close>.
\<close>

type_synonym byte = "8 word"
type_synonym u16 = "16 word"
type_synonym u32 = "32 word"
type_synonym bytes = "byte list"

named_theorems wp \<comment> \<open>weakest-precondition rules of \<open>ok\<close>\<close>
named_theorems codec \<comment> \<open>encoders, decoders and buffer reads\<close>

section \<open>Defined results\<close>

definition ok :: "'a option \<Rightarrow> ('a \<Rightarrow> bool) \<Rightarrow> bool" where
  "ok x Q \<longleftrightarrow> (case x of None \<Rightarrow> False | Some a \<Rightarrow> Q a)"

lemma ok_Some [simp, wp]: "ok (Some a) Q \<longleftrightarrow> Q a"
  by (simp add: ok_def)

lemma ok_None [simp, wp]: "\<not> ok None Q"
  by (simp add: ok_def)

lemma ok_bind [wp]: "ok (x \<bind> f) Q \<longleftrightarrow> ok x (\<lambda>a. ok (f a) Q)"
  by (cases x) simp_all

lemma ok_if [wp]: "ok (if c then x else y) Q \<longleftrightarrow> (if c then ok x Q else ok y Q)"
  by simp

lemma ok_case_prod [wp]: "ok (case t of (a, b) \<Rightarrow> f a b) Q \<longleftrightarrow> (case t of (a, b) \<Rightarrow> ok (f a b) Q)"
  by (cases t) simp

lemma ok_case_option [wp]:
  "ok (case t of None \<Rightarrow> x | Some a \<Rightarrow> f a) Q \<longleftrightarrow> (case t of None \<Rightarrow> ok x Q | Some a \<Rightarrow> ok (f a) Q)"
  by (cases t) simp_all

lemma ok_Let [wp]: "ok (let a = x in f a) Q \<longleftrightarrow> (let a = x in ok (f a) Q)"
  by simp

lemma okE [elim]:
  assumes "ok x Q"
  obtains a where "x = Some a" and "Q a"
  using assms by (cases x) simp_all

lemma ok_iff: "ok x Q \<longleftrightarrow> (\<exists>a. x = Some a \<and> Q a)"
  by (cases x) simp_all

lemma ok_mono: "ok x P \<Longrightarrow> (\<And>a. P a \<Longrightarrow> Q a) \<Longrightarrow> ok x Q"
  by (cases x) simp_all

lemma ok_pair_mono:
  "ok x (\<lambda>(a, b). P a b) \<Longrightarrow> (\<And>a b. P a b \<Longrightarrow> Q (a, b)) \<Longrightarrow> ok x Q"
  by (cases x) auto

lemma ok_pairE:
  assumes "ok x (\<lambda>(a, b). P a b)"
  obtains a b where "x = Some (a, b)" and "P a b"
  using assms by (cases x) auto

lemma ok_SomeD: "ok x Q \<Longrightarrow> x = Some a \<Longrightarrow> Q a"
  by simp

section \<open>Buffers\<close>

text \<open>A read of one byte at an offset; past the end it is undefined behaviour.\<close>

definition rd8 :: "bytes \<Rightarrow> nat \<Rightarrow> byte option" where
  "rd8 b i = (if i < length b then Some (b ! i) else None)"

text \<open>\<open>std::span::subspan(off)\<close> and \<open>subspan(off, n)\<close>: undefined past the end.\<close>

definition subspan :: "bytes \<Rightarrow> nat \<Rightarrow> bytes option" where
  "subspan b off = (if off \<le> length b then Some (drop off b) else None)"

definition subspan_n :: "bytes \<Rightarrow> nat \<Rightarrow> nat \<Rightarrow> bytes option" where
  "subspan_n b off n = (if off + n \<le> length b then Some (take n (drop off b)) else None)"

lemma rd8_Some [codec]: "i < length b \<Longrightarrow> rd8 b i = Some (b ! i)"
  by (simp add: rd8_def)

lemma ok_rd8 [wp]: "ok (rd8 b i) Q \<longleftrightarrow> i < length b \<and> Q (b ! i)"
  by (simp add: rd8_def)

lemma subspan_Some [codec]: "off \<le> length b \<Longrightarrow> subspan b off = Some (drop off b)"
  by (simp add: subspan_def)

lemma ok_subspan [wp]: "ok (subspan b off) Q \<longleftrightarrow> off \<le> length b \<and> Q (drop off b)"
  by (simp add: subspan_def)

lemma subspan_n_Some [codec]:
  "off + n \<le> length b \<Longrightarrow> subspan_n b off n = Some (take n (drop off b))"
  by (simp add: subspan_n_def)

lemma ok_subspan_n [wp]:
  "ok (subspan_n b off n) Q \<longleftrightarrow> off + n \<le> length b \<and> Q (take n (drop off b))"
  by (simp add: subspan_n_def)

section \<open>Little-endian integers\<close>

definition le16 :: "u16 \<Rightarrow> bytes" where
  "le16 w = [ucast w, ucast (drop_bit 8 w)]"

definition le32 :: "u32 \<Rightarrow> bytes" where
  "le32 w = [ucast w, ucast (drop_bit 8 w), ucast (drop_bit 16 w), ucast (drop_bit 24 w)]"

definition of_le16 :: "byte \<Rightarrow> byte \<Rightarrow> u16" where
  "of_le16 b0 b1 = ucast b0 OR push_bit 8 (ucast b1)"

definition of_le32 :: "byte \<Rightarrow> byte \<Rightarrow> byte \<Rightarrow> byte \<Rightarrow> u32" where
  "of_le32 b0 b1 b2 b3 =
     ucast b0 OR push_bit 8 (ucast b1) OR push_bit 16 (ucast b2) OR push_bit 24 (ucast b3)"

text \<open>A 16- or 32-bit member of a packed struct laid over the buffer at an offset.\<close>

definition rd16 :: "bytes \<Rightarrow> nat \<Rightarrow> u16 option" where
  "rd16 b i = do { b0 \<leftarrow> rd8 b i; b1 \<leftarrow> rd8 b (i + 1); Some (of_le16 b0 b1) }"

definition rd32 :: "bytes \<Rightarrow> nat \<Rightarrow> u32 option" where
  "rd32 b i = do { b0 \<leftarrow> rd8 b i; b1 \<leftarrow> rd8 b (i + 1); b2 \<leftarrow> rd8 b (i + 2); b3 \<leftarrow> rd8 b (i + 3);
     Some (of_le32 b0 b1 b2 b3) }"

lemma length_le16 [simp, codec]: "length (le16 w) = 2"
  by (simp add: le16_def)

lemma length_le32 [simp, codec]: "length (le32 w) = 4"
  by (simp add: le32_def)

lemma of_le16_le16: "of_le16 (ucast w) (ucast (drop_bit 8 w)) = w"
  by (rule bit_word_eqI) (auto simp: of_le16_def bit_simps)

lemma of_le32_le32:
  "of_le32 (ucast w) (ucast (drop_bit 8 w)) (ucast (drop_bit 16 w)) (ucast (drop_bit 24 w)) = w"
proof (rule bit_word_eqI)
  fix n :: nat
  show "bit (of_le32 (ucast w) (ucast (drop_bit 8 w)) (ucast (drop_bit 16 w))
      (ucast (drop_bit 24 w))) n = bit w n" if "n < LENGTH(32)"
    using that by (cases "n < 8"; cases "n < 16"; cases "n < 24")
      (auto simp: of_le32_def bit_simps)
qed

lemma le16_of_le16: "le16 (of_le16 b0 b1) = [b0, b1]"
proof -
  have "ucast (of_le16 b0 b1) = b0" and "ucast (drop_bit 8 (of_le16 b0 b1)) = b1"
    by (rule bit_word_eqI, auto simp: of_le16_def bit_simps dest: bit_imp_le_length)+
  then show ?thesis by (simp add: le16_def)
qed

lemma rd16_le16 [codec]: "rd16 (le16 w @ rest) 0 = Some w"
  by (simp add: rd16_def rd8_def le16_def of_le16_le16)

lemma rd32_le32 [codec]: "rd32 (le32 w @ rest) 0 = Some w"
  by (simp add: rd32_def rd8_def le32_def of_le32_le32 numeral_2_eq_2 numeral_3_eq_3)

lemma rd8_append2 [codec]: "rd8 (xs @ ys) (length xs + i) = rd8 ys i"
  by (simp add: rd8_def nth_append)

lemma rd16_append2: "rd16 (xs @ ys) (length xs + i) = rd16 ys i"
  using rd8_append2 [of xs ys i] rd8_append2 [of xs ys "i + 1"]
  by (simp add: rd16_def add.assoc)

lemma rd32_append2: "rd32 (xs @ ys) (length xs + i) = rd32 ys i"
  using rd8_append2 [of xs ys i] rd8_append2 [of xs ys "i + 1"] rd8_append2 [of xs ys "i + 2"]
    rd8_append2 [of xs ys "i + 3"]
  by (simp add: rd32_def add.assoc)

lemma rd16_skip: "length xs = k \<Longrightarrow> rd16 (xs @ ys) k = rd16 ys 0"
  using rd16_append2 [of xs ys 0] by simp

lemma rd32_skip: "length xs = k \<Longrightarrow> rd32 (xs @ ys) k = rd32 ys 0"
  using rd32_append2 [of xs ys 0] by simp

lemma rd16_Some: "i + 1 < length b \<Longrightarrow> rd16 b i = Some (of_le16 (b ! i) (b ! (i + 1)))"
  by (simp add: rd16_def rd8_def)

lemma rd32_Some:
  "i + 3 < length b \<Longrightarrow>
   rd32 b i = Some (of_le32 (b ! i) (b ! (i + 1)) (b ! (i + 2)) (b ! (i + 3)))"
  by (simp add: rd32_def rd8_def)

lemma ok_rd16 [wp]:
  "ok (rd16 b i) Q \<longleftrightarrow> i + 1 < length b \<and> Q (of_le16 (b ! i) (b ! (i + 1)))"
  by (auto simp: rd16_def wp)

lemma ok_rd32 [wp]:
  "ok (rd32 b i) Q \<longleftrightarrow>
     i + 3 < length b \<and> Q (of_le32 (b ! i) (b ! (i + 1)) (b ! (i + 2)) (b ! (i + 3)))"
  by (auto simp: rd32_def wp)

section \<open>Bytes and characters\<close>

definition char_of_byte :: "byte \<Rightarrow> char" where
  "char_of_byte b = char_of (unat b)"

definition byte_of_char :: "char \<Rightarrow> byte" where
  "byte_of_char c = of_nat (of_char c)"

lemma of_char_less_256: "(of_char c :: nat) < 256"
  using of_char_mod_256 [of c, where 'a = nat] by (metis mod_less_divisor zero_less_numeral)

lemma char_of_byte_of_char [simp]: "char_of_byte (byte_of_char c) = c"
  using of_char_less_256 [of c]
  by (simp add: char_of_byte_def byte_of_char_def unat_of_nat)

lemma byte_of_char_of_byte [simp]: "byte_of_char (char_of_byte b) = b"
proof -
  have "unat b < 256" using unsigned_less [of b, where 'a = nat] by simp
  then show ?thesis by (simp add: char_of_byte_def byte_of_char_def)
qed

lemma map_char_of_byte_of_char [simp]: "map char_of_byte (map byte_of_char s) = s"
  by (simp add: comp_def)

lemma map_byte_of_char_of_byte [simp]: "map byte_of_char (map char_of_byte b) = b"
  by (simp add: comp_def)

end
