(* ===== verification/Blobs.thy ===== *)
theory Blobs
  imports Prelude
begin

unbundle bit_operations_syntax

text \<open>
  The public interface of the repository, \<^verbatim>\<open>blobs-ipmid/blobs.hpp\<close>: the commands, the
  open and state flags, the metadata record, and the virtual interface
  \<open>GenericBlobInterface\<close> that a blob handler implements.

  A handler object is a state of type \<open>'h\<close>; its virtual methods are a record of functions
  \<open>'h \<Rightarrow> (result \<times> 'h) option\<close>. Handlers of different classes share one \<open>'h\<close> (a sum of
  their states), and the record is then the dynamic dispatch over it.

  The locale \<open>blob_handler\<close> is the contract between the manager and a handler. Its
  premises are what the README's section ``Handler Calling Contract'' lets a handler rely on:
  a session method is only called on a session that is open in this handler, a path method
  only on a path the handler has just accepted, \<open>deleteBlob\<close> only when no session is
  open on the path. Under these premises a handler must return normally and must keep its
  own view of which sessions are open in step with the results it returns.
\<close>

section \<open>Commands and flags\<close>

text \<open>
  \<open>enum class BlobOEMCommands : std::uint8_t\<close>. Its underlying type is fixed, so every
  byte is a valid value of the enumeration; those without an enumerator are
  \<open>unnamed_command\<close>.
\<close>

datatype BlobOEMCommands =
    bmcBlobGetCount | bmcBlobEnumerate | bmcBlobOpen | bmcBlobRead | bmcBlobWrite
  | bmcBlobCommit | bmcBlobClose | bmcBlobDelete | bmcBlobStat | bmcBlobSessionStat
  | bmcBlobWriteMeta | unnamed_command byte

fun underlying :: "BlobOEMCommands \<Rightarrow> byte" where
  "underlying bmcBlobGetCount = 0"
| "underlying bmcBlobEnumerate = 1"
| "underlying bmcBlobOpen = 2"
| "underlying bmcBlobRead = 3"
| "underlying bmcBlobWrite = 4"
| "underlying bmcBlobCommit = 5"
| "underlying bmcBlobClose = 6"
| "underlying bmcBlobDelete = 7"
| "underlying bmcBlobStat = 8"
| "underlying bmcBlobSessionStat = 9"
| "underlying bmcBlobWriteMeta = 10"
| "underlying (unnamed_command c) = c"

text \<open>\<open>static_cast<BlobOEMCommands>(cmd)\<close>.\<close>

definition command_of :: "byte \<Rightarrow> BlobOEMCommands" where
  "command_of c =
     (if c = 0 then bmcBlobGetCount else if c = 1 then bmcBlobEnumerate
      else if c = 2 then bmcBlobOpen else if c = 3 then bmcBlobRead
      else if c = 4 then bmcBlobWrite else if c = 5 then bmcBlobCommit
      else if c = 6 then bmcBlobClose else if c = 7 then bmcBlobDelete
      else if c = 8 then bmcBlobStat else if c = 9 then bmcBlobSessionStat
      else if c = 10 then bmcBlobWriteMeta else unnamed_command c)"

lemma underlying_command_of [simp]: "underlying (command_of c) = c"
  by (simp add: command_of_def)

lemma command_of_unnamed: "10 < c \<Longrightarrow> command_of c = unnamed_command c"
  by (auto simp: command_of_def)

definition OpenFlags_read :: u16 where
  "OpenFlags_read = push_bit 0 1"

definition OpenFlags_write :: u16 where
  "OpenFlags_write = push_bit 1 1"

definition StateFlags_open_read :: u16 where
  "StateFlags_open_read = push_bit 0 1"

definition StateFlags_open_write :: u16 where
  "StateFlags_open_write = push_bit 1 1"

definition StateFlags_committing :: u16 where
  "StateFlags_committing = push_bit 2 1"

definition StateFlags_committed :: u16 where
  "StateFlags_committed = push_bit 3 1"

definition StateFlags_commit_error :: u16 where
  "StateFlags_commit_error = push_bit 4 1"

lemmas flag_defs = OpenFlags_read_def OpenFlags_write_def StateFlags_open_read_def
  StateFlags_open_write_def StateFlags_committing_def StateFlags_committed_def
  StateFlags_commit_error_def

text \<open>Testing a flag: \<open>flags & mask\<close> used as a condition.\<close>

definition has_flag :: "u16 \<Rightarrow> u16 \<Rightarrow> bool" where
  "has_flag flags m \<longleftrightarrow> flags AND m \<noteq> 0"

abbreviation read_or_write :: u16 where
  "read_or_write \<equiv> OpenFlags_read OR OpenFlags_write"

lemma has_flag_any: "has_flag f m \<Longrightarrow> has_flag f (- 1)"
  by (auto simp: has_flag_def)

lemma has_flag_read_or_write:
  "has_flag f read_or_write \<longleftrightarrow> has_flag f OpenFlags_read \<or> has_flag f OpenFlags_write"
proof -
  have "f AND (OpenFlags_read OR OpenFlags_write)
      = (f AND OpenFlags_read) OR (f AND OpenFlags_write)"
    by (simp add: bit.conj_disj_distrib)
  then show ?thesis by (simp add: has_flag_def or_eq_0_iff)
qed

section \<open>Metadata\<close>

text \<open>
  \<open>struct BlobMeta\<close>. The two integer members have no initialiser, so a
  \<open>BlobMeta meta;\<close> holds indeterminate values: \<open>None\<close>.
\<close>

record BlobMeta =
  blobState :: "u16 option"
  blobSize :: "u32 option"
  metadata :: bytes

definition uninit_meta :: BlobMeta where
  "uninit_meta = \<lparr>blobState = None, blobSize = None, metadata = []\<rparr>"

definition meta_defined :: "BlobMeta \<Rightarrow> bool" where
  "meta_defined mt \<longleftrightarrow> blobState mt \<noteq> None \<and> blobSize mt \<noteq> None"

text \<open>
  \<open>operator==\<close>: member by member, up to the first difference; comparing an indeterminate
  member is undefined behaviour.
\<close>

definition BlobMeta_equal :: "BlobMeta \<Rightarrow> BlobMeta \<Rightarrow> bool option" where
  "BlobMeta_equal a b =
     do { sa \<leftarrow> blobState a; sb \<leftarrow> blobState b;
          if sa \<noteq> sb then Some False
          else do { za \<leftarrow> blobSize a; zb \<leftarrow> blobSize b;
                    if za \<noteq> zb then Some False
                    else Some (metadata a = metadata b) } }"

lemma BlobMeta_equal_iff:
  "meta_defined a \<Longrightarrow> meta_defined b \<Longrightarrow> BlobMeta_equal a b = Some (a = b)"
  by (cases a; cases b) (auto simp: BlobMeta_equal_def meta_defined_def)

section \<open>The handler interface\<close>

record 'h GenericBlobInterface =
  gbi_canHandleBlob :: "string \<Rightarrow> 'h \<Rightarrow> (bool \<times> 'h) option"
  gbi_getBlobIds :: "'h \<Rightarrow> (string list \<times> 'h) option"
  gbi_deleteBlob :: "string \<Rightarrow> 'h \<Rightarrow> (bool \<times> 'h) option"
  gbi_statPath :: "string \<Rightarrow> BlobMeta \<Rightarrow> 'h \<Rightarrow> ((bool \<times> BlobMeta) \<times> 'h) option"
  gbi_open :: "u16 \<Rightarrow> u16 \<Rightarrow> string \<Rightarrow> 'h \<Rightarrow> (bool \<times> 'h) option"
  gbi_read :: "u16 \<Rightarrow> u32 \<Rightarrow> u32 \<Rightarrow> 'h \<Rightarrow> (bytes \<times> 'h) option"
  gbi_write :: "u16 \<Rightarrow> u32 \<Rightarrow> bytes \<Rightarrow> 'h \<Rightarrow> (bool \<times> 'h) option"
  gbi_writeMeta :: "u16 \<Rightarrow> u32 \<Rightarrow> bytes \<Rightarrow> 'h \<Rightarrow> (bool \<times> 'h) option"
  gbi_commit :: "u16 \<Rightarrow> bytes \<Rightarrow> 'h \<Rightarrow> (bool \<times> 'h) option"
  gbi_close :: "u16 \<Rightarrow> 'h \<Rightarrow> (bool \<times> 'h) option"
  gbi_stat :: "u16 \<Rightarrow> BlobMeta \<Rightarrow> 'h \<Rightarrow> ((bool \<times> BlobMeta) \<times> 'h) option"
  gbi_expire :: "u16 \<Rightarrow> 'h \<Rightarrow> (bool \<times> 'h) option"

text \<open>
  The contract. \<open>live h\<close> is the handler's own table of open sessions, with the path and
  the flags each was opened with; \<open>accepts h p\<close> says that the handler has accepted the
  path \<open>p\<close>.
\<close>

locale blob_handler =
  fixes gbi :: "'h GenericBlobInterface"
    and hinv :: "'h \<Rightarrow> bool"
    and live :: "'h \<Rightarrow> u16 \<rightharpoonup> string \<times> u16"
    and accepts :: "'h \<Rightarrow> string \<Rightarrow> bool"
  assumes canHandleBlob_law:
      "hinv h \<Longrightarrow> ok (gbi_canHandleBlob gbi p h)
         (\<lambda>(b, h'). hinv h' \<and> live h' = live h \<and> (b \<longrightarrow> accepts h' p))"
    and getBlobIds_law:
      "hinv h \<Longrightarrow> ok (gbi_getBlobIds gbi h) (\<lambda>(ids, h'). hinv h' \<and> live h' = live h)"
    and deleteBlob_law:
      "hinv h \<Longrightarrow> accepts h p \<Longrightarrow> (\<And>s f. live h s \<noteq> Some (p, f)) \<Longrightarrow>
       ok (gbi_deleteBlob gbi p h) (\<lambda>(b, h'). hinv h' \<and> live h' = live h)"
    and statPath_law:
      "hinv h \<Longrightarrow> accepts h p \<Longrightarrow> ok (gbi_statPath gbi p mt h)
         (\<lambda>((b, mt'), h'). hinv h' \<and> live h' = live h \<and> (b \<longrightarrow> meta_defined mt'))"
    and open_law:
      "hinv h \<Longrightarrow> accepts h p \<Longrightarrow> live h s = None \<Longrightarrow> has_flag f read_or_write \<Longrightarrow>
       ok (gbi_open gbi s f p h)
         (\<lambda>(b, h'). hinv h' \<and> live h' = (if b then (live h)(s \<mapsto> (p, f)) else live h))"
    and read_law:
      "hinv h \<Longrightarrow> live h s = Some (p, f) \<Longrightarrow> has_flag f OpenFlags_read \<Longrightarrow>
       ok (gbi_read gbi s off n h) (\<lambda>(d, h'). hinv h' \<and> live h' = live h)"
    and write_law:
      "hinv h \<Longrightarrow> live h s = Some (p, f) \<Longrightarrow> has_flag f OpenFlags_write \<Longrightarrow>
       ok (gbi_write gbi s off d h) (\<lambda>(b, h'). hinv h' \<and> live h' = live h)"
    and writeMeta_law:
      "hinv h \<Longrightarrow> live h s \<noteq> None \<Longrightarrow>
       ok (gbi_writeMeta gbi s off d h) (\<lambda>(b, h'). hinv h' \<and> live h' = live h)"
    and commit_law:
      "hinv h \<Longrightarrow> live h s \<noteq> None \<Longrightarrow>
       ok (gbi_commit gbi s d h) (\<lambda>(b, h'). hinv h' \<and> live h' = live h)"
    and close_law:
      "hinv h \<Longrightarrow> live h s \<noteq> None \<Longrightarrow> ok (gbi_close gbi s h)
         (\<lambda>(b, h'). hinv h' \<and> live h' = (if b then (live h)(s := None) else live h))"
    and stat_law:
      "hinv h \<Longrightarrow> live h s \<noteq> None \<Longrightarrow> ok (gbi_stat gbi s mt h)
         (\<lambda>((b, mt'), h'). hinv h' \<and> live h' = live h \<and> (b \<longrightarrow> meta_defined mt'))"
    and expire_law:
      "hinv h \<Longrightarrow> live h s \<noteq> None \<Longrightarrow> ok (gbi_expire gbi s h)
         (\<lambda>(b, h'). hinv h' \<and> live h' = (if b then (live h)(s := None) else live h)
            \<and> (\<forall>p. accepts h p \<longrightarrow> accepts h' p))"

end
