(* ===== verification/Manager_Iface.thy ===== *)
theory Manager_Iface
  imports Blobs
begin

text \<open>
  The abstract class \<open>ManagerInterface\<close> of \<^verbatim>\<open>manager.hpp\<close>, through which the IPMI command
  handlers and the library loader use the manager, as a record of methods over a manager
  state \<open>'m\<close>; and the locale \<open>manager_interface\<close>, what those clients rely on: from a
  state satisfying \<open>minv\<close> every method returns normally into such a state, a successful
  \<open>open\<close> has stored a session number, and a successful \<open>stat\<close> has filled in the
  metadata.
\<close>

text \<open>A pointer to a caller's variable: null, or the address of an uninitialised local.\<close>

datatype out_ptr = nullptr | out_param

record ('h, 'm) ManagerInterface =
  mi_registerHandler :: "'h option \<Rightarrow> 'm \<Rightarrow> (bool \<times> 'm) option"
  mi_buildBlobList :: "'m \<Rightarrow> (u32 \<times> 'm) option"
  mi_getBlobId :: "u32 \<Rightarrow> 'm \<Rightarrow> (string \<times> 'm) option"
  mi_open :: "u16 \<Rightarrow> string \<Rightarrow> out_ptr \<Rightarrow> 'm \<Rightarrow> ((bool \<times> u16 option) \<times> 'm) option"
  mi_statPath :: "string \<Rightarrow> BlobMeta \<Rightarrow> 'm \<Rightarrow> ((bool \<times> BlobMeta) \<times> 'm) option"
  mi_stat :: "u16 \<Rightarrow> BlobMeta \<Rightarrow> 'm \<Rightarrow> ((bool \<times> BlobMeta) \<times> 'm) option"
  mi_commit :: "u16 \<Rightarrow> bytes \<Rightarrow> 'm \<Rightarrow> (bool \<times> 'm) option"
  mi_close :: "u16 \<Rightarrow> 'm \<Rightarrow> (bool \<times> 'm) option"
  mi_read :: "u16 \<Rightarrow> u32 \<Rightarrow> u32 \<Rightarrow> 'm \<Rightarrow> (bytes \<times> 'm) option"
  mi_write :: "u16 \<Rightarrow> u32 \<Rightarrow> bytes \<Rightarrow> 'm \<Rightarrow> (bool \<times> 'm) option"
  mi_deleteBlob :: "string \<Rightarrow> 'm \<Rightarrow> (bool \<times> 'm) option"
  mi_writeMeta :: "u16 \<Rightarrow> u32 \<Rightarrow> bytes \<Rightarrow> 'm \<Rightarrow> (bool \<times> 'm) option"

locale manager_interface =
  fixes mgr :: "('h, 'm) ManagerInterface"
    and minv :: "'m \<Rightarrow> bool"
    and new_handler :: "'h \<Rightarrow> bool"
  assumes registerHandler_law:
      "minv m \<Longrightarrow> (\<And>h. ho = Some h \<Longrightarrow> new_handler h) \<Longrightarrow>
       ok (mi_registerHandler mgr ho m) (\<lambda>(b, m'). minv m' \<and> (b \<longleftrightarrow> ho \<noteq> None))"
    and buildBlobList_law: "minv m \<Longrightarrow> ok (mi_buildBlobList mgr m) (\<lambda>(n, m'). minv m')"
    and getBlobId_law: "minv m \<Longrightarrow> ok (mi_getBlobId mgr index m) (\<lambda>(p, m'). minv m')"
    and open_law:
      "minv m \<Longrightarrow> ok (mi_open mgr f p q m) (\<lambda>((b, s), m'). minv m' \<and> (b \<longrightarrow> s \<noteq> None))"
    and statPath_law:
      "minv m \<Longrightarrow> ok (mi_statPath mgr p mt m) (\<lambda>((b, mt'), m'). minv m' \<and> (b \<longrightarrow> meta_defined mt'))"
    and stat_law:
      "minv m \<Longrightarrow> ok (mi_stat mgr s mt m) (\<lambda>((b, mt'), m'). minv m' \<and> (b \<longrightarrow> meta_defined mt'))"
    and commit_law: "minv m \<Longrightarrow> ok (mi_commit mgr s d m) (\<lambda>(b, m'). minv m')"
    and close_law: "minv m \<Longrightarrow> ok (mi_close mgr s m) (\<lambda>(b, m'). minv m')"
    and read_law: "minv m \<Longrightarrow> ok (mi_read mgr s off n m) (\<lambda>(d, m'). minv m')"
    and write_law: "minv m \<Longrightarrow> ok (mi_write mgr s off d m) (\<lambda>(b, m'). minv m')"
    and deleteBlob_law: "minv m \<Longrightarrow> ok (mi_deleteBlob mgr p m) (\<lambda>(b, m'). minv m')"
    and writeMeta_law: "minv m \<Longrightarrow> ok (mi_writeMeta mgr s off d m) (\<lambda>(b, m'). minv m')"

end
