(* ===== verification/Manager.thy ===== *)
theory Manager
  imports Manager_Iface
begin

unbundle bit_operations_syntax

text \<open>
  The blob manager, \<^verbatim>\<open>manager.hpp\<close> and \<^verbatim>\<open>manager.cpp\<close>: the record of its members and
  one definition per member function, in the order of the code.

  \<^item> A \<open>GenericBlobInterface*\<close> is the index of the handler in \<open>handlers\<close>: handlers are
    only ever appended, so the index names the object for good; the null pointer is \<open>None\<close>.
    A call through a pointer that names no handler is undefined behaviour.
  \<^item> \<open>std::unordered_map\<close> is a partial map, its \<open>operator[]\<close> inserts the default;
    \<open>std::set<uint16_t>\<close> is a set that is iterated in increasing order.
  \<^item> \<open>openFiles\<close> counts in a 32-bit \<open>int\<close>: leaving its range is undefined behaviour.
  \<^item> \<open>steady_clock::now()\<close> reads the next element of the sequence \<open>clock\<close>, a member
    of the modelled state that stands for the environment. Times are nanoseconds.
  \<^item> What the manager has written to \<open>std::cerr\<close> is the list \<open>cerr\<close>, another member that
    stands for the environment.
\<close>

type_synonym hid = nat
type_synonym time = int

section \<open>State\<close>

text \<open>\<open>struct SessionInfo\<close>; a handler of \<open>None\<close> is the null pointer.\<close>

record SessionInfo =
  blobId :: string
  handler :: "hid option"
  flags :: u16
  lastActionTime :: time

text \<open>The two messages of \<open>cleanUpStaleSessions\<close>.\<close>

datatype message = ExpiringStaleSession u16 | FailedToExpireSession u16

record 'h BlobManager =
  sessionTimeout :: int \<comment> \<open>\<open>std::chrono::seconds\<close>\<close>
  next_session :: u16 \<comment> \<open>the member \<open>next\<close>\<close>
  ids :: "string list"
  handlers :: "'h list"
  sessions :: "u16 \<rightharpoonup> SessionInfo"
  openFiles :: "string \<rightharpoonup> int"
  openSessions :: "hid \<rightharpoonup> u16 set"
  clock :: "nat \<Rightarrow> time" \<comment> \<open>the readings of \<open>steady_clock\<close> to come\<close>
  cerr :: "message list" \<comment> \<open>the messages so far\<close>

definition defaultSessionTimeout :: int where
  "defaultSessionTimeout = 10 * 60"

definition nanoseconds :: "int \<Rightarrow> time" where
  "nanoseconds secs = secs * 1000000000"

text \<open>The constructor; \<open>t\<close> is what \<open>std::time(nullptr)\<close> returns.\<close>

definition new_BlobManager :: "int \<Rightarrow> int \<Rightarrow> (nat \<Rightarrow> time) \<Rightarrow> 'h BlobManager" where
  "new_BlobManager timeout t clk =
     \<lparr>sessionTimeout = timeout, next_session = word_of_int t, ids = [], handlers = [],
      sessions = Map.empty, openFiles = Map.empty, openSessions = Map.empty, clock = clk, cerr = []\<rparr>"

definition steady_now :: "'h BlobManager \<Rightarrow> time \<times> 'h BlobManager" where
  "steady_now m = (clock m 0, m\<lparr>clock := clock m \<circ> Suc\<rparr>)"

text \<open>
  The two constructors of \<open>SessionInfo\<close>; both initialise \<open>lastActionTime\<close> from the clock.
  The defaulted one is used by \<open>operator[]\<close>, which value-initialises the entry: the members
  without an initialiser are zero.
\<close>

definition new_SessionInfo ::
    "string \<Rightarrow> hid \<Rightarrow> u16 \<Rightarrow> 'h BlobManager \<Rightarrow> SessionInfo \<times> 'h BlobManager" where
  "new_SessionInfo path hp fl m =
     (let (now, m) = steady_now m in
      (\<lparr>blobId = path, handler = Some hp, flags = fl, lastActionTime = now\<rparr>, m))"

definition default_SessionInfo :: "'h BlobManager \<Rightarrow> SessionInfo \<times> 'h BlobManager" where
  "default_SessionInfo m =
     (let (now, m) = steady_now m in
      (\<lparr>blobId = [], handler = None, flags = 0, lastActionTime = now\<rparr>, m))"

text \<open>\<open>sessions[s]\<close>: a reference to the entry, which is default-constructed when missing.\<close>

definition sessions_at :: "u16 \<Rightarrow> 'h BlobManager \<Rightarrow> SessionInfo \<times> 'h BlobManager" where
  "sessions_at s m = (case sessions m s of
       Some si \<Rightarrow> (si, m)
     | None \<Rightarrow> (let (si, m) = default_SessionInfo m in (si, m\<lparr>sessions := (sessions m)(s \<mapsto> si)\<rparr>)))"

text \<open>\<open>openFiles[p]\<close> and \<open>openSessions[h]\<close> as values.\<close>

definition file_count :: "'h BlobManager \<Rightarrow> string \<Rightarrow> int" where
  "file_count m p = (case openFiles m p of None \<Rightarrow> 0 | Some n \<Rightarrow> n)"

definition handler_sessions :: "'h BlobManager \<Rightarrow> hid \<Rightarrow> u16 set" where
  "handler_sessions m i = (case openSessions m i of None \<Rightarrow> {} | Some S \<Rightarrow> S)"

text \<open>\<open>++\<close> and \<open>--\<close> of a 32-bit \<open>int\<close>.\<close>

definition int32_max :: int where
  "int32_max = 2147483647"

definition int_inc :: "int \<Rightarrow> int option" where
  "int_inc n = (if n < int32_max then Some (n + 1) else None)"

definition int_dec :: "int \<Rightarrow> int option" where
  "int_dec n = (if - int32_max - 1 < n then Some (n - 1) else None)"

text \<open>A virtual call through a handler pointer.\<close>

definition call_handler ::
    "hid \<Rightarrow> ('h \<Rightarrow> ('r \<times> 'h) option) \<Rightarrow> 'h BlobManager \<Rightarrow> ('r \<times> 'h BlobManager) option" where
  "call_handler i f m =
     (if i < length (handlers m) then
        do { (r, h) \<leftarrow> f (handlers m ! i); Some (r, m\<lparr>handlers := (handlers m)[i := h]\<rparr>) }
      else None)"

section \<open>Registration and enumeration\<close>

definition registerHandler :: "'h option \<Rightarrow> 'h BlobManager \<Rightarrow> bool \<times> 'h BlobManager" where
  "registerHandler hp m = (case hp of
       None \<Rightarrow> (False, m)
     | Some h \<Rightarrow> (True, m\<lparr>handlers := handlers m @ [h]\<rparr>))"

fun collect_ids ::
    "'h GenericBlobInterface \<Rightarrow> 'h list \<Rightarrow> (string list \<times> 'h list) option" where
  "collect_ids gbi [] = Some ([], [])"
| "collect_ids gbi (h # hs) =
     do { (blobs, h') \<leftarrow> gbi_getBlobIds gbi h;
          (rest, hs') \<leftarrow> collect_ids gbi hs;
          Some (blobs @ rest, h' # hs') }"

definition buildBlobList ::
    "'h GenericBlobInterface \<Rightarrow> 'h BlobManager \<Rightarrow> (u32 \<times> 'h BlobManager) option" where
  "buildBlobList gbi m =
     do { (l, hs) \<leftarrow> collect_ids gbi (handlers m);
          Some (word_of_nat (length l), m\<lparr>ids := l, handlers := hs\<rparr>) }"

definition getBlobId :: "u32 \<Rightarrow> 'h BlobManager \<Rightarrow> string" where
  "getBlobId index m = (if unat index \<ge> length (ids m) then [] else ids m ! unat index)"

section \<open>Helpers: session numbers, handler lookup\<close>

text \<open>
  \<open>getSession\<close>. The body of the \<open>do\<close>-\<open>while\<close> loop with its 16-bit counter \<open>tries\<close>;
  \<open>None\<close> is a return of \<open>false\<close>, \<open>Some s\<close> a return of \<open>true\<close> after storing \<open>s\<close>
  through the pointer.
\<close>

function getSession_loop :: "u16 \<Rightarrow> 'h BlobManager \<Rightarrow> u16 option \<times> 'h BlobManager" where
  "getSession_loop tries m =
     (let lsess = next_session m;
          m1 = m\<lparr>next_session := lsess + 1\<rparr> in
      if sessions m lsess = None then (Some lsess, m1)
      else if tries + 1 < 0xffff then getSession_loop (tries + 1) m1
      else (None, m1))"
  by pat_completeness auto

text \<open>
  The loop ends for every start value of \<open>tries\<close>: the distance to \<open>0xfffe\<close> modulo
  \<open>2 ^ 16\<close> shrinks, and at \<open>0xfffe\<close> the guard fails.
\<close>

lemma getSession_loop_measure:
  fixes t :: u16
  assumes "t + 1 < 0xffff"
  shows "unat (0xfffd - t) < unat (0xfffe - t)"
proof -
  have nz: "0xfffe - t \<noteq> 0"
    using assms by auto
  have "unat (0xfffe - t - 1) = unat (0xfffe - t) - 1"
    using nz by (rule unat_minus_one)
  moreover have "0 < unat (0xfffe - t)"
    using nz by (simp add: unat_gt_0)
  moreover have "0xfffe - t - 1 = 0xfffd - t"
    by simp
  ultimately show ?thesis
    by (metis diff_less zero_less_one)
qed

termination getSession_loop
  by (relation "measure (\<lambda>(tries, m). unat (0xfffe - tries))") (simp_all add: getSession_loop_measure)

declare getSession_loop.simps [simp del]

definition getSession :: "out_ptr \<Rightarrow> 'h BlobManager \<Rightarrow> u16 option \<times> 'h BlobManager" where
  "getSession sess m = (case sess of nullptr \<Rightarrow> (None, m) | out_param \<Rightarrow> getSession_loop 0 m)"

text \<open>\<open>std::find_if\<close> over the handlers with \<open>canHandleBlob\<close>.\<close>

fun find_handler ::
    "'h GenericBlobInterface \<Rightarrow> string \<Rightarrow> 'h list \<Rightarrow> (hid option \<times> 'h list) option" where
  "find_handler gbi path [] = Some (None, [])"
| "find_handler gbi path (h # hs) =
     do { (b, h') \<leftarrow> gbi_canHandleBlob gbi path h;
          if b then Some (Some 0, h' # hs)
          else do { (r, hs') \<leftarrow> find_handler gbi path hs; Some (map_option Suc r, h' # hs') } }"

definition getHandler ::
    "'h GenericBlobInterface \<Rightarrow> string \<Rightarrow> 'h BlobManager \<Rightarrow> (hid option \<times> 'h BlobManager) option" where
  "getHandler gbi path m =
     do { (r, hs) \<leftarrow> find_handler gbi path (handlers m); Some (r, m\<lparr>handlers := hs\<rparr>) }"

text \<open>\<open>requiredFlags\<close> defaults to \<open>numeric_limits<uint16_t>::max()\<close>.\<close>

definition any_flags :: u16 where
  "any_flags = 0xffff"

definition getActionHandler ::
    "u16 \<Rightarrow> u16 \<Rightarrow> 'h BlobManager \<Rightarrow> (hid option \<times> 'h BlobManager) option" where
  "getActionHandler session requiredFlags m = (case sessions m session of
       None \<Rightarrow> Some (None, m)
     | Some item \<Rightarrow>
         if has_flag (flags item) requiredFlags then
           (let (now, m) = steady_now m;
                m = m\<lparr>sessions := (sessions m)(session \<mapsto> item\<lparr>lastActionTime := now\<rparr>)\<rparr> in
            Some (handler item, m))
         else Some (None, m))"

definition eraseSession :: "hid \<Rightarrow> u16 \<Rightarrow> 'h BlobManager \<Rightarrow> 'h BlobManager option" where
  "eraseSession hp session m = (case sessions m session of
       None \<Rightarrow> Some m
     | Some item \<Rightarrow>
         (let m = m\<lparr>openSessions := (openSessions m)(hp \<mapsto> handler_sessions m hp - {session})\<rparr> in
          do { n \<leftarrow> int_dec (file_count m (blobId item));
               let m = m\<lparr>openFiles := (openFiles m)(blobId item \<mapsto> n)\<rparr>;
               let m = (if file_count m (blobId item) = 0
                        then m\<lparr>openFiles := (openFiles m)(blobId item := None)\<rparr> else m);
               Some (m\<lparr>sessions := (sessions m)(session := None)\<rparr>) }))"

text \<open>
  \<open>cleanUpStaleSessions\<close>: the first loop collects the expired set, the second issues
  the \<open>expire\<close> calls. The loop over \<open>openSessions[handler]\<close> goes through
  \<open>sessions[sessionId]\<close>, which inserts a default entry for a missing session.
\<close>

fun collect_stale :: "time \<Rightarrow> u16 list \<Rightarrow> 'h BlobManager \<Rightarrow> u16 set \<times> 'h BlobManager" where
  "collect_stale timeNow [] m = ({}, m)"
| "collect_stale timeNow (s # ss) m =
     (let (si, m) = sessions_at s m;
          (expiredSet, m') = collect_stale timeNow ss m in
      (if timeNow - lastActionTime si \<ge> nanoseconds (sessionTimeout m)
       then insert s expiredSet else expiredSet, m'))"

definition report :: "message \<Rightarrow> 'h BlobManager \<Rightarrow> 'h BlobManager" where
  "report e m = m\<lparr>cerr := cerr m @ [e]\<rparr>"

lemma report_sel [simp]:
  "sessionTimeout (report e m) = sessionTimeout m"
  "next_session (report e m) = next_session m"
  "ids (report e m) = ids m"
  "handlers (report e m) = handlers m"
  "sessions (report e m) = sessions m"
  "openFiles (report e m) = openFiles m"
  "openSessions (report e m) = openSessions m"
  "clock (report e m) = clock m"
  "cerr (report e m) = cerr m @ [e]"
  by (simp_all add: report_def)

fun expire_sessions ::
    "'h GenericBlobInterface \<Rightarrow> hid \<Rightarrow> u16 list \<Rightarrow> 'h BlobManager \<Rightarrow> 'h BlobManager option" where
  "expire_sessions gbi hp [] m = Some m"
| "expire_sessions gbi hp (s # ss) m =
     do { (b, m) \<leftarrow> call_handler hp (gbi_expire gbi s) (report (ExpiringStaleSession s) m);
          m \<leftarrow> (if b then eraseSession hp s m else Some (report (FailedToExpireSession s) m));
          expire_sessions gbi hp ss m }"

definition cleanUpStaleSessions ::
    "'h GenericBlobInterface \<Rightarrow> hid \<Rightarrow> 'h BlobManager \<Rightarrow> 'h BlobManager option" where
  "cleanUpStaleSessions gbi hp m = (case openSessions m hp of
       None \<Rightarrow> Some m
     | Some S \<Rightarrow>
         (let (timeNow, m) = steady_now m;
              (expiredSet, m) = collect_stale timeNow (sorted_list_of_set S) m in
          expire_sessions gbi hp (sorted_list_of_set expiredSet) m))"

section \<open>The operations on blobs and sessions\<close>

text \<open>
  \<open>open\<close>. The second component of the result is what has been stored through the
  \<open>session\<close> pointer, which can happen although the call fails. In the assignment
  \<open>sessions[*session] = SessionInfo(path, handler, flags)\<close> the right operand is evaluated
  first; the left one default-constructs the new entry, which reads the clock once more.
\<close>

definition record_session ::
    "hid \<Rightarrow> u16 \<Rightarrow> u16 \<Rightarrow> string \<Rightarrow> 'h BlobManager \<Rightarrow> 'h BlobManager option" where
  "record_session hp session fl path m =
     (let (info, m) = new_SessionInfo path hp fl m;
          (_, m) = sessions_at session m;
          m = m\<lparr>sessions := (sessions m)(session \<mapsto> info)\<rparr>;
          m = m\<lparr>openSessions := (openSessions m)(hp \<mapsto> insert session (handler_sessions m hp))\<rparr> in
      do { n \<leftarrow> int_inc (file_count m path);
           Some (m\<lparr>openFiles := (openFiles m)(path \<mapsto> n)\<rparr>) })"

definition BlobManager_open ::
    "'h GenericBlobInterface \<Rightarrow> u16 \<Rightarrow> string \<Rightarrow> out_ptr \<Rightarrow> 'h BlobManager
       \<Rightarrow> ((bool \<times> u16 option) \<times> 'h BlobManager) option" where
  "BlobManager_open gbi fl path session m =
     do { (found, m) \<leftarrow> getHandler gbi path m;
          case found of
            None \<Rightarrow> Some ((False, None), m)
          | Some hp \<Rightarrow>
              (case getSession session m of
                 (None, m) \<Rightarrow> Some ((False, None), m)
               | (Some s, m) \<Rightarrow>
                   if \<not> has_flag fl read_or_write then Some ((False, Some s), m)
                   else do { m \<leftarrow> cleanUpStaleSessions gbi hp m;
                             (b, m) \<leftarrow> call_handler hp (gbi_open gbi s fl path) m;
                             if \<not> b then Some ((False, Some s), m)
                             else do { m \<leftarrow> record_session hp s fl path m;
                                       Some ((True, Some s), m) } }) }"

definition BlobManager_statPath ::
    "'h GenericBlobInterface \<Rightarrow> string \<Rightarrow> BlobMeta \<Rightarrow> 'h BlobManager
       \<Rightarrow> ((bool \<times> BlobMeta) \<times> 'h BlobManager) option" where
  "BlobManager_statPath gbi path mt m =
     do { (found, m) \<leftarrow> getHandler gbi path m;
          case found of
            None \<Rightarrow> Some ((False, mt), m)
          | Some hp \<Rightarrow> call_handler hp (gbi_statPath gbi path mt) m }"

definition BlobManager_stat ::
    "'h GenericBlobInterface \<Rightarrow> u16 \<Rightarrow> BlobMeta \<Rightarrow> 'h BlobManager
       \<Rightarrow> ((bool \<times> BlobMeta) \<times> 'h BlobManager) option" where
  "BlobManager_stat gbi session mt m =
     do { (found, m) \<leftarrow> getActionHandler session any_flags m;
          case found of
            None \<Rightarrow> Some ((False, mt), m)
          | Some hp \<Rightarrow> call_handler hp (gbi_stat gbi session mt) m }"

definition BlobManager_commit ::
    "'h GenericBlobInterface \<Rightarrow> u16 \<Rightarrow> bytes \<Rightarrow> 'h BlobManager \<Rightarrow> (bool \<times> 'h BlobManager) option" where
  "BlobManager_commit gbi session d m =
     do { (found, m) \<leftarrow> getActionHandler session any_flags m;
          case found of
            None \<Rightarrow> Some (False, m)
          | Some hp \<Rightarrow> call_handler hp (gbi_commit gbi session d) m }"

definition BlobManager_close ::
    "'h GenericBlobInterface \<Rightarrow> u16 \<Rightarrow> 'h BlobManager \<Rightarrow> (bool \<times> 'h BlobManager) option" where
  "BlobManager_close gbi session m =
     do { (found, m) \<leftarrow> getActionHandler session any_flags m;
          case found of
            None \<Rightarrow> Some (False, m)
          | Some hp \<Rightarrow>
              do { (b, m) \<leftarrow> call_handler hp (gbi_close gbi session) m;
                   if \<not> b then Some (False, m)
                   else do { m \<leftarrow> eraseSession hp session m; Some (True, m) } } }"

definition BlobManager_read ::
    "'h GenericBlobInterface \<Rightarrow> u16 \<Rightarrow> u32 \<Rightarrow> u32 \<Rightarrow> 'h BlobManager
       \<Rightarrow> (bytes \<times> 'h BlobManager) option" where
  "BlobManager_read gbi session offset requestedSize m =
     do { (found, m) \<leftarrow> getActionHandler session OpenFlags_read m;
          case found of
            None \<Rightarrow> Some ([], m)
          | Some hp \<Rightarrow> call_handler hp (gbi_read gbi session offset requestedSize) m }"

definition BlobManager_write ::
    "'h GenericBlobInterface \<Rightarrow> u16 \<Rightarrow> u32 \<Rightarrow> bytes \<Rightarrow> 'h BlobManager
       \<Rightarrow> (bool \<times> 'h BlobManager) option" where
  "BlobManager_write gbi session offset d m =
     do { (found, m) \<leftarrow> getActionHandler session OpenFlags_write m;
          case found of
            None \<Rightarrow> Some (False, m)
          | Some hp \<Rightarrow> call_handler hp (gbi_write gbi session offset d) m }"

text \<open>\<open>openFiles[path] > 0\<close> inserts a zero entry for a path that is not open.\<close>

definition BlobManager_deleteBlob ::
    "'h GenericBlobInterface \<Rightarrow> string \<Rightarrow> 'h BlobManager \<Rightarrow> (bool \<times> 'h BlobManager) option" where
  "BlobManager_deleteBlob gbi path m =
     do { (found, m) \<leftarrow> getHandler gbi path m;
          case found of
            None \<Rightarrow> Some (False, m)
          | Some hp \<Rightarrow>
              (let n = file_count m path;
                   m = m\<lparr>openFiles := (openFiles m)(path \<mapsto> n)\<rparr> in
               if n > 0 then Some (False, m)
               else call_handler hp (gbi_deleteBlob gbi path) m) }"

definition BlobManager_writeMeta ::
    "'h GenericBlobInterface \<Rightarrow> u16 \<Rightarrow> u32 \<Rightarrow> bytes \<Rightarrow> 'h BlobManager
       \<Rightarrow> (bool \<times> 'h BlobManager) option" where
  "BlobManager_writeMeta gbi session offset d m =
     do { (found, m) \<leftarrow> getActionHandler session any_flags m;
          case found of
            None \<Rightarrow> Some (False, m)
          | Some hp \<Rightarrow> call_handler hp (gbi_writeMeta gbi session offset d) m }"

section \<open>The class as an implementation of the interface\<close>

definition BlobManager_methods ::
    "'h GenericBlobInterface \<Rightarrow> ('h, 'h BlobManager) ManagerInterface" where
  "BlobManager_methods gbi =
     \<lparr>mi_registerHandler = (\<lambda>h m. Some (registerHandler h m)),
      mi_buildBlobList = buildBlobList gbi,
      mi_getBlobId = (\<lambda>index m. Some (getBlobId index m, m)),
      mi_open = BlobManager_open gbi,
      mi_statPath = BlobManager_statPath gbi,
      mi_stat = BlobManager_stat gbi,
      mi_commit = BlobManager_commit gbi,
      mi_close = BlobManager_close gbi,
      mi_read = BlobManager_read gbi,
      mi_write = BlobManager_write gbi,
      mi_deleteBlob = BlobManager_deleteBlob gbi,
      mi_writeMeta = BlobManager_writeMeta gbi\<rparr>"

lemma BlobManager_methods_sel [simp]:
  "mi_registerHandler (BlobManager_methods gbi) = (\<lambda>h m. Some (registerHandler h m))"
  "mi_buildBlobList (BlobManager_methods gbi) = buildBlobList gbi"
  "mi_getBlobId (BlobManager_methods gbi) = (\<lambda>index m. Some (getBlobId index m, m))"
  "mi_open (BlobManager_methods gbi) = BlobManager_open gbi"
  "mi_statPath (BlobManager_methods gbi) = BlobManager_statPath gbi"
  "mi_stat (BlobManager_methods gbi) = BlobManager_stat gbi"
  "mi_commit (BlobManager_methods gbi) = BlobManager_commit gbi"
  "mi_close (BlobManager_methods gbi) = BlobManager_close gbi"
  "mi_read (BlobManager_methods gbi) = BlobManager_read gbi"
  "mi_write (BlobManager_methods gbi) = BlobManager_write gbi"
  "mi_deleteBlob (BlobManager_methods gbi) = BlobManager_deleteBlob gbi"
  "mi_writeMeta (BlobManager_methods gbi) = BlobManager_writeMeta gbi"
  by (simp_all add: BlobManager_methods_def)

section \<open>The singleton\<close>

text \<open>
  \<open>getBlobManager\<close>: the static \<open>manager\<close> is made on the first call, with the default
  session timeout; \<open>t\<close> and \<open>clk\<close> are the clocks' readings at that moment.
\<close>

definition getBlobManager ::
    "int \<Rightarrow> (nat \<Rightarrow> time) \<Rightarrow> 'h BlobManager option \<Rightarrow> 'h BlobManager" where
  "getBlobManager t clk manager = (case manager of
       None \<Rightarrow> new_BlobManager defaultSessionTimeout t clk
     | Some m \<Rightarrow> m)"

end
