(* ===== verification/Manager_Inv.thy ===== *)
theory Manager_Inv
  imports Manager
begin

text \<open>
  The invariant of the blob manager and its preservation.

  \<^item> \<open>index_inv\<close>: the three maps of the manager agree. Every session names a registered
    handler and has been opened for reading or writing; \<open>openFiles\<close> counts the sessions
    of each path; \<open>openSessions\<close> groups the sessions by handler.
  \<^item> \<open>mgr_inv\<close> adds the handlers: each keeps its own invariant, and the sessions it
    believes to be open are exactly those the manager has recorded for it.

  The first part proves what the private helpers do to the maps, without a handler. The
  second part, inside the locale \<open>blob_handler\<close>, proves that every public operation
  started in \<open>mgr_inv\<close> is free of undefined behaviour and ends in \<open>mgr_inv\<close>. As the
  laws of the locale promise nothing outside the calling contract, this includes that the
  manager respects the contract.
\<close>

section \<open>The invariant\<close>

definition sess_of :: "'h BlobManager \<Rightarrow> hid \<Rightarrow> u16 \<rightharpoonup> string \<times> u16" where
  "sess_of m i s = (case sessions m s of
       None \<Rightarrow> None
     | Some si \<Rightarrow> if handler si = Some i then Some (blobId si, flags si) else None)"

definition sessions_on :: "'h BlobManager \<Rightarrow> string \<Rightarrow> u16 set" where
  "sessions_on m p = {s. \<exists>si. sessions m s = Some si \<and> blobId si = p}"

definition sessions_of_handler :: "'h BlobManager \<Rightarrow> hid \<Rightarrow> u16 set" where
  "sessions_of_handler m i = {s. \<exists>si. sessions m s = Some si \<and> handler si = Some i}"

definition table_inv :: "'h BlobManager \<Rightarrow> bool" where
  "table_inv m \<longleftrightarrow> (\<forall>s si. sessions m s = Some si \<longrightarrow>
     (\<exists>i f. handler si = Some i \<and> i < length (handlers m) \<and> flags si = f
        \<and> has_flag f read_or_write))"

definition index_inv :: "'h BlobManager \<Rightarrow> bool" where
  "index_inv m \<longleftrightarrow> table_inv m
     \<and> (\<forall>p. file_count m p = int (card (sessions_on m p)))
     \<and> (\<forall>i. handler_sessions m i = sessions_of_handler m i)"

definition mgr_inv ::
    "('h \<Rightarrow> bool) \<Rightarrow> ('h \<Rightarrow> u16 \<rightharpoonup> string \<times> u16) \<Rightarrow> 'h BlobManager \<Rightarrow> bool" where
  "mgr_inv hinv live m \<longleftrightarrow> index_inv m
     \<and> (\<forall>i < length (handlers m). hinv (handlers m ! i) \<and> live (handlers m ! i) = sess_of m i)"

text \<open>What an operation leaves alone: every member outside the session maps and the clock.\<close>

definition same_config :: "'h BlobManager \<Rightarrow> 'h BlobManager \<Rightarrow> bool" where
  "same_config m m' \<longleftrightarrow> sessionTimeout m' = sessionTimeout m \<and> ids m' = ids m
     \<and> length (handlers m') = length (handlers m)"

lemma same_config_refl [simp]: "same_config m m"
  by (simp add: same_config_def)

lemma same_config_trans: "same_config a b \<Longrightarrow> same_config b c \<Longrightarrow> same_config a c"
  by (simp add: same_config_def)

lemma table_invE:
  assumes "table_inv m" and "sessions m s = Some si"
  obtains i f where "handler si = Some i" and "i < length (handlers m)"
    and "flags si = f" and "has_flag f read_or_write"
  using assms unfolding table_inv_def by blast

lemma index_inv_table: "index_inv m \<Longrightarrow> table_inv m"
  by (simp add: index_inv_def)

lemma mgr_inv_index: "mgr_inv hinv live m \<Longrightarrow> index_inv m"
  by (simp add: mgr_inv_def)

lemma mgr_inv_hinv: "mgr_inv hinv live m \<Longrightarrow> i < length (handlers m) \<Longrightarrow> hinv (handlers m ! i)"
  by (simp add: mgr_inv_def)

lemma mgr_inv_live:
  "mgr_inv hinv live m \<Longrightarrow> i < length (handlers m) \<Longrightarrow> live (handlers m ! i) = sess_of m i"
  by (simp add: mgr_inv_def)

text \<open>The invariant reads the session maps only, so the other members can change freely.\<close>

lemma sess_of_cong: "sessions m' = sessions m \<Longrightarrow> sess_of m' = sess_of m"
  by (simp add: sess_of_def fun_eq_iff)

lemma index_inv_cong:
  assumes "sessions m' = sessions m" and "openFiles m' = openFiles m"
    and "openSessions m' = openSessions m" and "length (handlers m') \<ge> length (handlers m)"
  shows "index_inv m \<Longrightarrow> index_inv m'"
  using assms unfolding index_inv_def table_inv_def sessions_on_def sessions_of_handler_def
    file_count_def handler_sessions_def
  by (fastforce intro: less_le_trans)

lemma cerr_same [simp]:
  "index_inv (m\<lparr>cerr := l\<rparr>) \<longleftrightarrow> index_inv m"
  "sess_of (m\<lparr>cerr := l\<rparr>) = sess_of m"
  "sessions_of_handler (m\<lparr>cerr := l\<rparr>) = sessions_of_handler m"
  "mgr_inv hinv live (m\<lparr>cerr := l\<rparr>) \<longleftrightarrow> mgr_inv hinv live m"
proof -
  let ?m = "m\<lparr>cerr := l\<rparr>"
  show idx: "index_inv ?m \<longleftrightarrow> index_inv m"
    using index_inv_cong [of ?m m] index_inv_cong [of m ?m] by auto
  show sess: "sess_of ?m = sess_of m"
    by (rule sess_of_cong) simp
  show "sessions_of_handler ?m = sessions_of_handler m"
    by (simp add: fun_eq_iff sessions_of_handler_def)
  show "mgr_inv hinv live ?m \<longleftrightarrow> mgr_inv hinv live m"
    by (simp add: mgr_inv_def idx sess)
qed

lemma report_same [simp]:
  "index_inv (report e m) \<longleftrightarrow> index_inv m"
  "sess_of (report e m) = sess_of m"
  "sessions_of_handler (report e m) = sessions_of_handler m"
  "mgr_inv hinv live (report e m) \<longleftrightarrow> mgr_inv hinv live m"
  unfolding report_def by (rule cerr_same)+

lemma sess_of_Some:
  "sess_of m i s = Some (p, f) \<longleftrightarrow>
     (\<exists>si. sessions m s = Some si \<and> handler si = Some i \<and> blobId si = p \<and> flags si = f)"
  by (auto simp: sess_of_def split: option.splits)

lemma sess_of_None: "sessions m s = None \<Longrightarrow> sess_of m i s = None"
  by (simp add: sess_of_def)

lemma new_BlobManager_inv: "mgr_inv hinv live (new_BlobManager timeout t clk)"
  by (simp add: mgr_inv_def index_inv_def table_inv_def new_BlobManager_def sessions_on_def
      sessions_of_handler_def file_count_def handler_sessions_def)

section \<open>The session number\<close>

lemma getSession_loop_frame:
  "getSession_loop t m = (r, m') \<Longrightarrow> \<exists>n. m' = m\<lparr>next_session := n\<rparr>"
proof (induction t m arbitrary: r m' rule: getSession_loop.induct)
  case (1 t m)
  show ?case
    using "1.prems" "1.IH" [OF refl refl]
    by (subst (asm) getSession_loop.simps) (fastforce simp: Let_def split: if_splits)
qed

lemma getSession_loop_fresh:
  "getSession_loop t m = (Some s, m') \<Longrightarrow> sessions m s = None"
proof (induction t m arbitrary: m' rule: getSession_loop.induct)
  case (1 t m)
  show ?case
    using "1.prems" "1.IH" [OF refl refl]
    by (subst (asm) getSession_loop.simps) (fastforce simp: Let_def split: if_splits)
qed

lemma getSession_frame: "getSession q m = (r, m') \<Longrightarrow> \<exists>n. m' = m\<lparr>next_session := n\<rparr>"
  using getSession_loop_frame [of 0 m r m']
  by (cases q) (auto simp: getSession_def intro: exI [where x = "next_session m"])

lemma getSession_fresh: "getSession q m = (Some s, m') \<Longrightarrow> sessions m s = None"
  by (cases q) (auto simp: getSession_def intro: getSession_loop_fresh)

section \<open>Updates of the session table\<close>

text \<open>A touched session has a new time; nothing else of the index changes.\<close>

definition touch :: "u16 \<Rightarrow> SessionInfo \<Rightarrow> 'h BlobManager \<Rightarrow> 'h BlobManager" where
  "touch s si m = m\<lparr>clock := clock m \<circ> Suc,
     sessions := (sessions m)(s \<mapsto> si\<lparr>lastActionTime := clock m 0\<rparr>)\<rparr>"

lemma touch_index_inv:
  assumes "index_inv m" and "sessions m s = Some si"
  shows "index_inv (touch s si m)"
proof -
  have "sessions_on (touch s si m) p = sessions_on m p" for p
    using assms(2) by (auto simp: sessions_on_def touch_def)
  moreover have "sessions_of_handler (touch s si m) i = sessions_of_handler m i" for i
    using assms(2) by (auto simp: sessions_of_handler_def touch_def)
  moreover have "table_inv (touch s si m)"
    using assms by (auto simp: index_inv_def table_inv_def touch_def)
  ultimately show ?thesis
    using assms(1) by (simp add: index_inv_def file_count_def handler_sessions_def touch_def)
qed

lemma touch_sess_of: "sessions m s = Some si \<Longrightarrow> sess_of (touch s si m) = sess_of m"
  by (auto simp: sess_of_def touch_def fun_eq_iff)

lemma getActionHandler_None:
  "sessions m s = None \<Longrightarrow> getActionHandler s req m = Some (None, m)"
  by (simp add: getActionHandler_def)

lemma getActionHandler_Some:
  assumes "sessions m s = Some si" and "handler si = Some i" and "flags si = f"
  shows "getActionHandler s req m =
    (if has_flag f req then Some (Some i, touch s si m) else Some (None, m))"
  using assms by (simp add: getActionHandler_def steady_now_def touch_def)

text \<open>Adding a session.\<close>

lemma card_sessions_le: "card (S :: u16 set) \<le> 65536"
proof -
  have "card S \<le> CARD(u16)"
    by (rule card_mono) simp_all
  then show ?thesis by (simp add: card_word)
qed

lemma view_upd [simp]:
  "file_count (m\<lparr>openSessions := S\<rparr>) p = file_count m p"
  "file_count (m\<lparr>sessions := T\<rparr>) p = file_count m p"
  "file_count (m\<lparr>clock := c\<rparr>) p = file_count m p"
  "file_count (m\<lparr>openFiles := F\<rparr>) p = (case F p of None \<Rightarrow> 0 | Some n \<Rightarrow> n)"
  "handler_sessions (m\<lparr>openFiles := F\<rparr>) i = handler_sessions m i"
  "handler_sessions (m\<lparr>sessions := T\<rparr>) i = handler_sessions m i"
  "handler_sessions (m\<lparr>clock := c\<rparr>) i = handler_sessions m i"
  by (simp_all add: file_count_def handler_sessions_def)

lemma record_session_eq:
  assumes inv: "index_inv m" and s: "sessions m s = None" and i: "i < length (handlers m)"
    and f: "has_flag f read_or_write"
  shows "ok (record_session i s f p m) (\<lambda>m'. index_inv m' \<and> same_config m m'
     \<and> handlers m' = handlers m
     \<and> sessions m' = (sessions m)(s \<mapsto>
         \<lparr>blobId = p, handler = Some i, flags = f, lastActionTime = clock m 0\<rparr>))"
proof -
  define info where
    "info = \<lparr>blobId = p, handler = Some i, flags = f, lastActionTime = clock m 0\<rparr>"
  define m' where "m' = m\<lparr>clock := clock m \<circ> Suc \<circ> Suc, sessions := (sessions m)(s \<mapsto> info),
     openSessions := (openSessions m)(i \<mapsto> insert s (handler_sessions m i)),
     openFiles := (openFiles m)(p \<mapsto> file_count m p + 1)\<rparr>"
  have files: "file_count m q = int (card (sessions_on m q))" for q
    using inv by (simp add: index_inv_def)
  have "file_count m p < int32_max"
    using card_sessions_le [of "sessions_on m p"] by (simp add: files int32_max_def)
  then have eq: "record_session i s f p m = Some m'"
    using s by (simp add: record_session_def new_SessionInfo_def default_SessionInfo_def
        sessions_at_def steady_now_def int_inc_def file_count_def handler_sessions_def
        m'_def info_def Let_def comp_assoc)
  have on: "sessions_on m' q = (if q = p then insert s (sessions_on m q) else sessions_on m q)" for q
    using s by (auto simp: sessions_on_def m'_def info_def)
  have of: "sessions_of_handler m' j =
      (if j = i then insert s (sessions_of_handler m j) else sessions_of_handler m j)" for j
    using s by (auto simp: sessions_of_handler_def m'_def info_def)
  have fc: "file_count m' q = (if q = p then file_count m p + 1 else file_count m q)" for q
    by (simp add: m'_def file_count_def)
  have hs: "handler_sessions m' j =
      (if j = i then insert s (handler_sessions m i) else handler_sessions m j)" for j
    by (simp add: m'_def handler_sessions_def)
  have "s \<notin> sessions_on m p"
    using s by (simp add: sessions_on_def)
  then have "file_count m' q = int (card (sessions_on m' q))" for q
    by (simp add: fc on files)
  moreover have "handler_sessions m' j = sessions_of_handler m' j" for j
    using inv by (simp add: hs of index_inv_def)
  moreover have "table_inv m'"
    using inv i f by (auto simp: index_inv_def table_inv_def m'_def info_def)
  ultimately show ?thesis
    by (simp add: eq index_inv_def) (simp add: m'_def info_def same_config_def)
qed

text \<open>Removing a session.\<close>

lemma eraseSession_eq:
  assumes inv: "index_inv m" and s: "sessions m s = Some si" and i: "handler si = Some i"
  shows "ok (eraseSession i s m) (\<lambda>m'. index_inv m' \<and> same_config m m'
     \<and> handlers m' = handlers m \<and> clock m' = clock m \<and> next_session m' = next_session m
     \<and> sessions m' = (sessions m)(s := None))"
proof -
  define p n where "p = blobId si" and "n = file_count m p - 1"
  define m' where "m' = m\<lparr>openSessions := (openSessions m)(i \<mapsto> handler_sessions m i - {s}),
     openFiles := (openFiles m)(p := (if n = 0 then None else Some n)),
     sessions := (sessions m)(s := None)\<rparr>"
  have files: "file_count m q = int (card (sessions_on m q))" for q
    using inv by (simp add: index_inv_def)
  have mem: "s \<in> sessions_on m p"
    using s by (simp add: sessions_on_def p_def)
  have "int_dec (file_count m p) = Some n"
    by (simp add: int_dec_def int32_max_def n_def files)
  then have eq: "eraseSession i s m = Some m'"
    using s by (simp add: eraseSession_def m'_def Let_def flip: p_def)
  have on: "sessions_on m' q = sessions_on m q - {s}" for q
    by (auto simp: sessions_on_def m'_def)
  have of: "sessions_of_handler m' j = sessions_of_handler m j - {s}" for j
    by (auto simp: sessions_of_handler_def m'_def)
  have other: "s \<notin> sessions_on m q" if "q \<noteq> p" for q
    using s that by (simp add: sessions_on_def p_def)
  have otherh: "s \<notin> sessions_of_handler m j" if "j \<noteq> i" for j
    using s i that by (simp add: sessions_of_handler_def)
  have fc: "file_count m' q = (if q = p then n else file_count m q)" for q
    by (simp add: m'_def file_count_def)
  have hs: "handler_sessions m' j =
      (if j = i then handler_sessions m i - {s} else handler_sessions m j)" for j
    by (simp add: m'_def handler_sessions_def)
  have "file_count m' q = int (card (sessions_on m' q))" for q
  proof (cases "q = p")
    case True
    have "card (sessions_on m p - {s}) = card (sessions_on m p) - 1"
      using mem by simp
    moreover have "0 < card (sessions_on m p)"
      using mem by (auto simp: card_gt_0_iff)
    ultimately have "int (card (sessions_on m p - {s})) = n"
      by (simp add: n_def files)
    then show ?thesis
      by (simp add: True on fc)
  next
    case False
    then show ?thesis
      using other [OF False] False by (simp add: on fc files)
  qed
  moreover have "handler_sessions m' j = sessions_of_handler m' j" for j
    using inv otherh by (cases "j = i") (simp_all add: of hs index_inv_def)
  moreover have "table_inv m'"
    using inv by (auto simp: index_inv_def table_inv_def m'_def)
  ultimately show ?thesis
    by (simp add: eq index_inv_def) (simp add: m'_def same_config_def)
qed

section \<open>Collecting stale sessions\<close>

definition stale :: "time \<Rightarrow> 'h BlobManager \<Rightarrow> u16 \<Rightarrow> bool" where
  "stale now m s = (case sessions m s of
       None \<Rightarrow> False
     | Some si \<Rightarrow> now - lastActionTime si \<ge> nanoseconds (sessionTimeout m))"

lemma stale_cong:
  "sessions m' s = sessions m s \<Longrightarrow> sessionTimeout m' = sessionTimeout m \<Longrightarrow>
   stale now m' s = stale now m s"
  by (simp add: stale_def split: option.split)

text \<open>On recorded sessions the first loop inserts no entry and finds exactly the stale ones.\<close>

lemma collect_stale_eq:
  "set ss \<subseteq> dom (sessions m) \<Longrightarrow> collect_stale now ss m = ({s \<in> set ss. stale now m s}, m)"
  by (induction ss) (auto simp: sessions_at_def stale_def split: option.splits)

lemma sessions_of_handler_dom: "sessions_of_handler m i \<subseteq> dom (sessions m)"
  by (auto simp: sessions_of_handler_def)

lemma cleanUpStaleSessions_eq:
  assumes "index_inv m"
  shows "cleanUpStaleSessions gbi i m =
    (if openSessions m i = None then Some m
     else expire_sessions gbi i
       (sorted_list_of_set {s \<in> sessions_of_handler m i. stale (clock m 0) m s})
       (m\<lparr>clock := clock m \<circ> Suc\<rparr>))"
proof (cases "openSessions m i")
  case None
  then show ?thesis by (simp add: cleanUpStaleSessions_def)
next
  case (Some S)
  then have S: "S = sessions_of_handler m i"
    using assms by (auto simp: index_inv_def handler_sessions_def split: option.splits)
  let ?m1 = "m\<lparr>clock := clock m \<circ> Suc\<rparr>"
  have "collect_stale (clock m 0) (sorted_list_of_set S) ?m1 =
      ({s \<in> S. stale (clock m 0) m s}, ?m1)"
    using sessions_of_handler_dom [of m i]
    by (subst collect_stale_eq) (auto simp: S stale_def split: option.splits)
  then show ?thesis
    using Some by (simp add: cleanUpStaleSessions_def steady_now_def S)
qed

text \<open>What opening can do to the sessions that were there before.\<close>

definition only_expired :: "'h BlobManager \<Rightarrow> 'h BlobManager \<Rightarrow> u16 \<Rightarrow> bool" where
  "only_expired m m' s \<longleftrightarrow> sessions m' s = sessions m s \<or>
     (stale (clock m 0) m s \<and> sessions m' s = None)"

section \<open>The operations under the handler contract\<close>

context blob_handler
begin

abbreviation minv :: "'h BlobManager \<Rightarrow> bool" where
  "minv \<equiv> mgr_inv hinv live"

definition keeps :: "'h \<Rightarrow> 'h \<Rightarrow> bool" where
  "keeps h h' \<longleftrightarrow> hinv h' \<and> live h' = live h"

lemma minv_handlers:
  "minv m \<Longrightarrow> list_all2 keeps (handlers m) hs \<Longrightarrow> minv (m\<lparr>handlers := hs\<rparr>)"
  by (auto simp: mgr_inv_def list_all2_conv_all_nth keeps_def index_inv_def table_inv_def
      sessions_on_def sessions_of_handler_def file_count_def handler_sessions_def sess_of_def)

lemma minv_list_all: "minv m \<Longrightarrow> list_all hinv (handlers m)"
  by (auto simp: mgr_inv_def list_all_length)

lemma keeps_refl: "hinv h \<Longrightarrow> keeps h h"
  by (simp add: keeps_def)

lemma keeps_all_refl: "list_all hinv hs \<Longrightarrow> list_all2 keeps hs hs"
  by (induction hs) (simp_all add: keeps_refl)

lemma find_handler_ok:
  "list_all hinv hs \<Longrightarrow> ok (find_handler gbi p hs)
     (\<lambda>(r, hs'). list_all2 keeps hs hs' \<and> (\<forall>i. r = Some i \<longrightarrow> i < length hs \<and> accepts (hs' ! i) p))"
proof (induction hs)
  case Nil
  then show ?case by simp
next
  case (Cons h hs)
  obtain b h' where b: "gbi_canHandleBlob gbi p h = Some (b, h')" and k: "keeps h h'"
    and a: "b \<Longrightarrow> accepts h' p"
    using canHandleBlob_law [of h p] Cons.prems by (auto simp: keeps_def elim!: ok_pairE)
  show ?case
  proof (cases b)
    case True
    then show ?thesis using b k a keeps_all_refl Cons.prems by simp
  next
    case False
    have "ok (find_handler gbi p hs)
        (\<lambda>(r, hs'). list_all2 keeps hs hs' \<and> (\<forall>i. r = Some i \<longrightarrow> i < length hs \<and> accepts (hs' ! i) p))"
      using Cons by simp
    then show ?thesis using b k False by (auto simp: wp elim!: ok_mono)
  qed
qed

lemma collect_ids_ok:
  "list_all hinv hs \<Longrightarrow> ok (collect_ids gbi hs) (\<lambda>(l, hs'). list_all2 keeps hs hs')"
proof (induction hs)
  case Nil
  then show ?case by simp
next
  case (Cons h hs)
  obtain l h' where l: "gbi_getBlobIds gbi h = Some (l, h')" and k: "keeps h h'"
    using getBlobIds_law [of h] Cons.prems by (auto simp: keeps_def elim!: ok_pairE)
  have "ok (collect_ids gbi hs) (\<lambda>(l, hs'). list_all2 keeps hs hs')"
    using Cons by simp
  then show ?case using l k by (auto simp: wp elim!: ok_mono)
qed

lemma getHandler_ok:
  assumes "minv m"
  shows "ok (getHandler gbi p m) (\<lambda>(r, m'). minv m' \<and>
     (\<exists>hs. m' = m\<lparr>handlers := hs\<rparr> \<and> length hs = length (handlers m)) \<and>
     (\<forall>i. r = Some i \<longrightarrow> i < length (handlers m) \<and> accepts (handlers m' ! i) p))"
proof -
  obtain r hs where eq: "find_handler gbi p (handlers m) = Some (r, hs)"
    and k: "list_all2 keeps (handlers m) hs"
    and a: "\<And>i. r = Some i \<Longrightarrow> i < length (handlers m) \<and> accepts (hs ! i) p"
    using find_handler_ok [OF minv_list_all [OF assms], of p] by (auto elim!: ok_pairE)
  have "length hs = length (handlers m)"
    using k by (simp add: list_all2_lengthD)
  then show ?thesis
    using eq a minv_handlers [OF assms k]
    by (auto simp: getHandler_def wp intro!: exI [where x = hs])
qed

text \<open>A call that keeps the handler's table keeps the manager's invariant.\<close>

lemma minv_upd:
  assumes "minv m" and "i < length (handlers m)" and "keeps (handlers m ! i) h'"
  shows "minv (m\<lparr>handlers := (handlers m)[i := h']\<rparr>)"
proof (rule minv_handlers)
  show "list_all2 keeps (handlers m) ((handlers m)[i := h'])"
    using assms by (auto simp: list_all2_conv_all_nth nth_list_update mgr_inv_def keeps_def)
qed fact

lemma call_ok:
  assumes m: "minv m" and i: "i < length (handlers m)"
    and f: "ok (f (handlers m ! i)) (\<lambda>(r, h'). hinv h' \<and> live h' = live (handlers m ! i) \<and> Q r)"
  shows "ok (call_handler i f m)
    (\<lambda>(r, m'). minv m' \<and> (\<exists>h'. m' = m\<lparr>handlers := (handlers m)[i := h']\<rparr>) \<and> Q r)"
proof -
  obtain r h' where "f (handlers m ! i) = Some (r, h')" and "keeps (handlers m ! i) h'" and "Q r"
    using f by (auto simp: keeps_def elim!: ok_pairE)
  then show ?thesis
    using i minv_upd [OF m i] by (auto simp: call_handler_def)
qed

lemma minv_touch: "minv m \<Longrightarrow> sessions m s = Some si \<Longrightarrow> minv (touch s si m)"
  using touch_index_inv [of m s si] touch_sess_of [of m s si]
  by (auto simp: mgr_inv_def) (auto simp: touch_def)

lemma getActionHandler_ok:
  assumes m: "minv m"
  shows "ok (getActionHandler s req m) (\<lambda>(r, m'). minv m' \<and> same_config m m'
     \<and> handlers m' = handlers m \<and> dom (sessions m') = dom (sessions m)
     \<and> (\<forall>i. r = Some i \<longrightarrow> i < length (handlers m')
          \<and> (\<exists>p f. live (handlers m' ! i) s = Some (p, f) \<and> has_flag f req)
          \<and> (\<exists>si. sessions m' s = Some si \<and> handler si = Some i)))"
proof (cases "sessions m s")
  case None
  then show ?thesis using m by (simp add: getActionHandler_None)
next
  case (Some si)
  obtain i f where si: "handler si = Some i" "i < length (handlers m)" "flags si = f"
    using table_invE [OF index_inv_table [OF mgr_inv_index [OF m]] Some] .
  have "live (handlers m ! i) s = Some (blobId si, f)"
    using mgr_inv_live [OF m si(2)] Some si by (simp add: sess_of_def)
  then show ?thesis
    using Some si m minv_touch [OF m Some]
    by (auto simp: getActionHandler_Some) (auto simp: touch_def same_config_def split: if_splits)
qed

text \<open>
  Closing or expiring a session in its handler: while the handler has dropped the session
  and the manager has not, the invariant is broken; \<open>eraseSession\<close> restores it.
\<close>

lemma erase_after_drop:
  assumes m: "minv m" and i: "i < length (handlers m)"
    and s: "sessions m s = Some si" "handler si = Some i"
    and h': "hinv h'" "live h' = (live (handlers m ! i))(s := None)"
  shows "ok (eraseSession i s (m\<lparr>handlers := (handlers m)[i := h']\<rparr>)) (\<lambda>m'. minv m' \<and> same_config m m'
     \<and> handlers m' = (handlers m)[i := h'] \<and> clock m' = clock m \<and> next_session m' = next_session m
     \<and> sessions m' = (sessions m)(s := None))"
proof -
  let ?m1 = "m\<lparr>handlers := (handlers m)[i := h']\<rparr>"
  have idx: "index_inv ?m1"
    by (rule index_inv_cong [of _ m]) (simp_all add: mgr_inv_index [OF m])
  obtain m' where eq: "eraseSession i s ?m1 = Some m'" and m': "index_inv m'" "same_config ?m1 m'"
    "handlers m' = handlers ?m1" "clock m' = clock ?m1" "next_session m' = next_session ?m1"
    "sessions m' = (sessions ?m1)(s := None)"
    using eraseSession_eq [OF idx, of s si i] s by (auto elim!: okE)
  have "sess_of m' j = (if j = i then (sess_of m i)(s := None) else sess_of m j)" for j
    using s by (auto simp: sess_of_def m'(6) fun_eq_iff)
  then have "minv m'"
    using m m'(1) h' i by (auto simp: mgr_inv_def m'(3) nth_list_update)
  then show ?thesis
    using eq m' by (simp add: same_config_def)
qed

text \<open>
  The second loop of \<open>cleanUpStaleSessions\<close>: the given sessions of one handler can go,
  all others and all other handlers are as before, and a path the handler has accepted
  stays accepted.
\<close>

lemma expire_sessions_ok:
  assumes "minv m" and "i < length (handlers m)" and "set ss \<subseteq> sessions_of_handler m i"
    and "distinct ss"
  shows "ok (expire_sessions gbi i ss m) (\<lambda>m'. minv m' \<and> same_config m m'
     \<and> clock m' = clock m \<and> next_session m' = next_session m
     \<and> (\<forall>j. j \<noteq> i \<longrightarrow> handlers m' ! j = handlers m ! j)
     \<and> (\<forall>s. sessions m' s = sessions m s \<or> (s \<in> set ss \<and> sessions m' s = None))
     \<and> (\<forall>p. accepts (handlers m ! i) p \<longrightarrow> accepts (handlers m' ! i) p))"
  using assms
proof (induction ss arbitrary: m)
  case Nil
  then show ?case by simp
next
  case (Cons s ss)
  obtain si where s: "sessions m s = Some si" "handler si = Some i"
    using Cons.prems(3) by (auto simp: sessions_of_handler_def)
  have h: "hinv (handlers m ! i)" "live (handlers m ! i) s \<noteq> None"
    using Cons.prems(1,2) s table_invE [OF index_inv_table [OF mgr_inv_index [OF Cons.prems(1)]] s(1)]
    by (auto simp: mgr_inv_def sess_of_def)
  obtain b h' where b: "gbi_expire gbi s (handlers m ! i) = Some (b, h')" "hinv h'"
    "live h' = (if b then (live (handlers m ! i))(s := None) else live (handlers m ! i))"
    and acc: "\<And>p. accepts (handlers m ! i) p \<Longrightarrow> accepts h' p"
    using expire_law [OF h] by (auto elim!: ok_pairE)
  define r where "r = report (ExpiringStaleSession s) m"
  let ?m1 = "r\<lparr>handlers := (handlers r)[i := h']\<rparr>"
  have r: "minv r" "i < length (handlers r)" "sessions r s = Some si" "same_config m r"
    "handlers r = handlers m" "sessions r = sessions m" "clock r = clock m"
    "next_session r = next_session m"
    using Cons.prems(1,2) s(1) by (simp_all add: r_def same_config_def)
  have call: "call_handler i (gbi_expire gbi s) r = Some (b, ?m1)"
    using b(1) r by (simp add: call_handler_def)
  have "ok (if b then eraseSession i s ?m1 else Some (report (FailedToExpireSession s) ?m1))
     (\<lambda>m2. minv m2 \<and> same_config m m2
     \<and> handlers m2 = (handlers m)[i := h'] \<and> clock m2 = clock m \<and> next_session m2 = next_session m
     \<and> sessions m2 = (if b then (sessions m)(s := None) else sessions m))"
    using erase_after_drop [OF r(1-3) s(2), of h'] b r minv_upd [OF r(1,2), of h']
    by (auto simp: keeps_def same_config_def r_def elim!: ok_mono)
  then obtain m2 where m2: "(if b then eraseSession i s ?m1 else Some (report (FailedToExpireSession s) ?m1)) = Some m2"
    "minv m2" "same_config m m2" "handlers m2 = (handlers m)[i := h']" "clock m2 = clock m"
    "next_session m2 = next_session m"
    "sessions m2 = (if b then (sessions m)(s := None) else sessions m)"
    by blast
  have "set ss \<subseteq> sessions_of_handler m2 i"
    using Cons.prems(3,4) by (auto simp: sessions_of_handler_def m2(7))
  then have "ok (expire_sessions gbi i ss m2) (\<lambda>m'. minv m' \<and> same_config m2 m'
     \<and> clock m' = clock m2 \<and> next_session m' = next_session m2
     \<and> (\<forall>j. j \<noteq> i \<longrightarrow> handlers m' ! j = handlers m2 ! j)
     \<and> (\<forall>s. sessions m' s = sessions m2 s \<or> (s \<in> set ss \<and> sessions m' s = None))
     \<and> (\<forall>p. accepts (handlers m2 ! i) p \<longrightarrow> accepts (handlers m' ! i) p))"
    using Cons.IH [OF m2(2)] Cons.prems(2,4) m2(4) by simp
  then show ?case
    using call m2 acc Cons.prems(2)
    by (auto simp: r_def wp elim!: ok_mono intro: same_config_trans split: if_splits)
qed

lemma minv_cong:
  assumes "minv m" and "sessions m' = sessions m" and "openFiles m' = openFiles m"
    and "openSessions m' = openSessions m" and "handlers m' = handlers m"
  shows "minv m'"
  using assms index_inv_cong [of m' m] sess_of_cong [of m' m] by (simp add: mgr_inv_def)

lemma minv_clock: "minv m \<Longrightarrow> minv (m\<lparr>clock := c\<rparr>)"
  by (rule minv_cong) simp_all

lemma cleanUpStaleSessions_ok:
  assumes m: "minv m" and i: "i < length (handlers m)"
  shows "ok (cleanUpStaleSessions gbi i m) (\<lambda>m'. minv m' \<and> same_config m m'
     \<and> next_session m' = next_session m
     \<and> (\<forall>s. sessions m' s = sessions m s \<or>
          (s \<in> sessions_of_handler m i \<and> stale (clock m 0) m s \<and> sessions m' s = None))
     \<and> (\<forall>p. accepts (handlers m ! i) p \<longrightarrow> accepts (handlers m' ! i) p))"
proof -
  let ?ss = "sorted_list_of_set {s \<in> sessions_of_handler m i. stale (clock m 0) m s}"
  let ?m1 = "m\<lparr>clock := clock m \<circ> Suc\<rparr>"
  have "set ?ss \<subseteq> sessions_of_handler ?m1 i"
    by (auto simp: sessions_of_handler_def)
  then have "ok (expire_sessions gbi i ?ss ?m1) (\<lambda>m'. minv m' \<and> same_config ?m1 m'
     \<and> clock m' = clock ?m1 \<and> next_session m' = next_session ?m1
     \<and> (\<forall>j. j \<noteq> i \<longrightarrow> handlers m' ! j = handlers ?m1 ! j)
     \<and> (\<forall>s. sessions m' s = sessions ?m1 s \<or> (s \<in> set ?ss \<and> sessions m' s = None))
     \<and> (\<forall>p. accepts (handlers ?m1 ! i) p \<longrightarrow> accepts (handlers m' ! i) p))"
    using m i by (intro expire_sessions_ok) (simp_all add: minv_clock)
  then show ?thesis
    using m by (auto simp: cleanUpStaleSessions_eq [OF mgr_inv_index [OF m]] same_config_def elim!: ok_mono)
qed

text \<open>
  After the handler has opened the session, \<open>record_session\<close> brings the manager's maps
  up to date.
\<close>

lemma record_after_open:
  assumes m: "minv m" and i: "i < length (handlers m)" and s: "sessions m s = None"
    and f: "has_flag f read_or_write"
    and h': "hinv h'" "live h' = (live (handlers m ! i))(s \<mapsto> (p, f))"
  shows "ok (record_session i s f p (m\<lparr>handlers := (handlers m)[i := h']\<rparr>)) (\<lambda>m'. minv m'
     \<and> same_config m m' \<and> sessions m' = (sessions m)(s \<mapsto>
         \<lparr>blobId = p, handler = Some i, flags = f, lastActionTime = clock m 0\<rparr>))"
proof -
  let ?m1 = "m\<lparr>handlers := (handlers m)[i := h']\<rparr>"
  have idx: "index_inv ?m1"
    by (rule index_inv_cong [of _ m]) (simp_all add: mgr_inv_index [OF m])
  obtain m' where eq: "record_session i s f p ?m1 = Some m'" and m': "index_inv m'"
    "same_config ?m1 m'" "handlers m' = handlers ?m1" "sessions m' = (sessions ?m1)(s \<mapsto>
        \<lparr>blobId = p, handler = Some i, flags = f, lastActionTime = clock ?m1 0\<rparr>)"
    using record_session_eq [OF idx, of s i f p] s i f by (auto elim!: okE)
  have "sess_of m' j = (if j = i then (sess_of m i)(s \<mapsto> (p, f)) else sess_of m j)" for j
    using s by (auto simp: sess_of_def m'(4) fun_eq_iff)
  then have "minv m'"
    using m m'(1) h' i by (auto simp: mgr_inv_def m'(3) nth_list_update)
  then show ?thesis
    using eq m' by (simp add: same_config_def)
qed

lemma open_call_ok:
  assumes m: "minv m" and i: "i < length (handlers m)" and acc: "accepts (handlers m ! i) p"
    and fresh: "sessions m s = None" and f: "has_flag f read_or_write"
  shows "ok (do { (b, m) \<leftarrow> call_handler i (gbi_open gbi s f p) m;
                  if \<not> b then Some ((False, Some s), m)
                  else do { m \<leftarrow> record_session i s f p m; Some ((True, Some s), m) } })
    (\<lambda>((b, so), m'). minv m' \<and> same_config m m' \<and> so = Some s
     \<and> sessions m' = (if b then (sessions m)(s \<mapsto>
         \<lparr>blobId = p, handler = Some i, flags = f, lastActionTime = clock m 0\<rparr>) else sessions m))"
proof -
  have lv: "live (handlers m ! i) s = None"
    using mgr_inv_live [OF m i] fresh by (simp add: sess_of_None)
  obtain b h' where b: "gbi_open gbi s f p (handlers m ! i) = Some (b, h')" "hinv h'"
    "live h' = (if b then (live (handlers m ! i))(s \<mapsto> (p, f)) else live (handlers m ! i))"
    using open_law [OF mgr_inv_hinv [OF m i] acc lv f] by (auto elim!: ok_pairE)
  let ?m1 = "m\<lparr>handlers := (handlers m)[i := h']\<rparr>"
  have call: "call_handler i (gbi_open gbi s f p) m = Some (b, ?m1)"
    using b(1) i by (simp add: call_handler_def)
  show ?thesis
  proof (cases b)
    case False
    then show ?thesis
      using call b minv_upd [OF m i, of h'] by (simp add: keeps_def same_config_def)
  next
    case True
    then have "ok (record_session i s f p ?m1) (\<lambda>m'. minv m' \<and> same_config m m'
        \<and> sessions m' = (sessions m)(s \<mapsto>
          \<lparr>blobId = p, handler = Some i, flags = f, lastActionTime = clock m 0\<rparr>))"
      using record_after_open [OF m i fresh f, of h' p] b by simp
    then show ?thesis
      using call True by (auto simp: wp elim!: ok_mono)
  qed
qed

lemma open_in_handler_ok:
  assumes m: "minv m" and i: "i < length (handlers m)" and acc: "accepts (handlers m ! i) p"
    and fresh: "sessions m s = None" and f: "has_flag f read_or_write"
  shows "ok (do { m \<leftarrow> cleanUpStaleSessions gbi i m;
                  (b, m) \<leftarrow> call_handler i (gbi_open gbi s f p) m;
                  if \<not> b then Some ((False, Some s), m)
                  else do { m \<leftarrow> record_session i s f p m; Some ((True, Some s), m) } })
    (\<lambda>((b, so), m'). minv m' \<and> same_config m m' \<and> so = Some s
     \<and> (\<forall>s'. if b \<and> s' = s
          then \<exists>t. sessions m' s =
            Some \<lparr>blobId = p, handler = Some i, flags = f, lastActionTime = t\<rparr>
          else only_expired m m' s'))"
proof -
  obtain m3 where cu: "cleanUpStaleSessions gbi i m = Some m3" and m3: "minv m3"
    "same_config m m3" "accepts (handlers m3 ! i) p" and exp: "\<forall>s. only_expired m m3 s"
    using cleanUpStaleSessions_ok [OF m i] acc by (auto simp: only_expired_def elim!: okE)
  have fresh3: "sessions m3 s = None"
    using spec [OF exp, of s] fresh by (auto simp: only_expired_def)
  have i3: "i < length (handlers m3)"
    using i m3(2) by (simp add: same_config_def)
  show ?thesis
    using cu exp open_call_ok [OF m3(1) i3 m3(3) fresh3 f]
    by (auto simp: only_expired_def elim!: ok_mono intro: same_config_trans [OF m3(2)]
        split: if_splits)
qed

lemma BlobManager_open_ok:
  assumes m: "minv m"
  shows "ok (BlobManager_open gbi f p q m) (\<lambda>((b, so), m'). minv m' \<and> same_config m m'
     \<and> (b \<longrightarrow> so \<noteq> None \<and> has_flag f read_or_write)
     \<and> (\<forall>s. so = Some s \<longrightarrow> sessions m s = None)
     \<and> (\<forall>s. if b \<and> so = Some s
          then \<exists>i t. i < length (handlers m) \<and> sessions m' s =
            Some \<lparr>blobId = p, handler = Some i, flags = f, lastActionTime = t\<rparr>
          else only_expired m m' s))"
proof -
  obtain r m1 hs where gh: "getHandler gbi p m = Some (r, m1)" and m1: "minv m1"
    "m1 = m\<lparr>handlers := hs\<rparr>" "length hs = length (handlers m)"
    and r: "\<And>i. r = Some i \<Longrightarrow> i < length (handlers m) \<and> accepts (handlers m1 ! i) p"
    using getHandler_ok [OF m, of p] by (auto elim!: ok_pairE)
  obtain so m2 n where gs: "getSession q m1 = (so, m2)" and m2: "m2 = m1\<lparr>next_session := n\<rparr>"
    using getSession_frame [of q m1] by (cases "getSession q m1") blast
  have inv2: "minv m2"
    using m1(1) by (rule minv_cong) (simp_all add: m2)
  show ?thesis
  proof (cases "\<exists>i s. r = Some i \<and> so = Some s \<and> has_flag f read_or_write")
    case False
    then show ?thesis
      using gh gs m1 inv2 getSession_fresh [of q m1 _ m2]
      by (auto simp: BlobManager_open_def same_config_def only_expired_def m2 split: option.splits)
  next
    case True
    then obtain i s where c: "r = Some i" "so = Some s" and f: "has_flag f read_or_write"
      by blast
    have fresh: "sessions m s = None"
      using getSession_fresh [of q m1 s m2] gs c m1 by simp
    have "only_expired m2 m' s' = only_expired m m' s'" for m' s'
      using stale_cong [of m2 s' m] by (simp add: only_expired_def m2 m1(2))
    then show ?thesis
      using open_in_handler_ok [OF inv2, of i p s f] r [OF c(1)] c f gh gs fresh m1(3)
      by (auto simp: BlobManager_open_def m2 m1(2) same_config_def elim!: ok_mono split: if_splits)
  qed
qed

text \<open>The operations that look a session up and call its handler, all of one shape.\<close>

lemma session_call_ok:
  assumes m: "minv m"
    and f: "\<And>h p fl. hinv h \<Longrightarrow> live h s = Some (p, fl) \<Longrightarrow> has_flag fl req \<Longrightarrow>
      ok (f h) (\<lambda>(r, h'). hinv h' \<and> live h' = live h \<and> Q r)"
    and d: "Q d"
  shows "ok (do { (found, m) \<leftarrow> getActionHandler s req m;
                  case found of None \<Rightarrow> Some (d, m) | Some hp \<Rightarrow> call_handler hp f m })
    (\<lambda>(r, m'). minv m' \<and> same_config m m' \<and> dom (sessions m') = dom (sessions m) \<and> Q r)"
proof -
  obtain r m1 where ga: "getActionHandler s req m = Some (r, m1)" and m1: "minv m1"
    "same_config m m1" "dom (sessions m1) = dom (sessions m)"
    and r: "\<And>i. r = Some i \<Longrightarrow> i < length (handlers m1)
       \<and> (\<exists>p fl. live (handlers m1 ! i) s = Some (p, fl) \<and> has_flag fl req)"
    using getActionHandler_ok [OF m, of s req] by (auto elim!: ok_pairE)
  show ?thesis
  proof (cases r)
    case None
    then show ?thesis using ga m1 d by simp
  next
    case (Some i)
    then have "ok (call_handler i f m1) (\<lambda>(r, m'). minv m' \<and>
        (\<exists>h'. m' = m1\<lparr>handlers := (handlers m1)[i := h']\<rparr>) \<and> Q r)"
      using r [OF Some] f mgr_inv_hinv [OF m1(1)] by (intro call_ok m1) auto
    then show ?thesis
      using ga Some m1 by simp (erule ok_mono, clarsimp simp: same_config_def)
  qed
qed

lemma any_flag_ok: "live h s = Some (p, fl) \<Longrightarrow> live h s \<noteq> None"
  by simp

lemma BlobManager_commit_ok:
  "minv m \<Longrightarrow> ok (BlobManager_commit gbi s d m) (\<lambda>(r, m'). minv m' \<and> same_config m m'
     \<and> dom (sessions m') = dom (sessions m))"
  using session_call_ok [where f = "gbi_commit gbi s d" and Q = "\<lambda>_. True" and d = False] commit_law
  by (simp add: BlobManager_commit_def)

lemma BlobManager_read_ok:
  "minv m \<Longrightarrow> ok (BlobManager_read gbi s off n m) (\<lambda>(r, m'). minv m' \<and> same_config m m'
     \<and> dom (sessions m') = dom (sessions m))"
  using session_call_ok [where f = "gbi_read gbi s off n" and Q = "\<lambda>_. True" and d = "[]"] read_law
  by (simp add: BlobManager_read_def)

lemma BlobManager_write_ok:
  "minv m \<Longrightarrow> ok (BlobManager_write gbi s off d m) (\<lambda>(r, m'). minv m' \<and> same_config m m'
     \<and> dom (sessions m') = dom (sessions m))"
  using session_call_ok [where f = "gbi_write gbi s off d" and Q = "\<lambda>_. True" and d = False] write_law
  by (simp add: BlobManager_write_def)

lemma BlobManager_writeMeta_ok:
  "minv m \<Longrightarrow> ok (BlobManager_writeMeta gbi s off d m) (\<lambda>(r, m'). minv m' \<and> same_config m m'
     \<and> dom (sessions m') = dom (sessions m))"
  using session_call_ok [where f = "gbi_writeMeta gbi s off d" and Q = "\<lambda>_. True" and d = False]
    writeMeta_law
  by (simp add: BlobManager_writeMeta_def)

lemma BlobManager_stat_ok:
  "minv m \<Longrightarrow> ok (BlobManager_stat gbi s mt m) (\<lambda>((b, mt'), m'). minv m' \<and> same_config m m'
     \<and> dom (sessions m') = dom (sessions m) \<and> (b \<longrightarrow> meta_defined mt'))"
  using session_call_ok [where f = "gbi_stat gbi s mt" and d = "(False, mt)"
      and Q = "\<lambda>(b, mt'). b \<longrightarrow> meta_defined mt'"] stat_law
  by (simp add: BlobManager_stat_def split_def)

text \<open>The path operations.\<close>

lemma minv_openFiles_zero:
  assumes "minv m"
  shows "minv (m\<lparr>openFiles := (openFiles m)(p \<mapsto> file_count m p)\<rparr>)"
proof -
  define m' where "m' = m\<lparr>openFiles := (openFiles m)(p \<mapsto> file_count m p)\<rparr>"
  have "file_count m' q = file_count m q" for q
    by (simp add: m'_def) (simp add: file_count_def)
  moreover have "table_inv m' = table_inv m" "sessions_on m' = sessions_on m"
    "sessions_of_handler m' = sessions_of_handler m" "handler_sessions m' = handler_sessions m"
    "sess_of m' = sess_of m" "handlers m' = handlers m"
    by (simp_all add: m'_def table_inv_def sessions_on_def sessions_of_handler_def sess_of_def
        handler_sessions_def fun_eq_iff)
  ultimately have "minv m'"
    using assms by (simp add: mgr_inv_def index_inv_def)
  then show ?thesis
    by (simp only: m'_def)
qed

lemma BlobManager_statPath_ok:
  assumes m: "minv m"
  shows "ok (BlobManager_statPath gbi p mt m) (\<lambda>((b, mt'), m'). minv m' \<and> same_config m m'
     \<and> sessions m' = sessions m \<and> (b \<longrightarrow> meta_defined mt'))"
proof -
  obtain r m1 hs where gh: "getHandler gbi p m = Some (r, m1)" and m1: "minv m1"
    "m1 = m\<lparr>handlers := hs\<rparr>" "length hs = length (handlers m)"
    and r: "\<And>i. r = Some i \<Longrightarrow> i < length (handlers m) \<and> accepts (handlers m1 ! i) p"
    using getHandler_ok [OF m, of p] by (auto elim!: ok_pairE)
  show ?thesis
  proof (cases r)
    case None
    then show ?thesis using gh m1 by (simp add: BlobManager_statPath_def same_config_def)
  next
    case (Some i)
    have i: "i < length (handlers m1)"
      using r [OF Some] m1 by simp
    have "ok (call_handler i (gbi_statPath gbi p mt) m1) (\<lambda>(r, m'). minv m' \<and>
        (\<exists>h'. m' = m1\<lparr>handlers := (handlers m1)[i := h']\<rparr>) \<and> (fst r \<longrightarrow> meta_defined (snd r)))"
      using statPath_law [OF mgr_inv_hinv [OF m1(1) i], of p mt] r [OF Some]
      by (intro call_ok m1(1) i) (auto elim!: ok_mono)
    then show ?thesis
      using gh Some m1 by (auto simp: BlobManager_statPath_def wp same_config_def elim!: ok_mono)
  qed
qed

text \<open>No call of \<open>deleteBlob\<close> reaches a handler with an open session on the path.\<close>

lemma BlobManager_deleteBlob_ok:
  assumes m: "minv m"
  shows "ok (BlobManager_deleteBlob gbi p m) (\<lambda>(b, m'). minv m' \<and> same_config m m'
     \<and> sessions m' = sessions m \<and> (b \<longrightarrow> sessions_on m p = {}))"
proof -
  obtain r m1 hs where gh: "getHandler gbi p m = Some (r, m1)" and m1: "minv m1"
    "m1 = m\<lparr>handlers := hs\<rparr>" "length hs = length (handlers m)"
    and r: "\<And>i. r = Some i \<Longrightarrow> i < length (handlers m) \<and> accepts (handlers m1 ! i) p"
    using getHandler_ok [OF m, of p] by (auto elim!: ok_pairE)
  let ?m2 = "m1\<lparr>openFiles := (openFiles m1)(p \<mapsto> file_count m1 p)\<rparr>"
  have inv2: "minv ?m2"
    by (rule minv_openFiles_zero [OF m1(1)])
  have count: "file_count m1 p = int (card (sessions_on m p))"
    using mgr_inv_index [OF m1(1)] by (simp add: index_inv_def) (simp add: m1(2) sessions_on_def)
  show ?thesis
  proof (cases "\<exists>i. r = Some i \<and> file_count m1 p \<le> 0")
    case False
    then show ?thesis
      using gh m1 inv2
      by (auto simp: BlobManager_deleteBlob_def same_config_def Let_def split: option.splits)
  next
    case True
    then obtain i where c: "r = Some i" and empty: "sessions_on m p = {}" and z: "file_count m1 p = 0"
      by (auto simp: count)
    have i: "i < length (handlers ?m2)"
      using r [OF c] m1 by simp
    have "live (handlers ?m2 ! i) s \<noteq> Some (p, f)" for s f
      using mgr_inv_live [OF inv2 i] empty
      by (simp add: sess_of_Some) (auto simp: m1(2) sessions_on_def)
    then have "ok (call_handler i (gbi_deleteBlob gbi p) ?m2) (\<lambda>(r, m'). minv m' \<and>
        (\<exists>h'. m' = ?m2\<lparr>handlers := (handlers ?m2)[i := h']\<rparr>) \<and> True)"
      using deleteBlob_law [OF mgr_inv_hinv [OF inv2 i], of p] r [OF c]
      by (intro call_ok inv2 i) auto
    then show ?thesis
      using gh c m1 empty z
      by (auto simp: BlobManager_deleteBlob_def wp same_config_def Let_def elim!: ok_mono)
  qed
qed

lemma BlobManager_close_ok:
  assumes m: "minv m"
  shows "ok (BlobManager_close gbi s m) (\<lambda>(b, m'). minv m' \<and> same_config m m'
     \<and> dom (sessions m') = (if b then dom (sessions m) - {s} else dom (sessions m))
     \<and> (b \<longrightarrow> s \<in> dom (sessions m)))"
proof -
  obtain r m1 where ga: "getActionHandler s any_flags m = Some (r, m1)" and m1: "minv m1"
    "same_config m m1" "dom (sessions m1) = dom (sessions m)"
    and r: "\<And>i. r = Some i \<Longrightarrow> i < length (handlers m1)
       \<and> (\<exists>p fl. live (handlers m1 ! i) s = Some (p, fl) \<and> has_flag fl any_flags)
       \<and> (\<exists>si. sessions m1 s = Some si \<and> handler si = Some i)"
    using getActionHandler_ok [OF m, of s any_flags] by (auto elim!: ok_pairE)
  show ?thesis
  proof (cases r)
    case None
    then show ?thesis using ga m1 by (simp add: BlobManager_close_def)
  next
    case (Some i)
    obtain si where i: "i < length (handlers m1)" and si: "sessions m1 s = Some si" "handler si = Some i"
      and lv: "live (handlers m1 ! i) s \<noteq> None"
      using r [OF Some] by auto
    obtain b h' where b: "gbi_close gbi s (handlers m1 ! i) = Some (b, h')" "hinv h'"
      "live h' = (if b then (live (handlers m1 ! i))(s := None) else live (handlers m1 ! i))"
      using close_law [OF mgr_inv_hinv [OF m1(1) i] lv] by (auto elim!: ok_pairE)
    let ?m2 = "m1\<lparr>handlers := (handlers m1)[i := h']\<rparr>"
    have eq: "BlobManager_close gbi s m = (if \<not> b then Some (False, ?m2)
        else do { m' \<leftarrow> eraseSession i s ?m2; Some (True, m') })"
      using ga Some b(1) i by (simp add: BlobManager_close_def call_handler_def)
    show ?thesis
    proof (cases b)
      case False
      then show ?thesis
        using eq b minv_upd [OF m1(1) i, of h'] m1 by (simp add: keeps_def same_config_def)
    next
      case True
      have "s \<in> dom (sessions m)"
        using si m1(3) by blast
      moreover have "ok (eraseSession i s ?m2) (\<lambda>m'. minv m' \<and> same_config m1 m'
          \<and> sessions m' = (sessions m1)(s := None))"
        using erase_after_drop [OF m1(1) i si, of h'] b True by (auto elim!: ok_mono)
      ultimately show ?thesis
        using eq True m1 by (simp add: wp) (erule ok_mono, auto intro: same_config_trans)
    qed
  qed
qed

text \<open>Registration and enumeration.\<close>

lemma registerHandler_inv:
  assumes m: "minv m" and h: "hinv h" "live h = Map.empty"
  shows "minv (m\<lparr>handlers := handlers m @ [h]\<rparr>)"
proof -
  have "index_inv (m\<lparr>handlers := handlers m @ [h]\<rparr>)"
    by (rule index_inv_cong [of _ m]) (simp_all add: mgr_inv_index [OF m])
  moreover have "sess_of m (length (handlers m)) = Map.empty"
    using index_inv_table [OF mgr_inv_index [OF m]]
    by (force simp: sess_of_def table_inv_def fun_eq_iff split: option.splits)
  ultimately show ?thesis
    using m h by (auto simp: mgr_inv_def nth_append sess_of_def less_Suc_eq fun_eq_iff)
qed

lemma buildBlobList_ok:
  assumes m: "minv m"
  shows "ok (buildBlobList gbi m) (\<lambda>(n, m'). minv m' \<and> sessions m' = sessions m)"
proof -
  obtain l hs where eq: "collect_ids gbi (handlers m) = Some (l, hs)"
    and k: "list_all2 keeps (handlers m) hs"
    using collect_ids_ok [OF minv_list_all [OF m]] by (auto elim!: ok_pairE)
  have "minv (m\<lparr>ids := l, handlers := hs\<rparr>)"
    using minv_handlers [OF m k] by (rule minv_cong) simp_all
  then show ?thesis
    using eq by (simp add: buildBlobList_def)
qed

end

text \<open>The contract of the handlers gives the contract of the manager.\<close>

sublocale blob_handler \<subseteq> blob_manager: manager_interface
  "BlobManager_methods gbi" "mgr_inv hinv live" "\<lambda>h. hinv h \<and> live h = Map.empty"
proof unfold_locales
  fix m ho
  assume "minv m" and "\<And>h. ho = Some h \<Longrightarrow> hinv h \<and> live h = Map.empty"
  then show "ok (mi_registerHandler (BlobManager_methods gbi) ho m)
      (\<lambda>(b, m'). minv m' \<and> (b \<longleftrightarrow> ho \<noteq> None))"
    by (auto simp: registerHandler_def registerHandler_inv split: option.split)
qed (auto intro: ok_mono [OF BlobManager_open_ok] ok_mono [OF BlobManager_statPath_ok]
    ok_mono [OF BlobManager_stat_ok] ok_mono [OF BlobManager_commit_ok]
    ok_mono [OF BlobManager_close_ok] ok_mono [OF BlobManager_read_ok]
    ok_mono [OF BlobManager_write_ok] ok_mono [OF BlobManager_deleteBlob_ok]
    ok_mono [OF BlobManager_writeMeta_ok] ok_mono [OF buildBlobList_ok])

end
