(* ===== verification/Ipmi.thy ===== *)
theory Ipmi
  imports Manager_Iface
begin

unbundle bit_operations_syntax

text \<open>
  The IPMI command handlers, \<^verbatim>\<open>ipmi.hpp\<close> and \<^verbatim>\<open>ipmi.cpp\<close>.

  \<^item> The packed request and reply structs are records; \<open>read_\<dots>\<close> is the \<open>memcpy\<close> of
    \<open>sizeof\<close> bytes out of the request, \<open>bytes_of_\<dots>\<close> the \<open>memcpy\<close> into the reply. The
    host is little-endian, as the protocol is. Reading past the end of the request is
    undefined behaviour (\<open>None\<close>), for a \<open>reinterpret_cast\<close>ed request at the moment the
    member is read.
  \<^item> \<open>ipmi::RspType\<close> is a completion code with an optional payload. The response
    functions of the IPMI library are named after their completion codes.
  \<^item> Every handler is a function of the manager interface, the request, and the manager's
    state.
\<close>

section \<open>Responses\<close>

datatype completion_code =
    ccSuccess | ccReqDataLenInvalid | ccUnspecifiedError | ccInvalidFieldRequest
  | ccResponseError | ccOther byte

type_synonym resp = "completion_code \<times> bytes option"

abbreviation responseSuccess :: "bytes \<Rightarrow> resp" where
  "responseSuccess b \<equiv> (ccSuccess, Some b)"

abbreviation responseReqDataLenInvalid :: resp where
  "responseReqDataLenInvalid \<equiv> (ccReqDataLenInvalid, None)"

abbreviation responseUnspecifiedError :: resp where
  "responseUnspecifiedError \<equiv> (ccUnspecifiedError, None)"

abbreviation responseInvalidFieldRequest :: resp where
  "responseInvalidFieldRequest \<equiv> (ccInvalidFieldRequest, None)"

abbreviation responseResponseError :: resp where
  "responseResponseError \<equiv> (ccResponseError, None)"

type_synonym ('h, 'm) IpmiBlobHandler =
  "('h, 'm) ManagerInterface \<Rightarrow> bytes \<Rightarrow> 'm \<Rightarrow> (resp \<times> 'm) option"

section \<open>Packed structs\<close>

record BmcBlobCountRx =
  countRx_crc :: u16
  countRx_blobCount :: u32

definition bytes_of_BmcBlobCountRx :: "BmcBlobCountRx \<Rightarrow> bytes" where
  "bytes_of_BmcBlobCountRx r = le16 (countRx_crc r) @ le32 (countRx_blobCount r)"

record BmcBlobEnumerateTx =
  enumerateTx_crc :: u16
  enumerateTx_blobIdx :: u32

definition read_BmcBlobEnumerateTx :: "bytes \<Rightarrow> BmcBlobEnumerateTx option" where
  "read_BmcBlobEnumerateTx d = do { c \<leftarrow> rd16 d 0; i \<leftarrow> rd32 d 2;
     Some \<lparr>enumerateTx_crc = c, enumerateTx_blobIdx = i\<rparr> }"

record BmcBlobOpenRx =
  openRx_crc :: u16
  openRx_sessionId :: u16

definition bytes_of_BmcBlobOpenRx :: "BmcBlobOpenRx \<Rightarrow> bytes" where
  "bytes_of_BmcBlobOpenRx r = le16 (openRx_crc r) @ le16 (openRx_sessionId r)"

record BmcBlobCloseTx =
  closeTx_crc :: u16
  closeTx_sessionId :: u16

definition read_BmcBlobCloseTx :: "bytes \<Rightarrow> BmcBlobCloseTx option" where
  "read_BmcBlobCloseTx d = do { c \<leftarrow> rd16 d 0; s \<leftarrow> rd16 d 2;
     Some \<lparr>closeTx_crc = c, closeTx_sessionId = s\<rparr> }"

record BmcBlobStatRx =
  statRx_crc :: u16
  statRx_blobState :: u16
  statRx_size :: u32
  statRx_metadataLen :: byte

definition bytes_of_BmcBlobStatRx :: "BmcBlobStatRx \<Rightarrow> bytes" where
  "bytes_of_BmcBlobStatRx r = le16 (statRx_crc r) @ le16 (statRx_blobState r)
     @ le32 (statRx_size r) @ [statRx_metadataLen r]"

record BmcBlobSessionStatTx =
  sessionStatTx_crc :: u16
  sessionStatTx_sessionId :: u16

definition read_BmcBlobSessionStatTx :: "bytes \<Rightarrow> BmcBlobSessionStatTx option" where
  "read_BmcBlobSessionStatTx d = do { c \<leftarrow> rd16 d 0; s \<leftarrow> rd16 d 2;
     Some \<lparr>sessionStatTx_crc = c, sessionStatTx_sessionId = s\<rparr> }"

record BmcBlobReadTx =
  readTx_crc :: u16
  readTx_sessionId :: u16
  readTx_offset :: u32
  readTx_requestedSize :: u32

definition read_BmcBlobReadTx :: "bytes \<Rightarrow> BmcBlobReadTx option" where
  "read_BmcBlobReadTx d = do { c \<leftarrow> rd16 d 0; s \<leftarrow> rd16 d 2; off \<leftarrow> rd32 d 4; n \<leftarrow> rd32 d 8;
     Some \<lparr>readTx_crc = c, readTx_sessionId = s, readTx_offset = off,
       readTx_requestedSize = n\<rparr> }"

record BmcBlobWriteMetaTx =
  writeMetaTx_crc :: u16
  writeMetaTx_sessionId :: u16
  writeMetaTx_offset :: u32

definition read_BmcBlobWriteMetaTx :: "bytes \<Rightarrow> BmcBlobWriteMetaTx option" where
  "read_BmcBlobWriteMetaTx d = do { c \<leftarrow> rd16 d 0; s \<leftarrow> rd16 d 2; off \<leftarrow> rd32 d 4;
     Some \<lparr>writeMetaTx_crc = c, writeMetaTx_sessionId = s, writeMetaTx_offset = off\<rparr> }"

text \<open>The sizes of the structs.\<close>

definition sizeof_BmcBlobCountRx :: nat where "sizeof_BmcBlobCountRx = 6"

definition sizeof_BmcBlobEnumerateTx :: nat where "sizeof_BmcBlobEnumerateTx = 6"

definition sizeof_BmcBlobEnumerateRx :: nat where "sizeof_BmcBlobEnumerateRx = 2"

definition sizeof_BmcBlobOpenTx :: nat where "sizeof_BmcBlobOpenTx = 4"

definition sizeof_BmcBlobOpenRx :: nat where "sizeof_BmcBlobOpenRx = 4"

definition sizeof_BmcBlobCloseTx :: nat where "sizeof_BmcBlobCloseTx = 4"

definition sizeof_BmcBlobDeleteTx :: nat where "sizeof_BmcBlobDeleteTx = 2"

definition sizeof_BmcBlobStatTx :: nat where "sizeof_BmcBlobStatTx = 2"

definition sizeof_BmcBlobStatRx :: nat where "sizeof_BmcBlobStatRx = 9"

definition sizeof_BmcBlobSessionStatTx :: nat where "sizeof_BmcBlobSessionStatTx = 4"

definition sizeof_BmcBlobCommitTx :: nat where "sizeof_BmcBlobCommitTx = 5"

definition sizeof_BmcBlobReadTx :: nat where "sizeof_BmcBlobReadTx = 12"

definition sizeof_BmcBlobReadRx :: nat where "sizeof_BmcBlobReadRx = 2"

definition sizeof_BmcBlobWriteTx :: nat where "sizeof_BmcBlobWriteTx = 8"

definition sizeof_BmcBlobWriteMetaTx :: nat where "sizeof_BmcBlobWriteMetaTx = 8"

lemmas sizeof_defs = sizeof_BmcBlobCountRx_def sizeof_BmcBlobEnumerateTx_def
  sizeof_BmcBlobEnumerateRx_def sizeof_BmcBlobOpenTx_def sizeof_BmcBlobOpenRx_def
  sizeof_BmcBlobCloseTx_def sizeof_BmcBlobDeleteTx_def sizeof_BmcBlobStatTx_def
  sizeof_BmcBlobStatRx_def sizeof_BmcBlobSessionStatTx_def sizeof_BmcBlobCommitTx_def
  sizeof_BmcBlobReadTx_def sizeof_BmcBlobReadRx_def sizeof_BmcBlobWriteTx_def
  sizeof_BmcBlobWriteMetaTx_def

section \<open>Validation and strings\<close>

definition kMinStrLen :: nat where
  "kMinStrLen = 2"

fun minimumLengths :: "BlobOEMCommands \<Rightarrow> nat option" where
  "minimumLengths bmcBlobEnumerate = Some sizeof_BmcBlobEnumerateTx"
| "minimumLengths bmcBlobOpen = Some (sizeof_BmcBlobOpenTx + kMinStrLen)"
| "minimumLengths bmcBlobClose = Some sizeof_BmcBlobCloseTx"
| "minimumLengths bmcBlobDelete = Some (sizeof_BmcBlobDeleteTx + kMinStrLen)"
| "minimumLengths bmcBlobStat = Some (sizeof_BmcBlobStatTx + kMinStrLen)"
| "minimumLengths bmcBlobSessionStat = Some sizeof_BmcBlobSessionStatTx"
| "minimumLengths bmcBlobCommit = Some sizeof_BmcBlobCommitTx"
| "minimumLengths bmcBlobRead = Some sizeof_BmcBlobReadTx"
| "minimumLengths bmcBlobWrite = Some (sizeof_BmcBlobWriteTx + 1)"
| "minimumLengths bmcBlobWriteMeta = Some (sizeof_BmcBlobWriteMetaTx + 1)"
| "minimumLengths _ = None"

definition validateRequestLength :: "BlobOEMCommands \<Rightarrow> nat \<Rightarrow> bool" where
  "validateRequestLength command requestLen = (case minimumLengths command of
       None \<Rightarrow> True
     | Some n \<Rightarrow> \<not> requestLen < n)"

definition stringFromBuffer :: "bytes \<Rightarrow> string" where
  "stringFromBuffer d = (if d = [] \<or> last d \<noteq> 0 then [] else map char_of_byte (butlast d))"

text \<open>The bytes from \<open>c_str()\<close> to \<open>c_str() + length() + 1\<close>.\<close>

definition c_str_bytes :: "string \<Rightarrow> bytes" where
  "c_str_bytes p = map byte_of_char p @ [0]"

lemma length_c_str_bytes [simp]: "length (c_str_bytes p) = length p + 1"
  by (simp add: c_str_bytes_def)

lemma stringFromBuffer_c_str [simp]: "stringFromBuffer (c_str_bytes p) = p"
  by (simp add: stringFromBuffer_def c_str_bytes_def comp_def)

lemma stringFromBuffer_nonempty:
  "stringFromBuffer d = p \<Longrightarrow> p \<noteq> [] \<Longrightarrow> d = c_str_bytes p"
  by (auto simp: stringFromBuffer_def c_str_bytes_def comp_def split: if_splits)
     (metis append_butlast_last_id)

section \<open>The command handlers\<close>

definition getBlobCount :: "('h, 'm) IpmiBlobHandler" where
  "getBlobCount mgr d m =
     do { (n, m) \<leftarrow> mi_buildBlobList mgr m;
          Some (responseSuccess (bytes_of_BmcBlobCountRx
            \<lparr>countRx_crc = 0, countRx_blobCount = n\<rparr>), m) }"

definition enumerateBlob :: "('h, 'm) IpmiBlobHandler" where
  "enumerateBlob mgr d m =
     do { request \<leftarrow> read_BmcBlobEnumerateTx d;
          (blobId, m) \<leftarrow> mi_getBlobId mgr (enumerateTx_blobIdx request) m;
          if blobId = [] then Some (responseInvalidFieldRequest, m)
          else Some (responseSuccess
            (replicate sizeof_BmcBlobEnumerateRx 0 @ c_str_bytes blobId), m) }"

definition openBlob :: "('h, 'm) IpmiBlobHandler" where
  "openBlob mgr d m =
     do { rest \<leftarrow> subspan d sizeof_BmcBlobOpenTx;
          let path = stringFromBuffer rest;
          if path = [] then Some (responseReqDataLenInvalid, m)
          else do { fl \<leftarrow> rd16 d 2;
                    ((b, session), m) \<leftarrow> mi_open mgr fl path out_param m;
                    if \<not> b then Some (responseUnspecifiedError, m)
                    else do { s \<leftarrow> session;
                              Some (responseSuccess (bytes_of_BmcBlobOpenRx
                                \<lparr>openRx_crc = 0, openRx_sessionId = s\<rparr>), m) } } }"

definition closeBlob :: "('h, 'm) IpmiBlobHandler" where
  "closeBlob mgr d m =
     (if length d < sizeof_BmcBlobCloseTx then Some (responseReqDataLenInvalid, m)
      else do { request \<leftarrow> read_BmcBlobCloseTx d;
                (b, m) \<leftarrow> mi_close mgr (closeTx_sessionId request) m;
                if \<not> b then Some (responseUnspecifiedError, m)
                else Some (responseSuccess [], m) })"

definition deleteBlob :: "('h, 'm) IpmiBlobHandler" where
  "deleteBlob mgr d m =
     do { rest \<leftarrow> subspan d sizeof_BmcBlobDeleteTx;
          let path = stringFromBuffer rest;
          if path = [] then Some (responseReqDataLenInvalid, m)
          else do { (b, m) \<leftarrow> mi_deleteBlob mgr path m;
                    if \<not> b then Some (responseUnspecifiedError, m)
                    else Some (responseSuccess [], m) } }"

definition returnStatBlob :: "BlobMeta \<Rightarrow> resp option" where
  "returnStatBlob mt =
     do { st \<leftarrow> blobState mt;
          sz \<leftarrow> blobSize mt;
          Some (responseSuccess (bytes_of_BmcBlobStatRx
            \<lparr>statRx_crc = 0, statRx_blobState = st, statRx_size = sz,
             statRx_metadataLen = word_of_nat (length (metadata mt))\<rparr> @ metadata mt)) }"

definition statBlob :: "('h, 'm) IpmiBlobHandler" where
  "statBlob mgr d m =
     do { rest \<leftarrow> subspan d sizeof_BmcBlobStatTx;
          let path = stringFromBuffer rest;
          if path = [] then Some (responseReqDataLenInvalid, m)
          else do { ((b, mt), m) \<leftarrow> mi_statPath mgr path uninit_meta m;
                    if \<not> b then Some (responseUnspecifiedError, m)
                    else do { r \<leftarrow> returnStatBlob mt; Some (r, m) } } }"

definition sessionStatBlob :: "('h, 'm) IpmiBlobHandler" where
  "sessionStatBlob mgr d m =
     (if length d < sizeof_BmcBlobSessionStatTx then Some (responseReqDataLenInvalid, m)
      else do { request \<leftarrow> read_BmcBlobSessionStatTx d;
                ((b, mt), m) \<leftarrow> mi_stat mgr (sessionStatTx_sessionId request) uninit_meta m;
                if \<not> b then Some (responseUnspecifiedError, m)
                else do { r \<leftarrow> returnStatBlob mt; Some (r, m) } })"

text \<open>
  \<open>commitBlob\<close>. The subtraction \<open>data.size() - sizeof(struct BmcBlobCommitTx)\<close> is of
  unsigned 64-bit values; it comes after the read of the fifth byte, so it does not wrap.
\<close>

definition commitBlob :: "('h, 'm) IpmiBlobHandler" where
  "commitBlob mgr d m =
     do { commitDataLen \<leftarrow> rd8 d 4;
          if unat commitDataLen > length d - sizeof_BmcBlobCommitTx
          then Some (responseReqDataLenInvalid, m)
          else do { body \<leftarrow> subspan_n d sizeof_BmcBlobCommitTx (unat commitDataLen);
                    s \<leftarrow> rd16 d 2;
                    (b, m) \<leftarrow> mi_commit mgr s body m;
                    if \<not> b then Some (responseUnspecifiedError, m)
                    else Some (responseSuccess [], m) } }"

definition readBlob :: "('h, 'm) IpmiBlobHandler" where
  "readBlob mgr d m =
     (if length d < sizeof_BmcBlobReadTx then Some (responseReqDataLenInvalid, m)
      else do { request \<leftarrow> read_BmcBlobReadTx d;
                (result, m) \<leftarrow> mi_read mgr (readTx_sessionId request) (readTx_offset request)
                  (readTx_requestedSize request) m;
                Some (responseSuccess (replicate sizeof_BmcBlobReadRx 0 @ result), m) })"

definition writeBlob :: "('h, 'm) IpmiBlobHandler" where
  "writeBlob mgr d m =
     do { body \<leftarrow> subspan d sizeof_BmcBlobWriteTx;
          s \<leftarrow> rd16 d 2;
          off \<leftarrow> rd32 d 4;
          (b, m) \<leftarrow> mi_write mgr s off body m;
          if \<not> b then Some (responseUnspecifiedError, m)
          else Some (responseSuccess [], m) }"

definition writeMeta :: "('h, 'm) IpmiBlobHandler" where
  "writeMeta mgr d m =
     (if length d < sizeof_BmcBlobWriteMetaTx then Some (responseReqDataLenInvalid, m)
      else do { request \<leftarrow> read_BmcBlobWriteMetaTx d;
                body \<leftarrow> subspan d sizeof_BmcBlobWriteMetaTx;
                (b, m) \<leftarrow> mi_writeMeta mgr (writeMetaTx_sessionId request)
                  (writeMetaTx_offset request) body m;
                if \<not> b then Some (responseUnspecifiedError, m)
                else Some (responseSuccess [], m) })"

section \<open>Safety of the handlers\<close>

text \<open>A reply carries a payload exactly when it reports success.\<close>

definition wf_resp :: "resp \<Rightarrow> bool" where
  "wf_resp r \<longleftrightarrow> (fst r = ccSuccess \<longleftrightarrow> snd r \<noteq> None)"

lemma wf_resp_pair [simp]: "wf_resp (cc, p) \<longleftrightarrow> (cc = ccSuccess \<longleftrightarrow> p \<noteq> None)"
  by (simp add: wf_resp_def)

lemma ok_returnStatBlob:
  "meta_defined mt \<Longrightarrow> ok (returnStatBlob mt) wf_resp"
  by (auto simp: returnStatBlob_def meta_defined_def wf_resp_def)

lemmas read_defs = read_BmcBlobEnumerateTx_def read_BmcBlobCloseTx_def
  read_BmcBlobSessionStatTx_def read_BmcBlobReadTx_def read_BmcBlobWriteMetaTx_def

context manager_interface
begin

text \<open>
  Each handler, on a request of at least the given length, reads inside the request only,
  returns a well-formed reply and keeps the manager's invariant.
\<close>

abbreviation safe :: "(resp \<times> 'm) option \<Rightarrow> bool" where
  "safe x \<equiv> ok x (\<lambda>(r, m'). minv m' \<and> wf_resp r)"

lemma getBlobCount_safe: "minv m \<Longrightarrow> safe (getBlobCount mgr d m)"
  using buildBlobList_law [of m]
  by (auto simp: getBlobCount_def wp wf_resp_def elim!: ok_mono)

lemma enumerateBlob_safe: "minv m \<Longrightarrow> 6 \<le> length d \<Longrightarrow> safe (enumerateBlob mgr d m)"
  by (auto simp: enumerateBlob_def read_defs wp wf_resp_def intro!: ok_mono [OF getBlobId_law])

lemma openBlob_safe: "minv m \<Longrightarrow> 4 \<le> length d \<Longrightarrow> safe (openBlob mgr d m)"
  by (auto simp: openBlob_def sizeof_defs wp wf_resp_def Let_def intro!: ok_mono [OF open_law])

lemma closeBlob_safe: "minv m \<Longrightarrow> safe (closeBlob mgr d m)"
  by (auto simp: closeBlob_def sizeof_defs read_defs wp wf_resp_def intro!: ok_mono [OF close_law])

lemma deleteBlob_safe: "minv m \<Longrightarrow> 2 \<le> length d \<Longrightarrow> safe (deleteBlob mgr d m)"
  by (auto simp: deleteBlob_def sizeof_defs wp wf_resp_def Let_def intro!: ok_mono [OF deleteBlob_law])

lemma statBlob_safe: "minv m \<Longrightarrow> 2 \<le> length d \<Longrightarrow> safe (statBlob mgr d m)"
  by (auto simp: statBlob_def sizeof_defs wp wf_resp_def Let_def
      intro!: ok_mono [OF statPath_law] ok_mono [OF ok_returnStatBlob])

lemma sessionStatBlob_safe: "minv m \<Longrightarrow> safe (sessionStatBlob mgr d m)"
  by (auto simp: sessionStatBlob_def sizeof_defs read_defs wp wf_resp_def
      intro!: ok_mono [OF stat_law] ok_mono [OF ok_returnStatBlob])

lemma commitBlob_safe: "minv m \<Longrightarrow> 5 \<le> length d \<Longrightarrow> safe (commitBlob mgr d m)"
  by (auto simp: commitBlob_def sizeof_defs wp wf_resp_def intro!: ok_mono [OF commit_law])

lemma readBlob_safe: "minv m \<Longrightarrow> safe (readBlob mgr d m)"
  by (auto simp: readBlob_def sizeof_defs read_defs wp wf_resp_def intro!: ok_mono [OF read_law])

lemma writeBlob_safe: "minv m \<Longrightarrow> 8 \<le> length d \<Longrightarrow> safe (writeBlob mgr d m)"
  by (auto simp: writeBlob_def sizeof_defs wp wf_resp_def intro!: ok_mono [OF write_law])

lemma writeMeta_safe: "minv m \<Longrightarrow> safe (writeMeta mgr d m)"
  by (auto simp: writeMeta_def sizeof_defs read_defs wp wf_resp_def intro!: ok_mono [OF writeMeta_law])

end

end
