(* ===== verification/Process.thy ===== *)
theory Process
  imports Ipmi Manager
begin

unbundle bit_operations_syntax

text \<open>
  Routing of a request, \<^verbatim>\<open>process.hpp\<close> and \<^verbatim>\<open>process.cpp\<close>: \<open>validateBlobCommand\<close>
  checks length and checksum and picks the handler, \<open>processBlobCommand\<close> runs it, checks
  the size of the reply and writes the reply's checksum, \<open>handleBlobCommand\<close> composes the
  two on the global manager.

  \<open>ipmiblob::generateCrc\<close> comes from another package and is the parameter \<open>crc\<close> of the
  definitions.
\<close>

definition sizeof_BmcRx :: nat where
  "sizeof_BmcRx = 3"

fun command_handlers :: "BlobOEMCommands \<Rightarrow> ('h, 'm) IpmiBlobHandler option" where
  "command_handlers bmcBlobGetCount = Some getBlobCount"
| "command_handlers bmcBlobEnumerate = Some enumerateBlob"
| "command_handlers bmcBlobOpen = Some openBlob"
| "command_handlers bmcBlobRead = Some readBlob"
| "command_handlers bmcBlobWrite = Some writeBlob"
| "command_handlers bmcBlobCommit = Some commitBlob"
| "command_handlers bmcBlobClose = Some closeBlob"
| "command_handlers bmcBlobDelete = Some deleteBlob"
| "command_handlers bmcBlobStat = Some statBlob"
| "command_handlers bmcBlobSessionStat = Some sessionStatBlob"
| "command_handlers bmcBlobWriteMeta = Some writeMeta"
| "command_handlers (unnamed_command c) = None"

text \<open>A lambda that answers every request with one error.\<close>

definition reject :: "resp \<Rightarrow> ('h, 'm) IpmiBlobHandler" where
  "reject r = (\<lambda>mgr d m. Some (r, m))"

definition lookup_handler :: "BlobOEMCommands \<Rightarrow> ('h, 'm) IpmiBlobHandler" where
  "lookup_handler command = (case command_handlers command of
       None \<Rightarrow> reject responseInvalidFieldRequest
     | Some f \<Rightarrow> f)"

definition validateBlobCommand ::
    "(bytes \<Rightarrow> u16) \<Rightarrow> byte \<Rightarrow> bytes \<Rightarrow> ('h, 'm) IpmiBlobHandler option" where
  "validateBlobCommand crc cmd d =
     (let requestLength = length d; command = command_of cmd in
      if \<not> validateRequestLength command requestLength
      then Some (reject responseReqDataLenInvalid)
      else if requestLength > 1 then
        (if requestLength < sizeof_BmcRx then Some (reject responseReqDataLenInvalid)
         else if length d < 2 then Some (reject responseReqDataLenInvalid)
         else do { c \<leftarrow> rd16 d 0;
                   rest \<leftarrow> subspan d 2;
                   if c \<noteq> crc rest then Some (reject responseUnspecifiedError)
                   else Some (lookup_handler command) })
      else Some (lookup_handler command))"

definition processBlobCommand ::
    "(bytes \<Rightarrow> u16) \<Rightarrow> ('h, 'm) IpmiBlobHandler \<Rightarrow> ('h, 'm) ManagerInterface \<Rightarrow> bytes
       \<Rightarrow> nat \<Rightarrow> 'm \<Rightarrow> (resp \<times> 'm) option" where
  "processBlobCommand crc cmd mgr d maxSize m =
     do { (result, m) \<leftarrow> cmd mgr d m;
          if fst result \<noteq> ccSuccess then Some (result, m)
          else do { response \<leftarrow> snd result;
                    let replyLength = length response;
                    if replyLength = 0 then Some (result, m)
                    else if replyLength < 2 then Some (responseUnspecifiedError, m)
                    else if replyLength > maxSize then Some (responseResponseError, m)
                    else do { responseView \<leftarrow> subspan response 2;
                              let crcValue = crc responseView;
                              if length response < 2 then Some (responseReqDataLenInvalid, m)
                              else Some ((fst result, Some (le16 crcValue @ drop 2 response)), m) } } }"

text \<open>
  \<open>handleBlobCommand\<close>. The state is the static pointer \<open>manager\<close>; \<open>t\<close> and \<open>clk\<close> are
  used when this call is the first to need the manager.
\<close>

definition handleBlobCommand ::
    "(bytes \<Rightarrow> u16) \<Rightarrow> 'h GenericBlobInterface \<Rightarrow> int \<Rightarrow> (nat \<Rightarrow> time) \<Rightarrow> byte \<Rightarrow> bytes \<Rightarrow> nat
       \<Rightarrow> 'h BlobManager option \<Rightarrow> (resp \<times> 'h BlobManager option) option" where
  "handleBlobCommand crc gbi t clk cmd d maxSize manager =
     do { f \<leftarrow> validateBlobCommand crc cmd d;
          (r, m) \<leftarrow> processBlobCommand crc f (BlobManager_methods gbi) d maxSize
            (getBlobManager t clk manager);
          Some (r, Some m) }"

section \<open>Validation\<close>

text \<open>Validation itself never reads out of bounds.\<close>

lemma validateBlobCommand_cases:
  "validateBlobCommand crc cmd d = Some
     (if \<not> validateRequestLength (command_of cmd) (length d) \<or> length d = 2
      then reject responseReqDataLenInvalid
      else if 2 < length d \<and> of_le16 (d ! 0) (d ! 1) \<noteq> crc (drop 2 d)
      then reject responseUnspecifiedError
      else lookup_handler (command_of cmd))"
  by (auto simp: validateBlobCommand_def sizeof_BmcRx_def rd16_Some subspan_Some Let_def)

lemma validateRequestLength_iff:
  "validateRequestLength c n \<longleftrightarrow> (case minimumLengths c of None \<Rightarrow> True | Some k \<Rightarrow> k \<le> n)"
  by (auto simp: validateRequestLength_def split: option.split)

section \<open>Safety of the routing\<close>

context manager_interface
begin

lemma reject_safe: "minv m \<Longrightarrow> wf_resp r \<Longrightarrow> safe (reject r mgr d m)"
  by (simp add: reject_def)

text \<open>The minimum lengths are enough for the handler that is run.\<close>

lemma lookup_handler_safe:
  assumes "minv m" and "validateRequestLength command (length d)"
  shows "safe (lookup_handler command mgr d m)"
  using assms
  by (cases command)
     (simp_all add: lookup_handler_def validateRequestLength_iff sizeof_defs kMinStrLen_def
       getBlobCount_safe enumerateBlob_safe openBlob_safe readBlob_safe writeBlob_safe
       commitBlob_safe closeBlob_safe deleteBlob_safe statBlob_safe sessionStatBlob_safe
       writeMeta_safe reject_safe)

lemma validated_safe:
  assumes "minv m"
  shows "ok (validateBlobCommand crc cmd d) (\<lambda>f. safe (f mgr d m))"
  using assms by (auto simp: validateBlobCommand_cases lookup_handler_safe reject_safe)

lemma processBlobCommand_safe:
  assumes "safe (f mgr d m)"
  shows "safe (processBlobCommand crc f mgr d maxSize m)"
proof -
  obtain r m' where f: "f mgr d m = Some (r, m')" and m': "minv m'" "wf_resp r"
    using assms by (auto elim!: ok_pairE)
  obtain cc p where r: "r = (cc, p)"
    by (cases r)
  show ?thesis
    using f m' by (cases p) (auto simp: r processBlobCommand_def wp Let_def)
qed

end

end
