(* ===== verification/Utils.thy ===== *)
theory Utils
  imports Manager_Iface "HOL-Library.Sublist"
begin

text \<open>
  Finding and loading the blob libraries: \<^verbatim>\<open>fs.cpp\<close>, \<^verbatim>\<open>utils.cpp\<close>, the interface to the
  dynamic loader, \<^verbatim>\<open>internal/sys.hpp\<close>, and its implementation \<^verbatim>\<open>internal/sys.cpp\<close>.

  The directory listing, the dynamic loader and the factories in the libraries are code
  outside the repository: parameters of the definitions. The loader's state (the pending
  error, what is loaded, whatever the factories do) is one value of type \<open>'d\<close>. A C++
  exception derived from \<open>std::exception\<close> is \<open>Inl\<close> of its message. Log entries are
  collected in a list.
\<close>

section \<open>Listing the libraries\<close>

text \<open>\<open>std::string::find\<close>: the first position of a substring, \<open>npos\<close> is \<open>None\<close>.\<close>

fun string_find :: "string \<Rightarrow> string \<Rightarrow> nat option" where
  "string_find pat [] = (if pat = [] then Some 0 else None)"
| "string_find pat (c # s) =
     (if prefix pat (c # s) then Some 0 else map_option Suc (string_find pat s))"

definition matchBlobHandler :: "string \<Rightarrow> bool" where
  "matchBlobHandler filename \<longleftrightarrow> string_find ''.so'' filename \<noteq> None"

fun matching_paths :: "(string \<Rightarrow> bool) \<Rightarrow> string list \<Rightarrow> string list" where
  "matching_paths check [] = []"
| "matching_paths check (p # ps) =
     (if check p then p # matching_paths check ps else matching_paths check ps)"

definition getLibraryList ::
    "(string \<Rightarrow> string + string list) \<Rightarrow> string \<Rightarrow> (string \<Rightarrow> bool) \<Rightarrow> string + string list" where
  "getLibraryList recursive_directory path check = (case recursive_directory path of
       Inl e \<Rightarrow> Inl e
     | Inr ps \<Rightarrow> Inr (matching_paths check ps))"

lemma matching_paths_filter: "matching_paths check ps = filter check ps"
  by (induction ps) simp_all

lemma string_find_None: "string_find pat s = None \<longleftrightarrow> \<not> sublist pat s"
  by (induction s) (auto simp: sublist_Cons_right)

lemma string_find_Some:
  "string_find pat s = Some i \<Longrightarrow> prefix pat (drop i s) \<and> (\<forall>j < i. \<not> prefix pat (drop j s))"
proof (induction s arbitrary: i)
  case Nil
  then show ?case by (simp split: if_splits)
next
  case (Cons c s)
  show ?case
  proof (cases "prefix pat (c # s)")
    case True
    then show ?thesis using Cons.prems by simp
  next
    case False
    then obtain k where k: "string_find pat s = Some k" "i = Suc k"
      using Cons.prems by auto
    have "\<not> prefix pat (drop j (c # s))" if "j < i" for j
      using that False Cons.IH [OF k(1)] k(2) by (cases j) auto
    then show ?thesis
      using Cons.IH [OF k(1)] k(2) by simp
  qed
qed

section \<open>The dynamic loader\<close>

datatype dl_flag = RTLD_NOW | RTLD_GLOBAL

record ('p, 'f, 'd) DlSysInterface =
  dlerror :: "'d \<Rightarrow> string option \<times> 'd"
  dlopen :: "string \<Rightarrow> dl_flag set \<Rightarrow> 'd \<Rightarrow> 'p option \<times> 'd"
  dlsym :: "'p \<Rightarrow> string \<Rightarrow> 'd \<Rightarrow> 'f option \<times> 'd"

text \<open>
  \<open>DlSysImpl\<close>, \<^verbatim>\<open>internal/sys.cpp\<close>: each method forwards to the function of the same name of
  the C library, which is the record \<open>libc_dl\<close> of parameters. \<open>dlsys_impl\<close> is the object of
  the class that \<open>loadLibraries\<close> takes by default.
\<close>

record ('p, 'f, 'd) libc_dl =
  libc_dlerror :: "'d \<Rightarrow> string option \<times> 'd"
  libc_dlopen :: "string \<Rightarrow> dl_flag set \<Rightarrow> 'd \<Rightarrow> 'p option \<times> 'd"
  libc_dlsym :: "'p \<Rightarrow> string \<Rightarrow> 'd \<Rightarrow> 'f option \<times> 'd"

definition DlSysImpl_dlerror :: "('p, 'f, 'd) libc_dl \<Rightarrow> 'd \<Rightarrow> string option \<times> 'd" where
  "DlSysImpl_dlerror libc d = libc_dlerror libc d"

definition DlSysImpl_dlopen ::
    "('p, 'f, 'd) libc_dl \<Rightarrow> string \<Rightarrow> dl_flag set \<Rightarrow> 'd \<Rightarrow> 'p option \<times> 'd" where
  "DlSysImpl_dlopen libc filename fl d = libc_dlopen libc filename fl d"

definition DlSysImpl_dlsym ::
    "('p, 'f, 'd) libc_dl \<Rightarrow> 'p \<Rightarrow> string \<Rightarrow> 'd \<Rightarrow> 'f option \<times> 'd" where
  "DlSysImpl_dlsym libc handle symbol d = libc_dlsym libc handle symbol d"

definition dlsys_impl :: "('p, 'f, 'd) libc_dl \<Rightarrow> ('p, 'f, 'd) DlSysInterface" where
  "dlsys_impl libc =
     \<lparr>dlerror = DlSysImpl_dlerror libc, dlopen = DlSysImpl_dlopen libc, dlsym = DlSysImpl_dlsym libc\<rparr>"

lemma dlsys_impl_sel [simp]:
  "dlerror (dlsys_impl libc) = libc_dlerror libc"
  "dlopen (dlsys_impl libc) = libc_dlopen libc"
  "dlsym (dlsys_impl libc) = libc_dlsym libc"
  by (simp_all add: dlsys_impl_def DlSysImpl_dlerror_def DlSysImpl_dlopen_def DlSysImpl_dlsym_def
      fun_eq_iff)

text \<open>
  What can be thrown: an object of a class derived from \<open>std::exception\<close>, with its \<open>what()\<close>, or
  anything else, which a handler for \<open>const std::exception&\<close> does not catch.
\<close>

datatype exn = StdException string | OtherException

text \<open>What a call of a \<open>HandlerFactory\<close> does: throw, or return a pointer that can be null.\<close>

type_synonym ('f, 'h, 'd) factory_call = "'f \<Rightarrow> 'd \<Rightarrow> (exn + 'h option) \<times> 'd"

datatype log_entry =
    ErrorOpening string "string option"
  | ErrorLoadingSymbol string string
  | UnableToCreateHandler string
  | ExceptionLoadingHandler string string

text \<open>
  The body of the loop of \<open>loadLibraries\<close> for one path, in two parts: from the factory's
  address on, and the whole. A null factory that comes without a loader error is called all
  the same, which is undefined behaviour. The first component of a result is the exception
  that leaves the code; \<open>None\<close> is a normal return.
\<close>

definition run_factory ::
    "('h, 'm) ManagerInterface \<Rightarrow> ('f, 'h, 'd) factory_call \<Rightarrow> string \<Rightarrow> 'f option \<Rightarrow> 'f option set
       \<Rightarrow> 'm \<Rightarrow> 'd \<Rightarrow> (exn option \<times> log_entry list \<times> 'f option set \<times> 'm \<times> 'd) option" where
  "run_factory mgr call p factory seen m d =
     (if factory \<in> seen then Some (None, [], seen, m, d)
      else (let seen = insert factory seen in
        do { f \<leftarrow> factory;
             case call f d of
               (Inl (StdException e), d) \<Rightarrow> Some (None, [ExceptionLoadingHandler p e], seen, m, d)
             | (Inl OtherException, d) \<Rightarrow> Some (Some OtherException, [], seen, m, d)
             | (Inr None, d) \<Rightarrow> Some (None, [UnableToCreateHandler p], seen, m, d)
             | (Inr (Some h), d) \<Rightarrow>
                 do { (_, m) \<leftarrow> mi_registerHandler mgr (Some h) m;
                      Some (None, [], seen, m, d) } }))"

definition load_library ::
    "('h, 'm) ManagerInterface \<Rightarrow> ('p, 'f, 'd) DlSysInterface \<Rightarrow> ('f, 'h, 'd) factory_call
       \<Rightarrow> string \<Rightarrow> 'f option set \<Rightarrow> 'm \<Rightarrow> 'd
       \<Rightarrow> (exn option \<times> log_entry list \<times> 'f option set \<times> 'm \<times> 'd) option" where
  "load_library mgr sys call p seen m d =
     (case dlopen sys p {RTLD_NOW, RTLD_GLOBAL} d of
        (None, d) \<Rightarrow> (let (e, d) = dlerror sys d in Some (None, [ErrorOpening p e], seen, m, d))
      | (Some libHandle, d) \<Rightarrow>
          (let (_, d) = dlerror sys d;
               (factory, d) = dlsym sys libHandle ''createHandler'' d;
               (error, d) = dlerror sys d in
           case error of
             Some e \<Rightarrow> Some (None, [ErrorLoadingSymbol p e], seen, m, d)
           | None \<Rightarrow> run_factory mgr call p factory seen m d))"

fun load_libraries ::
    "('h, 'm) ManagerInterface \<Rightarrow> ('p, 'f, 'd) DlSysInterface \<Rightarrow> ('f, 'h, 'd) factory_call
       \<Rightarrow> string list \<Rightarrow> 'f option set \<Rightarrow> 'm \<Rightarrow> 'd \<Rightarrow> (exn option \<times> log_entry list \<times> 'm \<times> 'd) option" where
  "load_libraries mgr sys call [] seen m d = Some (None, [], m, d)"
| "load_libraries mgr sys call (p # ps) seen m d =
     do { (x, l, seen, m, d) \<leftarrow> load_library mgr sys call p seen m d;
          if x \<noteq> None then Some (x, l, m, d)
          else do { (x, ls, m, d) \<leftarrow> load_libraries mgr sys call ps seen m d;
                    Some (x, l @ ls, m, d) } }"

text \<open>
  An exception of the listing, a \<open>std::filesystem::filesystem_error\<close>, is passed on.
\<close>

definition loadLibraries ::
    "(string \<Rightarrow> string + string list) \<Rightarrow> ('p, 'f, 'd) DlSysInterface \<Rightarrow> ('f, 'h, 'd) factory_call
       \<Rightarrow> ('h, 'm) ManagerInterface \<Rightarrow> string \<Rightarrow> 'm \<Rightarrow> 'd
       \<Rightarrow> (exn option \<times> log_entry list \<times> 'm \<times> 'd) option" where
  "loadLibraries recursive_directory sys call mgr path m d =
     (case getLibraryList recursive_directory path matchBlobHandler of
        Inl e \<Rightarrow> Some (Some (StdException e), [], m, d)
      | Inr libs \<Rightarrow> load_libraries mgr sys call libs {} m d)"

section \<open>Loading keeps the manager's invariant\<close>

text \<open>
  What the loader relies on: \<open>dlsym\<close> returns a null pointer only together with an error,
  and a factory makes a handler in its initial state.
\<close>

definition reports_null ::
    "('p, 'f, 'd) DlSysInterface \<Rightarrow> bool" where
  "reports_null sys \<longleftrightarrow> (\<forall>l d d1 d2 e. dlsym sys l ''createHandler'' d = (None, d1) \<longrightarrow>
     dlerror sys d1 = (e, d2) \<longrightarrow> e \<noteq> None)"

definition makes_new ::
    "('f, 'h, 'd) factory_call \<Rightarrow> ('h \<Rightarrow> bool) \<Rightarrow> bool" where
  "makes_new call new_handler \<longleftrightarrow> (\<forall>f d h d'. call f d = (Inr (Some h), d') \<longrightarrow> new_handler h)"

definition throws_std :: "('f, 'h, 'd) factory_call \<Rightarrow> bool" where
  "throws_std call \<longleftrightarrow> (\<forall>f d. fst (call f d) \<noteq> Inl OtherException)"

context manager_interface
begin

lemma run_factory_ok:
  assumes m: "minv m" and f: "factory \<noteq> None" and new: "makes_new call new_handler"
  shows "ok (run_factory mgr call p factory seen m d)
    (\<lambda>(x, l, seen', m', d'). minv m' \<and> (x = None \<or> x = Some OtherException \<and> \<not> throws_std call))"
proof -
  have reg: "ok (mi_registerHandler mgr (Some h) m) (\<lambda>(b, m'). minv m')"
    if "call g d = (Inr (Some h), d')" for g h d'
  proof -
    have "new_handler h"
      using new that by (auto simp: makes_new_def)
    then show ?thesis
      using registerHandler_law [OF m, of "Some h"] by (auto elim: ok_mono)
  qed
  obtain g where g: "factory = Some g"
    using f by blast
  have std: "\<not> throws_std call" if "call g d = (Inl OtherException, d')" for d'
    using that by (auto simp: throws_std_def intro!: exI [of _ g] exI [of _ d])
  show ?thesis
  proof (cases "call g d")
    case (Pair r d')
    show ?thesis
      using m reg [of g] std Pair
      by (cases r) (auto simp: run_factory_def g wp Let_def split: option.splits exn.splits elim!: ok_mono)
  qed
qed

lemma load_library_ok:
  assumes m: "minv m" and null: "reports_null sys" and new: "makes_new call new_handler"
  shows "ok (load_library mgr sys call p seen m d)
    (\<lambda>(x, l, seen', m', d'). minv m' \<and> (x = None \<or> x = Some OtherException \<and> \<not> throws_std call))"
proof -
  have "factory \<noteq> None" if "dlsym sys l ''createHandler'' d1 = (factory, d2)"
    "dlerror sys d2 = (None, d3)" for l d1 factory d2 d3
    using null that unfolding reports_null_def by metis
  then show ?thesis
    using m run_factory_ok [OF m _ new]
    by (auto simp: load_library_def Let_def split: prod.splits option.splits)
qed

lemma load_libraries_ok:
  assumes "minv m" and "reports_null sys" and "makes_new call new_handler"
  shows "ok (load_libraries mgr sys call ps seen m d)
    (\<lambda>(x, l, m', d'). minv m' \<and> (x = None \<or> x = Some OtherException \<and> \<not> throws_std call))"
  using assms(1)
proof (induction ps arbitrary: seen m d)
  case Nil
  then show ?case by simp
next
  case (Cons p ps)
  then show ?case
    using load_library_ok [OF Cons.prems assms(2,3), of p seen d]
    by (auto simp: wp elim!: ok_mono)
qed

end

end
