(* ===== verification/System.thy ===== *)
theory System
  imports Manager_Inv Process Utils
begin

unbundle bit_operations_syntax

text \<open>
  The whole program, \<^verbatim>\<open>main.cpp\<close>: what the constructor of the shared module does, the
  callback it registers with the IPMI daemon, and the runs of the system, in which requests
  arrive one after the other at the one manager.

  \<open>ipmi::getChannelMaxTransferSize\<close> is the parameter \<open>maxTransfer\<close>. The registration with the
  IPMI daemon and the dynamic loader act on one environment of type \<open>'d\<close>.
\<close>

section \<open>Start-up and the callback\<close>

text \<open>The registered lambda.\<close>

definition oem_handler ::
    "(bytes \<Rightarrow> u16) \<Rightarrow> 'h GenericBlobInterface \<Rightarrow> ('c \<Rightarrow> nat) \<Rightarrow> int \<Rightarrow> (nat \<Rightarrow> time)
       \<Rightarrow> 'c \<Rightarrow> byte \<Rightarrow> bytes \<Rightarrow> 'h BlobManager option \<Rightarrow> (resp \<times> 'h BlobManager option) option" where
  "oem_handler crc gbi maxTransfer t clk channel cmd d manager =
     handleBlobCommand crc gbi t clk cmd d (maxTransfer channel) manager"

text \<open>
  What the start-up uses of the IPMI daemon: the constants it registers with, and
  \<open>ipmi::registerOemHandler\<close>, an effect on the environment \<open>'d\<close>. A callback gets the two
  clock readings of its call, the channel of its context, the command byte and the data.
\<close>

type_synonym ('c, 'h) callback =
  "int \<Rightarrow> (nat \<Rightarrow> time) \<Rightarrow> 'c \<Rightarrow> byte \<Rightarrow> bytes \<Rightarrow> 'h BlobManager option
     \<Rightarrow> (resp \<times> 'h BlobManager option) option"

record ('o, 'c, 'h, 'd) ipmi_daemon =
  prioOemBase :: int
  obmcOemNumber :: 'o
  blobTransferCmd :: byte
  Privilege_User :: byte
  registerOemHandler :: "int \<Rightarrow> 'o \<Rightarrow> byte \<Rightarrow> byte \<Rightarrow> ('c, 'h) callback \<Rightarrow> 'd \<Rightarrow> 'd"

text \<open>
  What the start-up writes: the line on \<open>stderr\<close>, the log entries of \<open>loadLibraries\<close>, and
  the entry for an exception it has caught.
\<close>

datatype 'o setup_entry =
    RegisteringOem 'o byte
  | LibraryEntry log_entry
  | ErrorLoadingBlobHandlers string

text \<open>
  \<open>setupBlobGlobalHandler\<close>. The libraries are loaded through the default \<open>dlsys_impl\<close>. An
  exception out of \<open>loadLibraries\<close> is caught and logged if it is derived from
  \<open>std::exception\<close>; any other leaves the function.
\<close>

definition setupBlobGlobalHandler ::
    "('o, 'c, 'h, 'd) ipmi_daemon \<Rightarrow> (bytes \<Rightarrow> u16) \<Rightarrow> ('c \<Rightarrow> nat) \<Rightarrow> 'h GenericBlobInterface
       \<Rightarrow> int \<Rightarrow> (nat \<Rightarrow> time) \<Rightarrow> (string \<Rightarrow> string + string list) \<Rightarrow> ('p, 'f, 'd) libc_dl
       \<Rightarrow> ('f, 'h, 'd) factory_call \<Rightarrow> string \<Rightarrow> 'h BlobManager option \<Rightarrow> 'd
       \<Rightarrow> (exn option \<times> 'o setup_entry list \<times> 'h BlobManager option \<times> 'd) option" where
  "setupBlobGlobalHandler ipmi crc maxTransfer gbi t clk recursive_directory libc call
     BLOB_LIB_PATH manager d =
     (let banner = RegisteringOem (obmcOemNumber ipmi) (blobTransferCmd ipmi);
          d = registerOemHandler ipmi (prioOemBase ipmi) (obmcOemNumber ipmi) (blobTransferCmd ipmi)
            (Privilege_User ipmi) (oem_handler crc gbi maxTransfer) d in
      do { (x, ls, m, d) \<leftarrow> loadLibraries recursive_directory (dlsys_impl libc) call
             (BlobManager_methods gbi) BLOB_LIB_PATH (getBlobManager t clk manager) d;
           let written = banner # map LibraryEntry ls in
           case x of
             None \<Rightarrow> Some (None, written, Some m, d)
           | Some (StdException e) \<Rightarrow> Some (None, written @ [ErrorLoadingBlobHandlers e], Some m, d)
           | Some OtherException \<Rightarrow> Some (x, written, Some m, d) })"

section \<open>Runs\<close>

record 'c request =
  req_channel :: 'c
  req_cmd :: byte
  req_data :: bytes

fun serve ::
    "(bytes \<Rightarrow> u16) \<Rightarrow> 'h GenericBlobInterface \<Rightarrow> ('c \<Rightarrow> nat) \<Rightarrow> int \<Rightarrow> (nat \<Rightarrow> time)
       \<Rightarrow> 'c request list \<Rightarrow> 'h BlobManager option \<Rightarrow> (resp list \<times> 'h BlobManager option) option" where
  "serve crc gbi maxTransfer t clk [] manager = Some ([], manager)"
| "serve crc gbi maxTransfer t clk (q # qs) manager =
     do { (r, manager) \<leftarrow> oem_handler crc gbi maxTransfer t clk (req_channel q) (req_cmd q)
            (req_data q) manager;
          (rs, manager) \<leftarrow> serve crc gbi maxTransfer t clk qs manager;
          Some (r # rs, manager) }"

text \<open>
  The reachable states of the static pointer: null at first; the manager is made on first
  use; libraries register handlers in their initial state; requests are served. The step
  for a request has the successful run as its premise, so it says nothing about a request
  that runs into undefined behaviour; that there is none is a theorem about these states.
\<close>

inductive reachable ::
    "(bytes \<Rightarrow> u16) \<Rightarrow> 'h GenericBlobInterface \<Rightarrow> ('h \<Rightarrow> bool) \<Rightarrow> 'h BlobManager option \<Rightarrow> bool"
  for crc :: "bytes \<Rightarrow> u16" and gbi :: "'h GenericBlobInterface" and new_handler :: "'h \<Rightarrow> bool" where
  start: "reachable crc gbi new_handler None"
| create: "reachable crc gbi new_handler g \<Longrightarrow>
     reachable crc gbi new_handler (Some (getBlobManager t clk g))"
| register: "reachable crc gbi new_handler (Some m) \<Longrightarrow> new_handler h \<Longrightarrow>
     reachable crc gbi new_handler (Some (snd (registerHandler (Some h) m)))"
| request: "reachable crc gbi new_handler g \<Longrightarrow>
     handleBlobCommand crc gbi t clk cmd d maxSize g = Some (r, g') \<Longrightarrow>
     reachable crc gbi new_handler g'"

definition static_inv ::
    "('h \<Rightarrow> bool) \<Rightarrow> ('h \<Rightarrow> u16 \<rightharpoonup> string \<times> u16) \<Rightarrow> 'h BlobManager option \<Rightarrow> bool" where
  "static_inv hinv live g = (case g of None \<Rightarrow> True | Some m \<Rightarrow> mgr_inv hinv live m)"

lemma static_inv_simps [simp]:
  "static_inv hinv live None"
  "static_inv hinv live (Some m) \<longleftrightarrow> mgr_inv hinv live m"
  by (simp_all add: static_inv_def)

lemma getBlobManager_inv:
  "static_inv hinv live g \<Longrightarrow> mgr_inv hinv live (getBlobManager t clk g)"
  by (cases g) (simp_all add: getBlobManager_def new_BlobManager_inv)

context blob_handler
begin

lemma manages:
  "manager_interface (BlobManager_methods gbi) (mgr_inv hinv live) (\<lambda>h. hinv h \<and> live h = Map.empty)"
  by (rule blob_manager.manager_interface_axioms)

lemma handleBlobCommand_safe:
  assumes "static_inv hinv live g"
  shows "ok (handleBlobCommand crc gbi t clk cmd d maxSize g)
    (\<lambda>(r, g'). g' \<noteq> None \<and> static_inv hinv live g' \<and> wf_resp r)"
proof -
  let ?m = "getBlobManager t clk g"
  have inv: "minv ?m"
    using assms by (rule getBlobManager_inv)
  obtain f where f: "validateBlobCommand crc cmd d = Some f"
    and safe: "ok (f (BlobManager_methods gbi) d ?m) (\<lambda>(r, m'). minv m' \<and> wf_resp r)"
    using blob_manager.validated_safe [OF inv, of crc cmd d] by (auto elim!: okE)
  show ?thesis
    using f blob_manager.processBlobCommand_safe [of f d ?m crc maxSize, OF safe]
    by (auto simp: handleBlobCommand_def wp elim!: ok_mono)
qed

lemma serve_safe:
  "static_inv hinv live g \<Longrightarrow> ok (serve crc gbi maxTransfer t clk qs g)
     (\<lambda>(rs, g'). static_inv hinv live g' \<and> length rs = length qs \<and> list_all wf_resp rs)"
proof (induction qs arbitrary: g)
  case Nil
  then show ?case by simp
next
  case (Cons q qs)
  show ?case
    using handleBlobCommand_safe [OF Cons.prems] Cons.IH
    by (fastforce simp: oem_handler_def wp elim!: ok_mono)
qed

lemma reachable_inv:
  "reachable crc gbi (\<lambda>h. hinv h \<and> live h = Map.empty) g \<Longrightarrow> static_inv hinv live g"
proof (induction rule: reachable.induct)
  case (request g t clk cmd d maxSize r g')
  then show ?case
    using handleBlobCommand_safe [of g crc t clk cmd d maxSize] by simp
qed (auto simp: getBlobManager_inv registerHandler_def registerHandler_inv)

end

end
