(* ===== verification/Example.thy ===== *)
theory Example
  imports Manager_Inv
begin

unbundle bit_operations_syntax

text \<open>
  The blob handler that ships with the repository, \<^verbatim>\<open>example/example.hpp\<close> and
  \<^verbatim>\<open>example/example.cpp\<close>: a handler for one path that gives every session a buffer of
  1024 bytes.

  The array \<open>buffer\<close> is a function on indices; every \<open>memcpy\<close> into or out of it checks
  the bound and is undefined behaviour (\<open>None\<close>) past it. Neither constructor initialises
  the array: what a new one holds is the next element of \<open>eh_uninit\<close>, a member of the
  modelled state that stands for the previous contents of memory.

  The handler implements the contract \<open>blob_handler\<close>; the interpretation at the end
  makes every fact about the manager available for a manager that runs it.
\<close>

definition kBufferSize :: nat where
  "kBufferSize = 1024"

record ExampleBlob =
  eb_sessionId :: u16
  eb_flags :: u16
  eb_state :: u16
  eb_length :: u32
  eb_buffer :: "nat \<Rightarrow> byte"

record ExampleBlobHandler =
  eh_sessions :: "u16 \<rightharpoonup> ExampleBlob"
  eh_uninit :: "nat \<Rightarrow> nat \<Rightarrow> byte"

definition new_ExampleBlob :: "u16 \<Rightarrow> u16 \<Rightarrow> (nat \<Rightarrow> byte) \<Rightarrow> ExampleBlob" where
  "new_ExampleBlob i fl junk =
     \<lparr>eb_sessionId = i, eb_flags = fl, eb_state = StateFlags_open_read OR StateFlags_open_write,
      eb_length = 0, eb_buffer = junk\<rparr>"

definition supportedPath :: string where
  "supportedPath = ''/dev/fake/command''"

lemma supportedPath_nonempty [simp]: "supportedPath \<noteq> []"
  by (simp add: supportedPath_def)

text \<open>\<open>memcpy\<close> out of and into the array.\<close>

definition buffer_out :: "(nat \<Rightarrow> byte) \<Rightarrow> nat \<Rightarrow> nat \<Rightarrow> bytes option" where
  "buffer_out buf off n = (if off + n \<le> kBufferSize then Some (map buf [off..<off + n]) else None)"

definition buffer_in :: "(nat \<Rightarrow> byte) \<Rightarrow> nat \<Rightarrow> bytes \<Rightarrow> (nat \<Rightarrow> byte) option" where
  "buffer_in buf off d =
     (if off + length d \<le> kBufferSize
      then Some (\<lambda>i. if off \<le> i \<and> i < off + length d then d ! (i - off) else buf i)
      else None)"

section \<open>The methods\<close>

definition Example_getSession :: "u16 \<Rightarrow> ExampleBlobHandler \<Rightarrow> ExampleBlob option" where
  "Example_getSession i h = eh_sessions h i"

definition Example_canHandleBlob :: "string \<Rightarrow> ExampleBlobHandler \<Rightarrow> (bool \<times> ExampleBlobHandler) option" where
  "Example_canHandleBlob path h = Some (path = supportedPath, h)"

definition Example_getBlobIds :: "ExampleBlobHandler \<Rightarrow> (string list \<times> ExampleBlobHandler) option" where
  "Example_getBlobIds h = Some ([supportedPath], h)"

definition Example_deleteBlob :: "string \<Rightarrow> ExampleBlobHandler \<Rightarrow> (bool \<times> ExampleBlobHandler) option" where
  "Example_deleteBlob path h = Some (False, h)"

definition Example_statPath ::
    "string \<Rightarrow> BlobMeta \<Rightarrow> ExampleBlobHandler \<Rightarrow> ((bool \<times> BlobMeta) \<times> ExampleBlobHandler) option" where
  "Example_statPath path mt h = Some ((False, mt), h)"

definition Example_open ::
    "u16 \<Rightarrow> u16 \<Rightarrow> string \<Rightarrow> ExampleBlobHandler \<Rightarrow> (bool \<times> ExampleBlobHandler) option" where
  "Example_open session fl path h =
     do { (can, h) \<leftarrow> Example_canHandleBlob path h;
          if \<not> can then Some (False, h)
          else if eh_sessions h session \<noteq> None then Some (False, h)
          else Some (True, h\<lparr>eh_sessions := (eh_sessions h)(session \<mapsto>
                 new_ExampleBlob session fl (eh_uninit h 0)),
               eh_uninit := eh_uninit h \<circ> Suc\<rparr>) }"

definition Example_read ::
    "u16 \<Rightarrow> u32 \<Rightarrow> u32 \<Rightarrow> ExampleBlobHandler \<Rightarrow> (bytes \<times> ExampleBlobHandler) option" where
  "Example_read session offset requestedSize h = (case Example_getSession session h of
       None \<Rightarrow> Some ([], h)
     | Some sess \<Rightarrow>
         if unat offset \<ge> kBufferSize then Some ([], h)
         else (let remain = word_of_nat kBufferSize - offset;
                   numBytes = min remain requestedSize in
               do { result \<leftarrow> buffer_out (eb_buffer sess) (unat offset) (unat numBytes);
                    Some (result, h) }))"

text \<open>\<open>std::max(offset + data.size(), \<dots>)\<close> is computed in 64 bits and stored in 32.\<close>

definition Example_write ::
    "u16 \<Rightarrow> u32 \<Rightarrow> bytes \<Rightarrow> ExampleBlobHandler \<Rightarrow> (bool \<times> ExampleBlobHandler) option" where
  "Example_write session offset d h = (case Example_getSession session h of
       None \<Rightarrow> Some (False, h)
     | Some sess \<Rightarrow>
         if unat offset \<ge> kBufferSize then Some (False, h)
         else (let remain = word_of_nat kBufferSize - offset in
               if length d > unat remain then Some (False, h)
               else (let sess = sess\<lparr>eb_length :=
                           word_of_nat (max (unat offset + length d) (unat (eb_length sess)))\<rparr> in
                     do { buf \<leftarrow> buffer_in (eb_buffer sess) (unat offset) d;
                          Some (True, h\<lparr>eh_sessions := (eh_sessions h)(session \<mapsto>
                            sess\<lparr>eb_buffer := buf\<rparr>)\<rparr>) })))"

definition Example_writeMeta ::
    "u16 \<Rightarrow> u32 \<Rightarrow> bytes \<Rightarrow> ExampleBlobHandler \<Rightarrow> (bool \<times> ExampleBlobHandler) option" where
  "Example_writeMeta session offset d h = Some (False, h)"

definition Example_commit ::
    "u16 \<Rightarrow> bytes \<Rightarrow> ExampleBlobHandler \<Rightarrow> (bool \<times> ExampleBlobHandler) option" where
  "Example_commit session d h = (case Example_getSession session h of
       None \<Rightarrow> Some (False, h)
     | Some sess \<Rightarrow> Some (False, h))"

definition Example_close :: "u16 \<Rightarrow> ExampleBlobHandler \<Rightarrow> (bool \<times> ExampleBlobHandler) option" where
  "Example_close session h = (case Example_getSession session h of
       None \<Rightarrow> Some (False, h)
     | Some sess \<Rightarrow> Some (True, h\<lparr>eh_sessions := (eh_sessions h)(session := None)\<rparr>))"

text \<open>The manager always passes the address of a \<open>BlobMeta\<close>, so \<open>!meta\<close> is false.\<close>

definition Example_stat ::
    "u16 \<Rightarrow> BlobMeta \<Rightarrow> ExampleBlobHandler \<Rightarrow> ((bool \<times> BlobMeta) \<times> ExampleBlobHandler) option" where
  "Example_stat session mt h = (case Example_getSession session h of
       None \<Rightarrow> Some ((False, mt), h)
     | Some sess \<Rightarrow>
         Some ((True, mt\<lparr>blobSize := Some (eb_length sess), blobState := Some (eb_state sess)\<rparr>), h))"

definition Example_expire :: "u16 \<Rightarrow> ExampleBlobHandler \<Rightarrow> (bool \<times> ExampleBlobHandler) option" where
  "Example_expire session h = (case Example_getSession session h of
       None \<Rightarrow> Some (False, h)
     | Some sess \<Rightarrow> Some (False, h))"

definition ExampleBlobHandler_methods :: "ExampleBlobHandler GenericBlobInterface" where
  "ExampleBlobHandler_methods =
     \<lparr>gbi_canHandleBlob = Example_canHandleBlob, gbi_getBlobIds = Example_getBlobIds,
      gbi_deleteBlob = Example_deleteBlob, gbi_statPath = Example_statPath,
      gbi_open = Example_open, gbi_read = Example_read, gbi_write = Example_write,
      gbi_writeMeta = Example_writeMeta, gbi_commit = Example_commit,
      gbi_close = Example_close, gbi_stat = Example_stat, gbi_expire = Example_expire\<rparr>"

definition createHandler :: "(nat \<Rightarrow> nat \<Rightarrow> byte) \<Rightarrow> ExampleBlobHandler" where
  "createHandler junk = \<lparr>eh_sessions = Map.empty, eh_uninit = junk\<rparr>"

lemma ExampleBlobHandler_methods_sel [simp]:
  "gbi_canHandleBlob ExampleBlobHandler_methods = Example_canHandleBlob"
  "gbi_getBlobIds ExampleBlobHandler_methods = Example_getBlobIds"
  "gbi_deleteBlob ExampleBlobHandler_methods = Example_deleteBlob"
  "gbi_statPath ExampleBlobHandler_methods = Example_statPath"
  "gbi_open ExampleBlobHandler_methods = Example_open"
  "gbi_read ExampleBlobHandler_methods = Example_read"
  "gbi_write ExampleBlobHandler_methods = Example_write"
  "gbi_writeMeta ExampleBlobHandler_methods = Example_writeMeta"
  "gbi_commit ExampleBlobHandler_methods = Example_commit"
  "gbi_close ExampleBlobHandler_methods = Example_close"
  "gbi_stat ExampleBlobHandler_methods = Example_stat"
  "gbi_expire ExampleBlobHandler_methods = Example_expire"
  by (simp_all add: ExampleBlobHandler_methods_def)

section \<open>Reading and writing the buffer\<close>

lemma unat_remain:
  fixes off :: u32
  assumes "unat off < kBufferSize"
  shows "unat (word_of_nat kBufferSize - off) = kBufferSize - unat off"
proof -
  have "off \<le> word_of_nat kBufferSize"
    using assms by (simp add: word_le_nat_alt kBufferSize_def)
  then show ?thesis
    by (simp add: unat_sub kBufferSize_def)
qed

lemma Example_read_eq:
  "Example_read s off n h = Some ((case eh_sessions h s of
       None \<Rightarrow> []
     | Some b \<Rightarrow> map (eb_buffer b) [unat off..<min kBufferSize (unat off + unat n)]), h)"
proof (cases "eh_sessions h s")
  case None
  then show ?thesis by (simp add: Example_read_def Example_getSession_def)
next
  case (Some b)
  show ?thesis
  proof (cases "unat off < kBufferSize")
    case True
    let ?k = "unat (min (word_of_nat kBufferSize - off) n)"
    have "?k = min (kBufferSize - unat off) (unat n)"
      using unat_remain [OF True] by (simp add: min_def word_le_nat_alt)
    then have "unat off + ?k = min kBufferSize (unat off + unat n)"
      using True by simp
    then show ?thesis
      using Some True by (simp add: Example_read_def Example_getSession_def buffer_out_def Let_def)
  next
    case False
    then show ?thesis
      using Some by (simp add: Example_read_def Example_getSession_def)
  qed
qed

definition written :: "ExampleBlob \<Rightarrow> nat \<Rightarrow> bytes \<Rightarrow> ExampleBlob" where
  "written b off d = b\<lparr>eb_length := word_of_nat (max (off + length d) (unat (eb_length b))),
     eb_buffer := (\<lambda>i. if off \<le> i \<and> i < off + length d then d ! (i - off) else eb_buffer b i)\<rparr>"

lemma Example_write_eq:
  "Example_write s off d h = Some (case eh_sessions h s of
       None \<Rightarrow> (False, h)
     | Some b \<Rightarrow>
         if unat off < kBufferSize \<and> unat off + length d \<le> kBufferSize
         then (True, h\<lparr>eh_sessions := (eh_sessions h)(s \<mapsto> written b (unat off) d)\<rparr>)
         else (False, h))"
proof (cases "eh_sessions h s")
  case None
  then show ?thesis by (simp add: Example_write_def Example_getSession_def)
next
  case (Some b)
  show ?thesis
  proof (cases "unat off < kBufferSize")
    case True
    then show ?thesis
      using Some unat_remain [OF True]
      by (auto simp: Example_write_def Example_getSession_def buffer_in_def written_def Let_def
          cong: if_cong)
  next
    case False
    then show ?thesis
      using Some by (simp add: Example_write_def Example_getSession_def)
  qed
qed

section \<open>The handler contract\<close>

definition example_inv :: "ExampleBlobHandler \<Rightarrow> bool" where
  "example_inv h \<longleftrightarrow> (\<forall>s b. eh_sessions h s = Some b \<longrightarrow>
     eb_sessionId b = s \<and> unat (eb_length b) \<le> kBufferSize
     \<and> eb_state b = StateFlags_open_read OR StateFlags_open_write)"

definition example_live :: "ExampleBlobHandler \<Rightarrow> u16 \<rightharpoonup> string \<times> u16" where
  "example_live h s = map_option (\<lambda>b. (supportedPath, eb_flags b)) (eh_sessions h s)"

definition example_accepts :: "ExampleBlobHandler \<Rightarrow> string \<Rightarrow> bool" where
  "example_accepts h p \<longleftrightarrow> p = supportedPath"

lemmas example_defs = Example_canHandleBlob_def Example_getBlobIds_def Example_deleteBlob_def
  Example_statPath_def Example_writeMeta_def Example_commit_def Example_close_def
  Example_stat_def Example_expire_def Example_getSession_def

lemma written_inv:
  assumes "unat (eb_length b) \<le> kBufferSize" and "off + length d \<le> kBufferSize"
  shows "unat (eb_length (written b off d)) \<le> kBufferSize"
  using assms by (simp add: written_def unat_of_nat kBufferSize_def)

lemma written_frame [simp]:
  "eb_sessionId (written b off d) = eb_sessionId b"
  "eb_state (written b off d) = eb_state b"
  "eb_flags (written b off d) = eb_flags b"
  by (simp_all add: written_def)

lemma createHandler_inv: "example_inv (createHandler junk)" "example_live (createHandler junk) = Map.empty"
  by (simp_all add: createHandler_def example_inv_def example_live_def fun_eq_iff)

interpretation example: blob_handler ExampleBlobHandler_methods example_inv example_live example_accepts
proof unfold_locales
  fix h s p f
  assume "example_inv h" and "example_accepts h p" and "example_live h s = None"
  then show "ok (gbi_open ExampleBlobHandler_methods s f p h) (\<lambda>(b, h'). example_inv h'
      \<and> example_live h' = (if b then (example_live h)(s \<mapsto> (p, f)) else example_live h))"
    by (auto simp: Example_open_def Example_canHandleBlob_def example_accepts_def example_live_def
        example_inv_def new_ExampleBlob_def fun_eq_iff)
next
  fix h s off d
  assume "example_inv h"
  then show "ok (gbi_write ExampleBlobHandler_methods s off d h)
      (\<lambda>(b, h'). example_inv h' \<and> example_live h' = example_live h)"
    by (auto simp: Example_write_eq example_inv_def example_live_def written_inv fun_eq_iff
        split: option.split)
qed (auto simp: example_defs Example_read_eq example_accepts_def example_live_def example_inv_def
    meta_defined_def fun_eq_iff split: option.splits)

end
