(* ===== verification/Contract.thy ===== *)
theory Contract
  imports Example
begin

unbundle bit_operations_syntax

text \<open>
  The calling contract of the README, made checkable for any handler.

  \<open>monitored gbi\<close> is the handler \<open>gbi\<close> behind a monitor that watches the calls. It
  remembers the sessions the handler has opened and not closed or expired, judging by the
  results it returned, and the path the last \<open>canHandleBlob\<close> accepted. A call that breaks
  the contract is undefined behaviour (\<open>None\<close>); a call that respects it goes to the handler
  unchanged.

  Every handler that always returns normally (\<open>plain_handler\<close>) satisfies \<open>blob_handler\<close>
  once it is monitored, whatever it answers. So the facts about the manager apply to it,
  and a manager run over monitored handlers never trips a monitor.
\<close>

record monitor =
  mon_sessions :: "u16 \<rightharpoonup> string \<times> u16"
  mon_accepted :: "string option"

definition new_monitor :: monitor where
  "new_monitor = \<lparr>mon_sessions = Map.empty, mon_accepted = None\<rparr>"

section \<open>The monitor\<close>

definition watch ::
    "bool \<Rightarrow> ('h \<Rightarrow> ('r \<times> 'h) option) \<Rightarrow> ('r \<Rightarrow> monitor \<Rightarrow> monitor) \<Rightarrow> 'h \<times> monitor
       \<Rightarrow> ('r \<times> 'h \<times> monitor) option" where
  "watch allowed f upd hm =
     (if allowed then do { (r, h) \<leftarrow> f (fst hm); Some (r, h, upd r (snd hm)) } else None)"

definition session_with :: "'h \<times> monitor \<Rightarrow> u16 \<Rightarrow> u16 \<Rightarrow> bool" where
  "session_with hm s m = (case mon_sessions (snd hm) s of
       None \<Rightarrow> False
     | Some (p, f) \<Rightarrow> has_flag f m)"

definition session_open :: "'h \<times> monitor \<Rightarrow> u16 \<Rightarrow> bool" where
  "session_open hm s \<longleftrightarrow> mon_sessions (snd hm) s \<noteq> None"

definition path_accepted :: "'h \<times> monitor \<Rightarrow> string \<Rightarrow> bool" where
  "path_accepted hm p \<longleftrightarrow> mon_accepted (snd hm) = Some p"

definition path_closed :: "'h \<times> monitor \<Rightarrow> string \<Rightarrow> bool" where
  "path_closed hm p \<longleftrightarrow> p \<notin> fst ` ran (mon_sessions (snd hm))"

definition monitored :: "'h GenericBlobInterface \<Rightarrow> ('h \<times> monitor) GenericBlobInterface" where
  "monitored gbi =
     \<lparr>gbi_canHandleBlob = (\<lambda>p. watch True (gbi_canHandleBlob gbi p)
        (\<lambda>b mn. mn\<lparr>mon_accepted := if b then Some p else None\<rparr>)),
      gbi_getBlobIds = watch True (gbi_getBlobIds gbi) (\<lambda>r mn. mn),
      gbi_deleteBlob = (\<lambda>p hm. watch (path_accepted hm p \<and> path_closed hm p)
        (gbi_deleteBlob gbi p) (\<lambda>r mn. mn) hm),
      gbi_statPath = (\<lambda>p mt hm. watch (path_accepted hm p)
        (gbi_statPath gbi p mt) (\<lambda>r mn. mn) hm),
      gbi_open = (\<lambda>s f p hm. watch (path_accepted hm p \<and> \<not> session_open hm s \<and> has_flag f read_or_write)
        (gbi_open gbi s f p)
        (\<lambda>b mn. if b then mn\<lparr>mon_sessions := (mon_sessions mn)(s \<mapsto> (p, f))\<rparr> else mn) hm),
      gbi_read = (\<lambda>s off n hm. watch (session_with hm s OpenFlags_read)
        (gbi_read gbi s off n) (\<lambda>r mn. mn) hm),
      gbi_write = (\<lambda>s off d hm. watch (session_with hm s OpenFlags_write)
        (gbi_write gbi s off d) (\<lambda>r mn. mn) hm),
      gbi_writeMeta = (\<lambda>s off d hm. watch (session_open hm s)
        (gbi_writeMeta gbi s off d) (\<lambda>r mn. mn) hm),
      gbi_commit = (\<lambda>s d hm. watch (session_open hm s) (gbi_commit gbi s d) (\<lambda>r mn. mn) hm),
      gbi_close = (\<lambda>s hm. watch (session_open hm s) (gbi_close gbi s)
        (\<lambda>b mn. if b then mn\<lparr>mon_sessions := (mon_sessions mn)(s := None)\<rparr> else mn) hm),
      gbi_stat = (\<lambda>s mt hm. watch (session_open hm s) (gbi_stat gbi s mt) (\<lambda>r mn. mn) hm),
      gbi_expire = (\<lambda>s hm. watch (session_open hm s) (gbi_expire gbi s)
        (\<lambda>b mn. if b then mn\<lparr>mon_sessions := (mon_sessions mn)(s := None)\<rparr> else mn) hm)\<rparr>"

section \<open>Handlers that return normally\<close>

locale plain_handler =
  fixes gbi :: "'h GenericBlobInterface"
    and hinv :: "'h \<Rightarrow> bool"
  assumes plain_canHandleBlob: "hinv h \<Longrightarrow> ok (gbi_canHandleBlob gbi p h) (\<lambda>(r, h'). hinv h')"
    and plain_getBlobIds: "hinv h \<Longrightarrow> ok (gbi_getBlobIds gbi h) (\<lambda>(r, h'). hinv h')"
    and plain_deleteBlob: "hinv h \<Longrightarrow> ok (gbi_deleteBlob gbi p h) (\<lambda>(r, h'). hinv h')"
    and plain_statPath:
      "hinv h \<Longrightarrow> ok (gbi_statPath gbi p mt h) (\<lambda>((b, mt'), h'). hinv h' \<and> (b \<longrightarrow> meta_defined mt'))"
    and plain_open: "hinv h \<Longrightarrow> ok (gbi_open gbi s f p h) (\<lambda>(r, h'). hinv h')"
    and plain_read: "hinv h \<Longrightarrow> ok (gbi_read gbi s off n h) (\<lambda>(r, h'). hinv h')"
    and plain_write: "hinv h \<Longrightarrow> ok (gbi_write gbi s off d h) (\<lambda>(r, h'). hinv h')"
    and plain_writeMeta: "hinv h \<Longrightarrow> ok (gbi_writeMeta gbi s off d h) (\<lambda>(r, h'). hinv h')"
    and plain_commit: "hinv h \<Longrightarrow> ok (gbi_commit gbi s d h) (\<lambda>(r, h'). hinv h')"
    and plain_close: "hinv h \<Longrightarrow> ok (gbi_close gbi s h) (\<lambda>(r, h'). hinv h')"
    and plain_stat:
      "hinv h \<Longrightarrow> ok (gbi_stat gbi s mt h) (\<lambda>((b, mt'), h'). hinv h' \<and> (b \<longrightarrow> meta_defined mt'))"
    and plain_expire: "hinv h \<Longrightarrow> ok (gbi_expire gbi s h) (\<lambda>(r, h'). hinv h')"

definition mon_inv :: "('h \<Rightarrow> bool) \<Rightarrow> 'h \<times> monitor \<Rightarrow> bool" where
  "mon_inv hinv hm \<longleftrightarrow> hinv (fst hm)"

definition mon_live :: "'h \<times> monitor \<Rightarrow> u16 \<rightharpoonup> string \<times> u16" where
  "mon_live hm = mon_sessions (snd hm)"

lemmas monitor_defs = monitored_def watch_def session_with_def session_open_def
  path_accepted_def path_closed_def mon_inv_def mon_live_def

lemma path_closed_iff: "path_closed hm p \<longleftrightarrow> (\<forall>s f. mon_live hm s \<noteq> Some (p, f))"
  by (force simp: path_closed_def mon_live_def ran_def)

sublocale plain_handler \<subseteq> monitored_handler:
  blob_handler "monitored gbi" "mon_inv hinv" mon_live path_accepted
proof unfold_locales
  fix h p
  assume "mon_inv hinv h" and "path_accepted h p" and "\<And>s f. mon_live h s \<noteq> Some (p, f)"
  then show "ok (gbi_deleteBlob (monitored gbi) p h)
      (\<lambda>(b, h'). mon_inv hinv h' \<and> mon_live h' = mon_live h)"
    using plain_deleteBlob [of "fst h" p] path_closed_iff [of h p]
    by (auto simp: monitored_def watch_def mon_inv_def mon_live_def wp elim!: ok_mono)
qed (auto simp: monitor_defs wp intro!: ok_mono [OF plain_canHandleBlob] ok_mono [OF plain_getBlobIds]
    ok_mono [OF plain_statPath] ok_mono [OF plain_open] ok_mono [OF plain_read]
    ok_mono [OF plain_write] ok_mono [OF plain_writeMeta] ok_mono [OF plain_commit]
    ok_mono [OF plain_close] ok_mono [OF plain_stat] ok_mono [OF plain_expire])

context plain_handler
begin

lemma monitored_is_handler: "blob_handler (monitored gbi) (mon_inv hinv) mon_live path_accepted"
  by (rule monitored_handler.blob_handler_axioms)

end

text \<open>The example handler returns normally on every call, contract or not.\<close>

interpretation example_plain: plain_handler ExampleBlobHandler_methods example_inv
proof unfold_locales
  fix h s f p
  assume "example_inv h"
  then show "ok (gbi_open ExampleBlobHandler_methods s f p h) (\<lambda>(r, h'). example_inv h')"
    by (auto simp: Example_open_def Example_canHandleBlob_def example_inv_def new_ExampleBlob_def)
next
  fix h s off d
  assume "example_inv h"
  then show "ok (gbi_write ExampleBlobHandler_methods s off d h) (\<lambda>(r, h'). example_inv h')"
    by (auto simp: Example_write_eq example_inv_def written_inv split: option.split)
qed (auto simp: example_defs Example_read_eq example_inv_def meta_defined_def split: option.splits)

end
