(* ===== verification/Transparency.thy ===== *)
theory Transparency
  imports Contract
begin

unbundle bit_operations_syntax

text \<open>
  The monitor of \<open>Contract\<close> only watches: a manager over monitored handlers that runs
  without tripping a monitor does step by step what the manager over the bare handlers
  does, with the same results. \<open>forget\<close> drops the monitors from a state.

  Together with the safety of the manager over monitored handlers this is the calling
  contract for the real program: for every sequence of calls of the manager's methods, the
  calls that reach the handlers respect the contract. The method calls are the datatype
  \<open>mgr_call\<close>.
\<close>

definition forget :: "('h \<times> monitor) BlobManager \<Rightarrow> 'h BlobManager" where
  "forget m = \<lparr>sessionTimeout = sessionTimeout m, next_session = next_session m, ids = ids m,
     handlers = map fst (handlers m), sessions = sessions m, openFiles = openFiles m,
     openSessions = openSessions m, clock = clock m, cerr = cerr m\<rparr>"

text \<open>\<open>y\<close> does what \<open>x\<close> does, seen through \<open>F\<close>, whenever \<open>x\<close> is defined.\<close>

definition follows :: "('a \<Rightarrow> 'b) \<Rightarrow> 'a option \<Rightarrow> 'b option \<Rightarrow> bool" where
  "follows F x y \<longleftrightarrow> (\<forall>a. x = Some a \<longrightarrow> y = Some (F a))"

lemma follows_Some: "b = F a \<Longrightarrow> follows F (Some a) (Some b)"
  by (simp add: follows_def)

lemma follows_bind:
  "follows G x y \<Longrightarrow> (\<And>a. follows F (f a) (g (G a))) \<Longrightarrow> follows F (x \<bind> f) (y \<bind> g)"
  by (cases x) (auto simp: follows_def)

lemma follows_bind_pair:
  "follows (apsnd G) x y \<Longrightarrow> (\<And>r a. follows F (f r a) (g r (G a))) \<Longrightarrow>
   follows F (x \<bind> (\<lambda>(r, a). f r a)) (y \<bind> (\<lambda>(r, b). g r b))"
  by (cases x) (auto simp: follows_def)

lemma follows_case_option:
  "follows F x y \<Longrightarrow> (\<And>a. follows F (f a) (g a)) \<Longrightarrow>
   follows F (case c of None \<Rightarrow> x | Some a \<Rightarrow> f a) (case c of None \<Rightarrow> y | Some a \<Rightarrow> g a)"
  by (cases c) simp_all

lemma follows_SomeD: "follows F x y \<Longrightarrow> x = Some a \<Longrightarrow> y = Some (F a)"
  by (simp add: follows_def)

lemma follows_if:
  "follows F x y \<Longrightarrow> follows F x' y' \<Longrightarrow> follows F (if c then x else x') (if c then y else y')"
  by simp

lemma forget_sel [simp]:
  "sessionTimeout (forget m) = sessionTimeout m"
  "next_session (forget m) = next_session m"
  "ids (forget m) = ids m"
  "handlers (forget m) = map fst (handlers m)"
  "sessions (forget m) = sessions m"
  "openFiles (forget m) = openFiles m"
  "openSessions (forget m) = openSessions m"
  "clock (forget m) = clock m"
  "cerr (forget m) = cerr m"
  by (simp_all add: forget_def)

lemma forget_upd [simp]:
  "forget (m\<lparr>next_session := n\<rparr>) = (forget m)\<lparr>next_session := n\<rparr>"
  "forget (m\<lparr>ids := l\<rparr>) = (forget m)\<lparr>ids := l\<rparr>"
  "forget (m\<lparr>handlers := hs\<rparr>) = (forget m)\<lparr>handlers := map fst hs\<rparr>"
  "forget (m\<lparr>sessions := T\<rparr>) = (forget m)\<lparr>sessions := T\<rparr>"
  "forget (m\<lparr>openFiles := G\<rparr>) = (forget m)\<lparr>openFiles := G\<rparr>"
  "forget (m\<lparr>openSessions := S\<rparr>) = (forget m)\<lparr>openSessions := S\<rparr>"
  "forget (m\<lparr>clock := c\<rparr>) = (forget m)\<lparr>clock := c\<rparr>"
  "forget (report e m) = report e (forget m)"
  by (simp_all add: forget_def report_def)

lemma forget_views [simp]:
  "file_count (forget m) = file_count m"
  "handler_sessions (forget m) = handler_sessions m"
  by (simp_all add: file_count_def handler_sessions_def fun_eq_iff)

section \<open>Calls of a handler\<close>

lemma follows_watch: "follows (apsnd fst) (watch c f upd hm) (f (fst hm))"
  by (cases "f (fst hm)") (auto simp: watch_def follows_def)

lemma follows_methods:
  "follows (apsnd fst) (gbi_canHandleBlob (monitored gbi) p hm) (gbi_canHandleBlob gbi p (fst hm))"
  "follows (apsnd fst) (gbi_getBlobIds (monitored gbi) hm) (gbi_getBlobIds gbi (fst hm))"
  "follows (apsnd fst) (gbi_deleteBlob (monitored gbi) p hm) (gbi_deleteBlob gbi p (fst hm))"
  "follows (apsnd fst) (gbi_statPath (monitored gbi) p mt hm) (gbi_statPath gbi p mt (fst hm))"
  "follows (apsnd fst) (gbi_open (monitored gbi) s f p hm) (gbi_open gbi s f p (fst hm))"
  "follows (apsnd fst) (gbi_read (monitored gbi) s off n hm) (gbi_read gbi s off n (fst hm))"
  "follows (apsnd fst) (gbi_write (monitored gbi) s off d hm) (gbi_write gbi s off d (fst hm))"
  "follows (apsnd fst) (gbi_writeMeta (monitored gbi) s off d hm) (gbi_writeMeta gbi s off d (fst hm))"
  "follows (apsnd fst) (gbi_commit (monitored gbi) s d hm) (gbi_commit gbi s d (fst hm))"
  "follows (apsnd fst) (gbi_close (monitored gbi) s hm) (gbi_close gbi s (fst hm))"
  "follows (apsnd fst) (gbi_stat (monitored gbi) s mt hm) (gbi_stat gbi s mt (fst hm))"
  "follows (apsnd fst) (gbi_expire (monitored gbi) s hm) (gbi_expire gbi s (fst hm))"
  by (simp_all add: monitored_def follows_watch)

lemma follows_call:
  assumes "\<And>hm. follows (apsnd fst) (f hm) (g (fst hm))"
  shows "follows (apsnd forget) (call_handler i f m) (call_handler i g (forget m))"
proof (cases "i < length (handlers m)")
  case True
  then show ?thesis
    using assms [of "handlers m ! i"]
    by (cases "f (handlers m ! i)") (auto simp: call_handler_def follows_def map_update)
next
  case False
  then show ?thesis by (simp add: call_handler_def follows_def)
qed

lemma follows_calls:
  "follows (apsnd forget) (call_handler i (gbi_deleteBlob (monitored gbi) p) m)
     (call_handler i (gbi_deleteBlob gbi p) (forget m))"
  "follows (apsnd forget) (call_handler i (gbi_statPath (monitored gbi) p mt) m)
     (call_handler i (gbi_statPath gbi p mt) (forget m))"
  "follows (apsnd forget) (call_handler i (gbi_open (monitored gbi) s f p) m)
     (call_handler i (gbi_open gbi s f p) (forget m))"
  "follows (apsnd forget) (call_handler i (gbi_close (monitored gbi) s) m)
     (call_handler i (gbi_close gbi s) (forget m))"
  "follows (apsnd forget) (call_handler i (gbi_expire (monitored gbi) s) m)
     (call_handler i (gbi_expire gbi s) (forget m))"
  by (rule follows_call, rule follows_methods)+

lemma follows_find_handler:
  "follows (apsnd (map fst)) (find_handler (monitored gbi) p hs) (find_handler gbi p (map fst hs))"
proof (induction hs)
  case Nil
  then show ?case by (simp add: follows_def)
next
  case (Cons hm hs)
  show ?case
  proof (cases "gbi_canHandleBlob (monitored gbi) p hm")
    case None
    then show ?thesis by (simp add: follows_def)
  next
    case (Some bh)
    then show ?thesis
      using follows_methods(1) [of gbi p hm] Cons.IH
      by (cases bh; cases "find_handler (monitored gbi) p hs") (auto simp: follows_def)
  qed
qed

lemma follows_collect_ids:
  "follows (apsnd (map fst)) (collect_ids (monitored gbi) hs) (collect_ids gbi (map fst hs))"
proof (induction hs)
  case Nil
  then show ?case by (simp add: follows_def)
next
  case (Cons hm hs)
  show ?case
  proof (cases "gbi_getBlobIds (monitored gbi) hm")
    case None
    then show ?thesis by (simp add: follows_def)
  next
    case (Some lh)
    then show ?thesis
      using follows_methods(2) [of gbi hm] Cons.IH
      by (cases lh; cases "collect_ids (monitored gbi) hs") (auto simp: follows_def)
  qed
qed

section \<open>The helpers of the manager\<close>

lemma forget_getSession_loop:
  "getSession_loop t (forget m) = apsnd forget (getSession_loop t m)"
proof (induction t m rule: getSession_loop.induct)
  case (1 t m)
  show ?case
    using "1.IH" [OF refl refl]
    by (subst (1 2) getSession_loop.simps) (simp add: Let_def)
qed

lemma forget_getSession: "getSession q (forget m) = apsnd forget (getSession q m)"
  by (cases q) (simp_all add: getSession_def forget_getSession_loop)

lemma forget_sessions_at: "sessions_at s (forget m) = apsnd forget (sessions_at s m)"
  by (simp add: sessions_at_def default_SessionInfo_def steady_now_def Let_def split: option.split)

lemma forget_collect_stale:
  "collect_stale now ss (forget m) = apsnd forget (collect_stale now ss m)"
proof (induction ss arbitrary: m)
  case Nil
  then show ?case by simp
next
  case (Cons s ss)
  show ?case
  proof (cases "sessions_at s m")
    case (Pair si m1)
    then show ?thesis
      using Cons.IH [of m1] by (cases "collect_stale now ss m1") (simp add: forget_sessions_at)
  qed
qed

lemma follows_getHandler:
  "follows (apsnd forget) (getHandler (monitored gbi) p m) (getHandler gbi p (forget m))"
  using follows_find_handler [of gbi p "handlers m"]
  by (cases "find_handler (monitored gbi) p (handlers m)") (auto simp: getHandler_def follows_def)

lemma follows_getActionHandler:
  "follows (apsnd forget) (getActionHandler s req m) (getActionHandler s req (forget m))"
  by (auto simp: getActionHandler_def follows_def steady_now_def Let_def bind_eq_Some_conv
      split: option.splits if_splits)

lemma follows_eraseSession: "follows forget (eraseSession i s m) (eraseSession i s (forget m))"
proof (cases "sessions m s")
  case None
  then show ?thesis by (simp add: eraseSession_def follows_Some)
next
  case (Some item)
  show ?thesis
  proof (cases "int_dec (file_count m (blobId item))")
    case None
    then show ?thesis using Some by (simp add: eraseSession_def follows_def)
  next
    case n: (Some n)
    show ?thesis
      by (cases "n = 0") (use Some n in \<open>simp_all add: eraseSession_def follows_Some Let_def\<close>)
  qed
qed

lemma follows_record_session:
  "follows forget (record_session i s f p m) (record_session i s f p (forget m))"
  by (auto simp: record_session_def new_SessionInfo_def default_SessionInfo_def sessions_at_def
      steady_now_def follows_def Let_def bind_eq_Some_conv split: option.splits)

section \<open>The public operations\<close>

lemma follows_expire_sessions:
  "follows forget (expire_sessions (monitored gbi) i ss m) (expire_sessions gbi i ss (forget m))"
proof (induction ss arbitrary: m)
  case Nil
  then show ?case by (simp add: follows_Some)
next
  case (Cons s ss)
  have report: "follows forget (Some (report e m)) (Some (report e (forget m)))" for e m
    by (simp add: follows_Some)
  show ?case
    unfolding expire_sessions.simps forget_upd(8) [symmetric]
    by (intro follows_bind_pair [OF follows_calls(5)]
        follows_bind [OF follows_if [OF follows_eraseSession report]] Cons.IH)
qed

lemma follows_cleanUp:
  "follows forget (cleanUpStaleSessions (monitored gbi) i m) (cleanUpStaleSessions gbi i (forget m))"
proof (cases "openSessions m i")
  case None
  then show ?thesis by (simp add: cleanUpStaleSessions_def follows_Some)
next
  case (Some S)
  obtain E m1 where "collect_stale (clock m 0) (sorted_list_of_set S) (m\<lparr>clock := clock m \<circ> Suc\<rparr>) = (E, m1)"
    by (metis surj_pair)
  then show ?thesis
    using Some forget_collect_stale [of "clock m 0" "sorted_list_of_set S" "m\<lparr>clock := clock m \<circ> Suc\<rparr>"]
    by (simp add: cleanUpStaleSessions_def steady_now_def follows_expire_sessions)
qed

lemma follows_open:
  "follows (apsnd forget) (BlobManager_open (monitored gbi) f p q m) (BlobManager_open gbi f p q (forget m))"
  unfolding BlobManager_open_def
proof (intro follows_bind_pair [OF follows_getHandler] follows_case_option)
  fix i and m1 :: "('a \<times> monitor) BlobManager"
  obtain so m2 where gs: "getSession q m1 = (so, m2)"
    by (metis surj_pair)
  show "follows (apsnd forget)
    (case getSession q m1 of (None, m) \<Rightarrow> Some ((False, None), m)
     | (Some s, m) \<Rightarrow> if \<not> has_flag f read_or_write then Some ((False, Some s), m)
        else do { m \<leftarrow> cleanUpStaleSessions (monitored gbi) i m;
                  (b, m) \<leftarrow> call_handler i (gbi_open (monitored gbi) s f p) m;
                  if \<not> b then Some ((False, Some s), m)
                  else do { m \<leftarrow> record_session i s f p m; Some ((True, Some s), m) } })
    (case getSession q (forget m1) of (None, m) \<Rightarrow> Some ((False, None), m)
     | (Some s, m) \<Rightarrow> if \<not> has_flag f read_or_write then Some ((False, Some s), m)
        else do { m \<leftarrow> cleanUpStaleSessions gbi i m;
                  (b, m) \<leftarrow> call_handler i (gbi_open gbi s f p) m;
                  if \<not> b then Some ((False, Some s), m)
                  else do { m \<leftarrow> record_session i s f p m; Some ((True, Some s), m) } })"
    by (simp only: forget_getSession gs apsnd_conv prod.case, intro follows_case_option follows_if
        follows_bind [OF follows_cleanUp] follows_bind_pair [OF follows_calls(3)]
        follows_bind [OF follows_record_session] follows_Some) simp_all
qed (simp add: follows_Some)

lemma follows_session_call:
  assumes "\<And>hm. follows (apsnd fst) (f hm) (g (fst hm))"
  shows "follows (apsnd forget)
    (do { (found, m) \<leftarrow> getActionHandler s req m;
          case found of None \<Rightarrow> Some (d, m) | Some hp \<Rightarrow> call_handler hp f m })
    (do { (found, m) \<leftarrow> getActionHandler s req (forget m);
          case found of None \<Rightarrow> Some (d, m) | Some hp \<Rightarrow> call_handler hp g m })"
  by (intro follows_bind_pair [OF follows_getActionHandler] follows_case_option
      follows_call assms follows_Some) simp

lemma follows_statPath:
  "follows (apsnd forget) (BlobManager_statPath (monitored gbi) p mt m) (BlobManager_statPath gbi p mt (forget m))"
  unfolding BlobManager_statPath_def
  by (intro follows_bind_pair [OF follows_getHandler] follows_case_option
      follows_calls follows_Some) simp

lemma follows_deleteBlob:
  "follows (apsnd forget) (BlobManager_deleteBlob (monitored gbi) p m) (BlobManager_deleteBlob gbi p (forget m))"
  unfolding BlobManager_deleteBlob_def Let_def
  by (intro follows_bind_pair [OF follows_getHandler] follows_case_option follows_Some;
      simp add: follows_Some flip: forget_upd)
     (intro conjI impI follows_Some follows_calls refl)

lemma follows_close:
  "follows (apsnd forget) (BlobManager_close (monitored gbi) s m) (BlobManager_close gbi s (forget m))"
  unfolding BlobManager_close_def
  by (intro follows_bind_pair [OF follows_getActionHandler] follows_case_option follows_if
      follows_bind_pair [OF follows_calls(4)]
      follows_bind [OF follows_eraseSession] follows_Some) simp_all

lemma follows_buildBlobList:
  "follows (apsnd forget) (buildBlobList (monitored gbi) m) (buildBlobList gbi (forget m))"
  unfolding buildBlobList_def forget_sel
  by (intro follows_bind_pair [OF follows_collect_ids] follows_Some) simp

section \<open>Sequences of calls\<close>

datatype mgr_call =
    CallBuildBlobList | CallGetBlobId u32 | CallOpen u16 string out_ptr
  | CallStatPath string | CallStat u16 | CallCommit u16 bytes | CallClose u16
  | CallRead u16 u32 u32 | CallWrite u16 u32 bytes | CallDeleteBlob string
  | CallWriteMeta u16 u32 bytes

datatype mgr_result =
    Count u32 | BlobId string | Opened "bool \<times> u16 option" | Meta "bool \<times> BlobMeta"
  | Done bool | Data bytes

definition as_result :: "('r \<Rightarrow> mgr_result) \<Rightarrow> ('r \<times> 'm) option \<Rightarrow> (mgr_result \<times> 'm) option" where
  "as_result c x = map_option (apfst c) x"

fun mgr_step ::
    "('h, 'm) ManagerInterface \<Rightarrow> mgr_call \<Rightarrow> 'm \<Rightarrow> (mgr_result \<times> 'm) option" where
  "mgr_step mgr CallBuildBlobList m = as_result Count (mi_buildBlobList mgr m)"
| "mgr_step mgr (CallGetBlobId i) m = as_result BlobId (mi_getBlobId mgr i m)"
| "mgr_step mgr (CallOpen f p q) m = as_result Opened (mi_open mgr f p q m)"
| "mgr_step mgr (CallStatPath p) m = as_result Meta (mi_statPath mgr p uninit_meta m)"
| "mgr_step mgr (CallStat s) m = as_result Meta (mi_stat mgr s uninit_meta m)"
| "mgr_step mgr (CallCommit s d) m = as_result Done (mi_commit mgr s d m)"
| "mgr_step mgr (CallClose s) m = as_result Done (mi_close mgr s m)"
| "mgr_step mgr (CallRead s off n) m = as_result Data (mi_read mgr s off n m)"
| "mgr_step mgr (CallWrite s off d) m = as_result Done (mi_write mgr s off d m)"
| "mgr_step mgr (CallDeleteBlob p) m = as_result Done (mi_deleteBlob mgr p m)"
| "mgr_step mgr (CallWriteMeta s off d) m = as_result Done (mi_writeMeta mgr s off d m)"

fun mgr_run ::
    "('h, 'm) ManagerInterface \<Rightarrow> mgr_call list \<Rightarrow> 'm \<Rightarrow> (mgr_result list \<times> 'm) option" where
  "mgr_run mgr [] m = Some ([], m)"
| "mgr_run mgr (c # cs) m =
     do { (r, m) \<leftarrow> mgr_step mgr c m; (rs, m) \<leftarrow> mgr_run mgr cs m; Some (r # rs, m) }"

lemma ok_as_result [wp]: "ok (as_result c x) Q \<longleftrightarrow> ok x (\<lambda>(r, m). Q (c r, m))"
  by (cases x) (auto simp: as_result_def)

lemma follows_as_result:
  "follows (apsnd F) x y \<Longrightarrow> follows (apsnd F) (as_result c x) (as_result c y)"
  by (cases x) (auto simp: as_result_def follows_def)

context manager_interface
begin

lemma mgr_step_ok: "minv m \<Longrightarrow> ok (mgr_step mgr c m) (\<lambda>(r, m'). minv m')"
  by (cases c) (auto simp: wp intro!: ok_mono [OF buildBlobList_law] ok_mono [OF getBlobId_law]
    ok_mono [OF open_law] ok_mono [OF statPath_law] ok_mono [OF stat_law] ok_mono [OF commit_law]
    ok_mono [OF close_law] ok_mono [OF read_law] ok_mono [OF write_law]
    ok_mono [OF deleteBlob_law] ok_mono [OF writeMeta_law])

lemma mgr_run_ok: "minv m \<Longrightarrow> ok (mgr_run mgr cs m) (\<lambda>(rs, m'). minv m')"
proof (induction cs arbitrary: m)
  case Nil
  then show ?case by simp
next
  case (Cons c cs)
  show ?case
    using mgr_step_ok [OF Cons.prems, of c] Cons.IH by (fastforce simp: wp elim!: ok_mono)
qed

end

lemma follows_step:
  "follows (apsnd forget) (mgr_step (BlobManager_methods (monitored gbi)) c m)
     (mgr_step (BlobManager_methods gbi) c (forget m))"
proof (cases c)
  case (CallGetBlobId i)
  then show ?thesis by (simp add: as_result_def follows_def getBlobId_def)
next
  case (CallStat s)
  then show ?thesis
    unfolding CallStat mgr_step.simps BlobManager_methods_sel BlobManager_stat_def
    by (intro follows_as_result follows_session_call follows_methods)
next
  case (CallCommit s d)
  then show ?thesis
    unfolding CallCommit mgr_step.simps BlobManager_methods_sel BlobManager_commit_def
    by (intro follows_as_result follows_session_call follows_methods)
next
  case (CallRead s off n)
  then show ?thesis
    unfolding CallRead mgr_step.simps BlobManager_methods_sel BlobManager_read_def
    by (intro follows_as_result follows_session_call follows_methods)
next
  case (CallWrite s off d)
  then show ?thesis
    unfolding CallWrite mgr_step.simps BlobManager_methods_sel BlobManager_write_def
    by (intro follows_as_result follows_session_call follows_methods)
next
  case (CallWriteMeta s off d)
  then show ?thesis
    unfolding CallWriteMeta mgr_step.simps BlobManager_methods_sel BlobManager_writeMeta_def
    by (intro follows_as_result follows_session_call follows_methods)
qed (simp_all add: follows_as_result follows_buildBlobList follows_open follows_statPath
    follows_close follows_deleteBlob)

lemma follows_run:
  "follows (apsnd forget) (mgr_run (BlobManager_methods (monitored gbi)) cs m)
     (mgr_run (BlobManager_methods gbi) cs (forget m))"
proof (induction cs arbitrary: m)
  case Nil
  then show ?case by (simp add: follows_Some)
next
  case (Cons c cs)
  show ?case
    unfolding mgr_run.simps
    by (intro follows_bind_pair [OF follows_step] follows_bind_pair [OF Cons.IH] follows_Some) simp
qed

end
