(* ===== verification/Samples.thy ===== *)
theory Samples
  imports System Transparency
begin

unbundle bit_operations_syntax

text \<open>
  Concrete states the witnesses use: a manager that runs the example handler, before and
  after a session has been opened for reading and writing. The clock stands still at 0 and
  the session numbers start at 5.
\<close>

definition demo_crc :: "bytes \<Rightarrow> u16" where
  "demo_crc b = word_of_nat (length b)"

definition demo_handler :: ExampleBlobHandler where
  "demo_handler = createHandler (\<lambda>k i. 0)"

definition demo_start :: "ExampleBlobHandler BlobManager" where
  "demo_start = (new_BlobManager 600 5 (\<lambda>k. 0))\<lparr>handlers := [demo_handler]\<rparr>"

definition demo_blob :: ExampleBlob where
  "demo_blob = \<lparr>eb_sessionId = 5, eb_flags = 3, eb_state = 3, eb_length = 0, eb_buffer = (\<lambda>i. 0)\<rparr>"

definition demo_session :: SessionInfo where
  "demo_session = \<lparr>blobId = supportedPath, handler = Some 0, flags = 3, lastActionTime = 0\<rparr>"

definition demo_open :: "ExampleBlobHandler BlobManager" where
  "demo_open =
     \<lparr>sessionTimeout = 600, next_session = 6, ids = [],
      handlers = [\<lparr>eh_sessions = [5 \<mapsto> demo_blob], eh_uninit = (\<lambda>k i. 0)\<rparr>],
      sessions = [5 \<mapsto> demo_session], openFiles = [supportedPath \<mapsto> 1],
      openSessions = [0 \<mapsto> {5}], clock = (\<lambda>k. 0), cerr = []\<rparr>"

lemmas demo_defs = demo_handler_def demo_start_def demo_blob_def demo_session_def demo_open_def
  new_BlobManager_def createHandler_def

lemma demo_start_handlers: "demo_start = snd (registerHandler (Some demo_handler) (new_BlobManager 600 5 (\<lambda>k. 0)))"
  by (simp add: demo_start_def registerHandler_def new_BlobManager_def)

lemma demo_handler_new: "example_inv demo_handler \<and> example_live demo_handler = Map.empty"
  by (simp add: demo_handler_def createHandler_inv)

lemma demo_start_inv: "mgr_inv example_inv example_live demo_start"
  using example.registerHandler_inv [OF new_BlobManager_inv [of _ _ 600 5 "\<lambda>k. 0"], of demo_handler]
    demo_handler_new
  by (simp add: demo_start_def new_BlobManager_def)

lemma flag_values [simp]:
  "has_flag 3 OpenFlags_read" "has_flag 3 OpenFlags_write" "has_flag 3 read_or_write"
  "has_flag 3 any_flags" "\<not> has_flag 0 read_or_write" "has_flag 2 read_or_write"
  "\<not> has_flag 2 OpenFlags_read" "has_flag 1 read_or_write" "\<not> has_flag 1 OpenFlags_write"
  by (simp_all add: has_flag_def flag_defs any_flags_def)

lemma demo_opens:
  "BlobManager_open ExampleBlobHandler_methods 3 supportedPath out_param demo_start =
     Some ((True, Some 5), demo_open)"
  by (simp add: BlobManager_open_def getHandler_def demo_defs Example_canHandleBlob_def
      getSession_def getSession_loop.simps cleanUpStaleSessions_def call_handler_def Example_open_def
      record_session_def new_SessionInfo_def default_SessionInfo_def sessions_at_def steady_now_def
      handler_sessions_def file_count_def int_inc_def int32_max_def new_ExampleBlob_def flag_defs
      comp_def has_flag_def)

lemma demo_open_inv: "mgr_inv example_inv example_live demo_open"
  using ok_SomeD [OF example.BlobManager_open_ok [OF demo_start_inv] demo_opens] by simp

lemma demo_close:
  "BlobManager_close ExampleBlobHandler_methods 5 demo_open =
     Some (True, demo_start\<lparr>next_session := 6, openSessions := [0 \<mapsto> {}]\<rparr>)"
  by (simp add: BlobManager_close_def getActionHandler_def steady_now_def call_handler_def
      Example_close_def Example_getSession_def eraseSession_def file_count_def handler_sessions_def
      int_dec_def int32_max_def demo_defs comp_def fun_upd_idem)

lemma demo_reachable:
  "reachable demo_crc ExampleBlobHandler_methods
     (\<lambda>h. example_inv h \<and> example_live h = Map.empty) (Some demo_start)"
proof -
  let ?R = "reachable demo_crc ExampleBlobHandler_methods
     (\<lambda>h. example_inv h \<and> example_live h = Map.empty)"
  have "?R (Some (getBlobManager 5 (\<lambda>k. 0) None))"
    by (rule reachable.create [OF reachable.start])
  then have "?R (Some (new_BlobManager 600 5 (\<lambda>k. 0)))"
    by (simp add: getBlobManager_def defaultSessionTimeout_def)
  then show ?thesis
    using demo_handler_new unfolding demo_start_handlers by (rule reachable.register)
qed

text \<open>
  A manager whose session numbers are all taken, and one with a single free number, the one
  just below \<open>next\<close>.
\<close>

definition demo_full :: "ExampleBlobHandler BlobManager" where
  "demo_full =
     \<lparr>sessionTimeout = 600, next_session = 5, ids = [],
      handlers = [\<lparr>eh_sessions = (\<lambda>s. Some (demo_blob\<lparr>eb_sessionId := s\<rparr>)), eh_uninit = (\<lambda>k i. 0)\<rparr>],
      sessions = (\<lambda>s. Some demo_session), openFiles = [supportedPath \<mapsto> 65536],
      openSessions = [0 \<mapsto> UNIV], clock = (\<lambda>k. 1000 * nanoseconds 600), cerr = []\<rparr>"

definition demo_gap :: "ExampleBlobHandler BlobManager" where
  "demo_gap = demo_full\<lparr>sessions := (\<lambda>s. Some demo_session)(4 := None)\<rparr>"

lemma demo_full_inv: "mgr_inv example_inv example_live demo_full"
proof -
  have on: "sessions_on demo_full p = (if p = supportedPath then UNIV else {})" for p
    by (auto simp: sessions_on_def demo_full_def demo_session_def)
  have of: "sessions_of_handler demo_full i = (if i = 0 then UNIV else {})" for i
    by (auto simp: sessions_of_handler_def demo_full_def demo_session_def)
  have "table_inv demo_full"
    by (simp add: table_inv_def demo_full_def demo_session_def)
  moreover have "file_count demo_full p = int (card (sessions_on demo_full p))" for p
    by (simp add: on) (simp add: file_count_def demo_full_def card_word)
  moreover have "handler_sessions demo_full i = sessions_of_handler demo_full i" for i
    by (simp add: of) (simp add: handler_sessions_def demo_full_def)
  moreover have "example_inv (handlers demo_full ! 0)"
    by (simp add: demo_full_def demo_blob_def example_inv_def flag_defs kBufferSize_def)
  moreover have "example_live (handlers demo_full ! 0) = sess_of demo_full 0"
    by (simp add: demo_full_def demo_blob_def demo_session_def example_live_def sess_of_def fun_eq_iff)
  moreover have "length (handlers demo_full) = 1"
    by (simp add: demo_full_def)
  ultimately show ?thesis
    by (simp add: mgr_inv_def index_inv_def)
qed

text \<open>
  The example handler refuses to expire a session. This variant lets it go; with it, the
  session of \<open>demo_old\<close>, just as old as the timeout, expires.
\<close>

definition expiring_methods :: "ExampleBlobHandler GenericBlobInterface" where
  "expiring_methods = ExampleBlobHandler_methods\<lparr>gbi_expire :=
     (\<lambda>s h. Some (True, h\<lparr>eh_sessions := (eh_sessions h)(s := None)\<rparr>))\<rparr>"

interpretation expiring: blob_handler expiring_methods example_inv example_live example_accepts
proof unfold_locales
  fix h s
  assume "example_inv h"
  then show "ok (gbi_expire expiring_methods s h) (\<lambda>(b, h'). example_inv h'
      \<and> example_live h' = (if b then (example_live h)(s := None) else example_live h)
      \<and> (\<forall>p. example_accepts h p \<longrightarrow> example_accepts h' p))"
    by (auto simp: expiring_methods_def example_inv_def example_live_def example_accepts_def fun_eq_iff)
qed (simp_all add: expiring_methods_def del: ExampleBlobHandler_methods_sel add: example.canHandleBlob_law
    example.getBlobIds_law example.deleteBlob_law example.statPath_law example.open_law
    example.read_law example.write_law example.writeMeta_law example.commit_law example.close_law
    example.stat_law)

definition demo_old :: "ExampleBlobHandler BlobManager" where
  "demo_old = demo_open\<lparr>clock := (\<lambda>k. nanoseconds 600)\<rparr>"

lemma demo_old_inv: "mgr_inv example_inv example_live demo_old"
  unfolding demo_old_def by (rule example.minv_clock [OF demo_open_inv])

text \<open>An IPMI daemon whose registration has no effect.\<close>

definition demo_daemon :: "(nat, nat, ExampleBlobHandler, string option) ipmi_daemon" where
  "demo_daemon = \<lparr>prioOemBase = 30, obmcOemNumber = 49871, blobTransferCmd = 128, Privilege_User = 2,
     registerOemHandler = (\<lambda>prio oem cmd priv f d. d)\<rparr>"

end
