(* ===== verification/Manager_Props.thy ===== *)
theory Manager_Props
  imports Samples "HOL-Library.While_Combinator"
begin

unbundle bit_operations_syntax

text \<open>
  The properties of the blob manager: how it hands out session numbers, what opening,
  closing, deleting and expiring do to the session table, which calls reach a handler and
  which one, and the list of blobs. A handler that must not be called is shown not to be
  by replacing its method with one that is undefined everywhere.
\<close>

section \<open>Session numbers\<close>

lemma getSession_loop_find:
  assumes "t < 65535"
  shows "getSession_loop (word_of_nat t) m =
    (case find (\<lambda>k. sessions m (next_session m + word_of_nat k) = None) [0..<65535 - t] of
       None \<Rightarrow> (None, m\<lparr>next_session := next_session m + word_of_nat (65535 - t)\<rparr>)
     | Some k \<Rightarrow> (Some (next_session m + word_of_nat k),
         m\<lparr>next_session := next_session m + word_of_nat k + 1\<rparr>))"
  using assms
proof (induction "65534 - t" arbitrary: t m)
  case 0
  then have t: "t = 65534" by simp
  show ?case
    by (subst getSession_loop.simps) (simp add: t Let_def)
next
  case (Suc j)
  let ?P = "\<lambda>k. sessions m (next_session m + word_of_nat k) = None"
  let ?m1 = "m\<lparr>next_session := next_session m + 1\<rparr>"
  have t: "Suc t < 65535" "j = 65534 - Suc t"
    using Suc.hyps(2) by simp_all
  have guard: "(word_of_nat t :: u16) + 1 < 0xffff"
    using t(1) by (simp add: word_less_nat_alt unat_of_nat flip: of_nat_Suc add.commute [of 1])
  have shift: "[0..<65535 - t] = 0 # map Suc [0..<65535 - Suc t]"
    using t(1) by (metis Suc_diff_Suc Suc_lessD map_Suc_upt upt_conv_Cons zero_less_Suc)
  have find_map: "find Q (map Suc xs) = map_option Suc (find (Q \<circ> Suc) xs)" for Q and xs :: "nat list"
    by (induction xs) simp_all
  have comp: "?P \<circ> Suc = (\<lambda>k. sessions ?m1 (next_session ?m1 + word_of_nat k) = None)"
    by (auto simp: fun_eq_iff add.assoc)
  have head: "find ?P [0..<65535 - t] = (if sessions m (next_session m) = None then Some 0
      else map_option Suc (find (\<lambda>k. sessions ?m1 (next_session ?m1 + word_of_nat k) = None)
        [0..<65535 - Suc t]))"
    unfolding shift find.simps find_map comp by simp
  have last: "next_session m + 1 + word_of_nat (65535 - Suc t) = next_session m + word_of_nat (65535 - t)"
    using t(1) by (metis Suc_diff_Suc Suc_lessD add.assoc of_nat_Suc)
  show ?case
  proof (cases "sessions m (next_session m) = None")
    case True
    then show ?thesis
      unfolding head by (subst getSession_loop.simps) (simp add: Let_def)
  next
    case False
    have "getSession_loop (word_of_nat t) m = getSession_loop (word_of_nat (Suc t)) ?m1"
      using False guard by (subst getSession_loop.simps) (auto simp: Let_def add.commute)
    also have "\<dots> = (case find (\<lambda>k. sessions ?m1 (next_session ?m1 + word_of_nat k) = None) [0..<65535 - Suc t] of
       None \<Rightarrow> (None, ?m1\<lparr>next_session := next_session ?m1 + word_of_nat (65535 - Suc t)\<rparr>)
     | Some k \<Rightarrow> (Some (next_session ?m1 + word_of_nat k),
         ?m1\<lparr>next_session := next_session ?m1 + word_of_nat k + 1\<rparr>))"
      by (rule Suc.hyps(1) [OF t(2,1)])
    finally show ?thesis
      unfolding head if_not_P [OF False]
      using last by (simp add: add.assoc add.left_commute split: option.split)
  qed
qed

lemma getSession_find:
  "getSession out_param m =
    (case find (\<lambda>k. sessions m (next_session m + word_of_nat k) = None) [0..<65535] of
       None \<Rightarrow> (None, m\<lparr>next_session := next_session m + 65535\<rparr>)
     | Some k \<Rightarrow> (Some (next_session m + word_of_nat k),
         m\<lparr>next_session := next_session m + word_of_nat k + 1\<rparr>))"
proof -
  have "(0 :: nat) < 65535"
    by simp
  from getSession_loop_find [OF this, of m] show ?thesis
    by (simp only: getSession_def out_ptr.case semiring_1_class.of_nat_0 diff_zero of_nat_numeral)
qed

lemma find_upt_Some:
  "find P [0..<n] = Some k \<longleftrightarrow> k < n \<and> P k \<and> (\<forall>j < k. \<not> P j)"
  by (auto simp: find_Some_iff)

lemma find_upt_None: "find P [0..<n] = None \<longleftrightarrow> (\<forall>k < n. \<not> P k)"
  by (auto simp: find_None_iff)

lemma numbers_tried:
  fixes n s :: u16
  shows "(\<exists>k < 65535. s = n + word_of_nat k) \<longleftrightarrow> s \<noteq> n - 1"
proof
  assume "s \<noteq> n - 1"
  moreover have "s = n + word_of_nat (unat (s - n))"
    by simp
  moreover have "unat (s - n) < 65536"
    using unsigned_less [of "s - n", where 'a = nat] by simp
  moreover have "unat (s - n) \<noteq> 65535"
  proof
    assume "unat (s - n) = 65535"
    then have "s - n = - 1"
      by (simp add: word_unat_eq_iff unsigned_minus_1_eq_mask mask_eq_exp_minus_1)
    then show False
      using \<open>s \<noteq> n - 1\<close> by (simp add: diff_eq_eq)
  qed
  ultimately have "unat (s - n) < 65535"
    by linarith
  then show "\<exists>k < 65535. s = n + word_of_nat k"
    using \<open>s = n + word_of_nat (unat (s - n))\<close> by blast
next
  assume "\<exists>k < 65535. s = n + word_of_nat k"
  then obtain k where k: "k < 65535" "s = n + word_of_nat k"
    by blast
  have "word_of_nat k \<noteq> (- 1 :: u16)"
  proof
    assume "word_of_nat k = (- 1 :: u16)"
    then have "unat (word_of_nat k :: u16) = unat (- 1 :: u16)"
      by simp
    then show False
      using k(1) by (simp add: unat_of_nat unsigned_minus_1_eq_mask mask_eq_exp_minus_1)
  qed
  then show "s \<noteq> n - 1"
    using k(2) by (metis add_left_cancel add_uminus_conv_diff)
qed

text \<open>
  C23: \<open>getSession\<close> succeeds exactly when one of 65535 consecutive numbers from \<open>next\<close> on
  is free, returns the first of those, leaves \<open>next\<close> one past it and changes nothing else.
\<close>

theorem getSession_first_free:
  "getSession out_param m = (Some s, m') \<longleftrightarrow>
     (\<exists>k < 65535. s = next_session m + word_of_nat k \<and> sessions m s = None
        \<and> (\<forall>j < k. sessions m (next_session m + word_of_nat j) \<noteq> None)
        \<and> m' = m\<lparr>next_session := s + 1\<rparr>)"
proof -
  let ?F = "find (\<lambda>k. sessions m (next_session m + word_of_nat k) = None) [0..<65535]"
  have "getSession out_param m = (Some s, m') \<longleftrightarrow> (\<exists>k. ?F = Some k
      \<and> s = next_session m + word_of_nat k \<and> m' = m\<lparr>next_session := s + 1\<rparr>)"
    unfolding getSession_find by (cases ?F) (simp_all only: option.case prod.inject option.inject, auto)
  then show ?thesis
    unfolding find_upt_Some by auto
qed

lemma getSession_first_free_witness:
  "getSession out_param demo_start = (Some 5, demo_start\<lparr>next_session := 6\<rparr>)"
  using getSession_first_free [of demo_start 5 "demo_start\<lparr>next_session := 6\<rparr>"]
  by (auto simp: demo_defs intro!: exI [where x = 0])

lemma getSession_some:
  assumes "sessions m s = None" and "s \<noteq> next_session m - 1"
  shows "\<exists>s'. fst (getSession out_param m) = Some s'"
proof -
  let ?P = "\<lambda>k. sessions m (next_session m + word_of_nat k) = None"
  obtain k where "k < 65535" "?P k"
    using assms numbers_tried [of s "next_session m"] by blast
  then have "find ?P [0..<65535] \<noteq> None"
    by (simp only: find_upt_None) blast
  then show ?thesis
    unfolding getSession_find by (cases "find ?P [0..<65535]") (simp_all only: option.case fst_conv, auto)
qed

text \<open>
  The loop of \<open>getSession\<close> once more, as a loop that might run forever: \<open>while_option\<close> is
  \<open>None\<close> if it does. The \<open>do\<close>-\<open>while\<close> body runs as long as the state is \<open>Searching\<close>.
\<close>

datatype search = Searching u16 | Found u16 | GaveUp

fun searching :: "search \<times> 'h BlobManager \<Rightarrow> bool" where
  "searching (Searching tries, m) \<longleftrightarrow> True"
| "searching (_, m) \<longleftrightarrow> False"

fun getSession_body :: "search \<times> 'h BlobManager \<Rightarrow> search \<times> 'h BlobManager" where
  "getSession_body (Searching tries, m) =
     (let lsess = next_session m;
          m = m\<lparr>next_session := lsess + 1\<rparr> in
      if sessions m lsess = None then (Found lsess, m)
      else (let tries = tries + 1 in
            if tries < 0xffff then (Searching tries, m) else (GaveUp, m)))"
| "getSession_body st = st"

definition getSession_while :: "'h BlobManager \<Rightarrow> (search \<times> 'h BlobManager) option" where
  "getSession_while m = while_option searching getSession_body (Searching 0, m)"

definition search_result :: "u16 option \<times> 'h BlobManager \<Rightarrow> search \<times> 'h BlobManager" where
  "search_result rm = (case fst rm of None \<Rightarrow> GaveUp | Some s \<Rightarrow> Found s, snd rm)"

lemma not_searching_result [simp]: "\<not> searching (search_result rm)"
  by (cases rm) (simp add: search_result_def split: option.split)

lemma getSession_body_iterates:
  assumes "t < 65535"
  shows "\<exists>k. 0 < k \<and> k \<le> 65535 - t
    \<and> (\<forall>j < k. searching ((getSession_body ^^ j) (Searching (word_of_nat t), m)))
    \<and> (getSession_body ^^ k) (Searching (word_of_nat t), m) =
        search_result (getSession_loop (word_of_nat t) m)"
  using assms
proof (induction "65534 - t" arbitrary: t m)
  case 0
  then have t: "t = 65534" by simp
  show ?case
    by (rule exI [where x = 1], subst getSession_loop.simps)
       (simp add: t Let_def search_result_def)
next
  case (Suc j)
  let ?m1 = "m\<lparr>next_session := next_session m + 1\<rparr>"
  have t: "Suc t < 65535" "j = 65534 - Suc t"
    using Suc.hyps(2) by simp_all
  have guard: "(word_of_nat t :: u16) + 1 < 0xffff"
    using t(1) by (simp add: word_less_nat_alt unat_of_nat flip: of_nat_Suc add.commute [of 1])
  show ?case
  proof (cases "sessions m (next_session m) = None")
    case True
    then show ?thesis
      by (intro exI [where x = 1], subst getSession_loop.simps)
         (use t(1) in \<open>simp add: Let_def search_result_def\<close>)
  next
    case False
    have step: "getSession_body (Searching (word_of_nat t), m) = (Searching (word_of_nat (Suc t)), ?m1)"
      using False guard by (simp add: Let_def add.commute)
    have loop: "getSession_loop (word_of_nat t) m = getSession_loop (word_of_nat (Suc t)) ?m1"
      using False guard by (subst getSession_loop.simps) (auto simp: Let_def add.commute)
    obtain k where k: "0 < k" "k \<le> 65535 - Suc t"
      "\<forall>j < k. searching ((getSession_body ^^ j) (Searching (word_of_nat (Suc t)), ?m1))"
      "(getSession_body ^^ k) (Searching (word_of_nat (Suc t)), ?m1) =
        search_result (getSession_loop (word_of_nat (Suc t)) ?m1)"
      using Suc.hyps(1) [OF t(2,1)] by blast
    have shift: "(getSession_body ^^ Suc i) (Searching (word_of_nat t), m) =
        (getSession_body ^^ i) (Searching (word_of_nat (Suc t)), ?m1)" for i
      by (simp only: funpow_Suc_right comp_apply step)
    have "searching ((getSession_body ^^ i) (Searching (word_of_nat t), m))" if "i < Suc k" for i
      using that k(3) shift by (cases i) (simp_all del: funpow.simps(2))
    then show ?thesis
      using k(2,4) t(1) loop shift [of k] by (intro exI [where x = "Suc k"]) (simp del: funpow.simps(2))
  qed
qed

text \<open>
  C24: The search for a session number ends. Whatever the table holds, the body of the loop
  runs at least once and at most 65535 times, as the 16-bit counter goes up in every round;
  the loop then has the result of \<open>getSession\<close>.
\<close>

theorem getSession_terminates:
  "getSession_while m = Some (search_result (getSession out_param m))
   \<and> (\<exists>k. 0 < k \<and> k \<le> 65535
        \<and> (\<forall>j < k. searching ((getSession_body ^^ j) (Searching 0, m)))
        \<and> (getSession_body ^^ k) (Searching 0, m) = search_result (getSession out_param m))"
proof -
  obtain k where k: "0 < k" "k \<le> 65535"
    "\<forall>j < k. searching ((getSession_body ^^ j) (Searching 0, m))"
    "(getSession_body ^^ k) (Searching 0, m) = search_result (getSession out_param m)"
    using getSession_body_iterates [of 0 m] by (auto simp: getSession_def)
  have "(LEAST i. \<not> searching ((getSession_body ^^ i) (Searching 0, m))) = k"
    using k(3,4) by (intro Least_equality) (simp, meson not_less)
  moreover have "\<exists>i. \<not> searching ((getSession_body ^^ i) (Searching 0, m))"
    using k(4) by (metis not_searching_result)
  ultimately have "getSession_while m = Some (search_result (getSession out_param m))"
    using k(4) by (simp add: getSession_while_def while_option_def)
  then show ?thesis
    using k by blast
qed

lemma getSession_terminates_witness:
  "getSession_while demo_start = Some (Found 5, demo_start\<lparr>next_session := 6\<rparr>)"
  using getSession_terminates [of demo_start]
  by (simp add: search_result_def getSession_def getSession_loop.simps demo_defs Let_def)

lemma getSession_tried:
  assumes "\<And>s. s \<noteq> next_session m - 1 \<Longrightarrow> sessions m s \<noteq> None"
  shows "getSession out_param m = (None, m\<lparr>next_session := next_session m - 1\<rparr>)"
proof -
  have "sessions m (next_session m + word_of_nat k) \<noteq> None" if "k < 65535" for k
    using assms numbers_tried [of "next_session m + word_of_nat k" "next_session m"] that by blast
  then have "find (\<lambda>k. sessions m (next_session m + word_of_nat k) = None) [0..<65535] = None"
    by (simp only: find_upt_None) blast
  then show ?thesis
    unfolding getSession_find by (simp only: option.case) simp
qed

text \<open>
  C36: The search stops one number short. With a single free session number left, the one
  just below \<open>next\<close>, \<open>getSession\<close> reports that there is none; \<open>next\<close> then stands at
  that number.
\<close>

theorem getSession_misses_last:
  assumes "sessions m (next_session m - 1) = None"
    and "\<forall>s. s \<noteq> next_session m - 1 \<longrightarrow> sessions m s \<noteq> None"
  shows "getSession out_param m = (None, m\<lparr>next_session := next_session m - 1\<rparr>)"
  using assms(2) by (intro getSession_tried) blast

lemma getSession_misses_last_witness:
  "sessions demo_gap 4 = None \<and> getSession out_param demo_gap = (None, demo_gap\<lparr>next_session := 4\<rparr>)"
proof -
  have "next_session demo_gap = 5" "sessions demo_gap = (\<lambda>s. Some demo_session)(4 := None)"
    by (simp_all add: demo_gap_def demo_full_def)
  then show ?thesis
    using getSession_misses_last [of demo_gap] by simp
qed

section \<open>Opening\<close>

lemma find_handler_cong:
  "gbi_canHandleBlob g = gbi_canHandleBlob gbi \<Longrightarrow> find_handler g p hs = find_handler gbi p hs"
  by (induction hs) (simp_all cong: if_cong)

lemma getHandler_cong:
  "gbi_canHandleBlob g = gbi_canHandleBlob gbi \<Longrightarrow> getHandler g p m = getHandler gbi p m"
  by (simp add: getHandler_def find_handler_cong [of g gbi])

text \<open>
  C15: A successful \<open>open\<close> returns a session number that was free, records under it the
  path, the flags and a registered handler, and keeps the invariant, so the handler has the
  same session in its table. The only other change to the session table is that sessions
  whose last use is at least the timeout ago can be gone.
\<close>

theorem open_records_session:
  assumes "blob_handler gbi hinv live accepts" and "mgr_inv hinv live m"
    and "BlobManager_open gbi f p q m = Some ((True, so), m')"
  shows "mgr_inv hinv live m' \<and> has_flag f read_or_write
    \<and> (\<exists>s i t. so = Some s \<and> sessions m s = None \<and> i < length (handlers m')
         \<and> sessions m' s = Some \<lparr>blobId = p, handler = Some i, flags = f, lastActionTime = t\<rparr>
         \<and> live (handlers m' ! i) s = Some (p, f)
         \<and> (\<forall>s'. s' \<noteq> s \<longrightarrow> sessions m' s' = sessions m s'
              \<or> stale (clock m 0) m s' \<and> sessions m' s' = None))"
proof -
  note o = ok_SomeD [OF blob_handler.BlobManager_open_ok [OF assms(1,2)] assms(3), simplified]
  obtain s where so: "so = Some s"
    using o by blast
  obtain i t where i: "i < length (handlers m)"
    and s: "sessions m' s = Some \<lparr>blobId = p, handler = Some i, flags = f, lastActionTime = t\<rparr>"
    using o so by metis
  have i': "i < length (handlers m')"
    using i o by (simp add: same_config_def)
  then have "live (handlers m' ! i) s = Some (p, f)"
    using mgr_inv_live [of hinv live m' i] o s by (simp add: sess_of_def)
  moreover have "only_expired m m' s'" if "s' \<noteq> s" for s'
    using o so that by (metis option.inject)
  ultimately show ?thesis
    using o so s i' unfolding only_expired_def by blast
qed

lemma open_records_session_witness:
  "mgr_inv example_inv example_live demo_open \<and> has_flag 3 read_or_write \<and>
   (\<exists>t. sessions demo_open 5 =
      Some \<lparr>blobId = supportedPath, handler = Some 0, flags = 3, lastActionTime = t\<rparr>)"
  using open_records_session [OF example.blob_handler_axioms demo_start_inv demo_opens]
  by (simp add: demo_open_def demo_session_def)

text \<open>
  Opening for neither reading nor writing fails, without a call of the handler's \<open>open\<close>
  or \<open>expire\<close> and without any effect on the session maps.
\<close>

theorem open_needs_flag:
  assumes "blob_handler gbi hinv live accepts" and "mgr_inv hinv live m"
    and "\<not> has_flag f OpenFlags_read" and "\<not> has_flag f OpenFlags_write"
  shows "ok (BlobManager_open (gbi\<lparr>gbi_open := \<lambda>s f p h. None, gbi_expire := \<lambda>s h. None\<rparr>) f p q m)
    (\<lambda>((b, so), m'). \<not> b \<and> sessions m' = sessions m \<and> openFiles m' = openFiles m
       \<and> openSessions m' = openSessions m \<and> mgr_inv hinv live m')"
proof -
  let ?g = "gbi\<lparr>gbi_open := \<lambda>s f p h. None, gbi_expire := \<lambda>s h. None\<rparr>"
  have f: "\<not> has_flag f read_or_write"
    using assms(3,4) by (simp add: has_flag_read_or_write)
  obtain r m1 hs where gh: "getHandler ?g p m = Some (r, m1)" and m1: "mgr_inv hinv live m1"
    "m1 = m\<lparr>handlers := hs\<rparr>"
    using blob_handler.getHandler_ok [OF assms(1,2), of p] getHandler_cong [of ?g gbi]
    by (auto elim!: ok_pairE)
  obtain so n where gs: "getSession q m1 = (so, m1\<lparr>next_session := n\<rparr>)"
    using getSession_frame [of q m1] by (cases "getSession q m1") blast
  have "mgr_inv hinv live (m1\<lparr>next_session := n\<rparr>)"
    by (rule blob_handler.minv_cong [OF assms(1) m1(1)]) simp_all
  then show ?thesis
    using gh gs f m1 by (auto simp: BlobManager_open_def split: option.split)
qed

lemma open_needs_flag_witness:
  "ok (BlobManager_open (ExampleBlobHandler_methods\<lparr>gbi_open := \<lambda>s f p h. None,
       gbi_expire := \<lambda>s h. None\<rparr>) 0 supportedPath out_param demo_open)
    (\<lambda>((b, so), m'). \<not> b \<and> sessions m' = sessions demo_open \<and> openFiles m' = openFiles demo_open
       \<and> openSessions m' = openSessions demo_open \<and> mgr_inv example_inv example_live m')"
  by (rule open_needs_flag [OF example.blob_handler_axioms demo_open_inv])
     (simp_all add: has_flag_def)

text \<open>
  C37: The stale sessions are cleaned up after a session number has been found. On a full
  table \<open>open\<close> therefore fails without asking a handler to expire anything, however old the
  sessions are.
\<close>

theorem open_full_table_fails:
  assumes "blob_handler gbi hinv live accepts" and "mgr_inv hinv live m"
    and "\<forall>s. sessions m s \<noteq> None"
  shows "ok (BlobManager_open (gbi\<lparr>gbi_open := \<lambda>s f p h. None, gbi_expire := \<lambda>s h. None\<rparr>) f p q m)
    (\<lambda>((b, so), m'). \<not> b \<and> so = None \<and> sessions m' = sessions m)"
proof -
  let ?g = "gbi\<lparr>gbi_open := \<lambda>s f p h. None, gbi_expire := \<lambda>s h. None\<rparr>"
  obtain r m1 hs where gh: "getHandler ?g p m = Some (r, m1)" and m1: "m1 = m\<lparr>handlers := hs\<rparr>"
    using blob_handler.getHandler_ok [OF assms(1,2), of p] getHandler_cong [of ?g gbi]
    by (auto elim!: ok_pairE)
  have "fst (getSession q m1) = None"
    using getSession_tried [of m1] assms(3) by (cases q) (simp_all add: m1 getSession_def)
  then obtain n where "getSession q m1 = (None, m1\<lparr>next_session := n\<rparr>)"
    using getSession_frame [of q m1] by (cases "getSession q m1") fastforce
  then show ?thesis
    using gh m1 by (auto simp: BlobManager_open_def split: option.split)
qed

lemma open_full_table_fails_witness:
  "(\<forall>s. stale (clock demo_full 0) demo_full s) \<and>
   ok (BlobManager_open (ExampleBlobHandler_methods\<lparr>gbi_open := \<lambda>s f p h. None,
       gbi_expire := \<lambda>s h. None\<rparr>) 3 supportedPath out_param demo_full)
    (\<lambda>((b, so), m'). \<not> b \<and> so = None \<and> sessions m' = sessions demo_full)"
proof
  show "\<forall>s. stale (clock demo_full 0) demo_full s"
    by (simp add: stale_def demo_full_def demo_session_def nanoseconds_def)
  show "ok (BlobManager_open (ExampleBlobHandler_methods\<lparr>gbi_open := \<lambda>s f p h. None,
       gbi_expire := \<lambda>s h. None\<rparr>) 3 supportedPath out_param demo_full)
    (\<lambda>((b, so), m'). \<not> b \<and> so = None \<and> sessions m' = sessions demo_full)"
    by (rule open_full_table_fails [OF example.blob_handler_axioms demo_full_inv])
       (simp add: demo_full_def)
qed

section \<open>Expiring\<close>

lemma call_handler_sessions:
  "call_handler i f m = Some (r, m') \<Longrightarrow> sessions m' = sessions m"
  by (auto simp: call_handler_def bind_eq_Some_conv split: if_splits)

lemma eraseSession_frame:
  "eraseSession i s m = Some m' \<Longrightarrow>
     handlers m' = handlers m \<and> next_session m' = next_session m \<and> ids m' = ids m"
  by (auto simp: eraseSession_def Let_def bind_eq_Some_conv split: option.splits if_splits)

lemma record_session_frame:
  "record_session i s f p m = Some m' \<Longrightarrow>
     handlers m' = handlers m \<and> next_session m' = next_session m \<and> ids m' = ids m"
  by (auto simp: record_session_def new_SessionInfo_def default_SessionInfo_def sessions_at_def
      steady_now_def Let_def bind_eq_Some_conv split: option.splits)

lemma eraseSession_sessions:
  "eraseSession i s m = Some m' \<Longrightarrow> sessions m' = (sessions m)(s := None)"
  by (auto simp: eraseSession_def Let_def bind_eq_Some_conv fun_upd_idem split: option.splits)

lemma eraseSession_cerr: "eraseSession i s m = Some m' \<Longrightarrow> cerr m' = cerr m"
  by (auto simp: eraseSession_def Let_def bind_eq_Some_conv split: option.splits if_splits)

text \<open>The messages about the sessions \<open>ss\<close>, of which those of \<open>R\<close> were refused.\<close>

definition expiry_log :: "u16 set \<Rightarrow> u16 list \<Rightarrow> message list" where
  "expiry_log R ss = concat (map (\<lambda>s.
     ExpiringStaleSession s # (if s \<in> R then [FailedToExpireSession s] else [])) ss)"

lemma expiry_log_simps [simp]:
  "expiry_log R [] = []"
  "expiry_log R (s # ss) =
     ExpiringStaleSession s # (if s \<in> R then [FailedToExpireSession s] else []) @ expiry_log R ss"
  by (simp_all add: expiry_log_def)

lemma expiry_log_insert [simp]: "s \<notin> set ss \<Longrightarrow> expiry_log (insert s R) ss = expiry_log R ss"
  by (induction ss) auto

lemma expire_sessions_reports:
  assumes "expire_sessions gbi i ss m = Some m'" and "distinct ss"
  shows "\<exists>R \<subseteq> set ss. cerr m' = cerr m @ expiry_log R ss
    \<and> sessions m' = sessions m |` (- (set ss - R))
    \<and> ((\<forall>s h h'. gbi_expire gbi s h \<noteq> Some (False, h')) \<longrightarrow> R = {})"
  using assms
proof (induction ss arbitrary: m)
  case Nil
  then show ?case by simp
next
  case (Cons s ss)
  let ?r = "report (ExpiringStaleSession s) m"
  obtain b h' m2 where b: "gbi_expire gbi s (handlers m ! i) = Some (b, h')"
    and m2: "(if b then eraseSession i s (?r\<lparr>handlers := (handlers m)[i := h']\<rparr>)
       else Some (report (FailedToExpireSession s) (?r\<lparr>handlers := (handlers m)[i := h']\<rparr>))) = Some m2"
    and eq: "expire_sessions gbi i ss m2 = Some m'"
    using Cons.prems(1) by (auto simp: call_handler_def bind_eq_Some_conv split: if_splits)
  obtain R where R: "R \<subseteq> set ss" "cerr m' = cerr m2 @ expiry_log R ss"
    "sessions m' = sessions m2 |` (- (set ss - R))"
    "(\<forall>s h h'. gbi_expire gbi s h \<noteq> Some (False, h')) \<longrightarrow> R = {}"
    using Cons.IH [OF eq] Cons.prems(2) by auto
  have s: "s \<notin> set ss" "s \<notin> R"
    using Cons.prems(2) R(1) by auto
  show ?case
  proof (cases b)
    case True
    then have "sessions m2 = (sessions m)(s := None)" "cerr m2 = cerr m @ [ExpiringStaleSession s]"
      using m2 eraseSession_sessions [of i s _ m2] eraseSession_cerr [of i s _ m2] by auto
    then show ?thesis
      using R s by (intro exI [where x = R]) (auto simp: restrict_map_def fun_eq_iff)
  next
    case False
    then have "sessions m2 = sessions m"
      "cerr m2 = cerr m @ [ExpiringStaleSession s, FailedToExpireSession s]"
      using m2 by auto
    then show ?thesis
      using R s b False
      by (intro exI [where x = "insert s R"]) (auto simp: restrict_map_def fun_eq_iff)
  qed
qed

text \<open>
  Cleaning up for a handler can only remove sessions of that handler whose last use is
  at least the timeout ago. Every other session stays as it is, and so does the invariant:
  the handler and the manager agree on which of the stale sessions are gone.
\<close>

theorem cleanup_only_stale:
  assumes "blob_handler gbi hinv live accepts" and "mgr_inv hinv live m" and "i < length (handlers m)"
  shows "ok (cleanUpStaleSessions gbi i m) (\<lambda>m'. mgr_inv hinv live m'
    \<and> (\<forall>s si. sessions m s = Some si \<longrightarrow> sessions m' s = Some si \<or>
         sessions m' s = None \<and> handler si = Some i
         \<and> clock m 0 - lastActionTime si \<ge> nanoseconds (sessionTimeout m))
    \<and> dom (sessions m') \<subseteq> dom (sessions m))"
proof (rule ok_mono [OF blob_handler.cleanUpStaleSessions_ok [OF assms]], elim conjE, intro conjI)
  fix m' :: "'a BlobManager"
  assume *: "\<forall>s. sessions m' s = sessions m s \<or>
    s \<in> sessions_of_handler m i \<and> stale (clock m 0) m s \<and> sessions m' s = None"
  show "\<forall>s si. sessions m s = Some si \<longrightarrow> sessions m' s = Some si \<or>
      sessions m' s = None \<and> handler si = Some i
      \<and> clock m 0 - lastActionTime si \<ge> nanoseconds (sessionTimeout m)"
  proof (intro allI impI)
    fix s si
    assume "sessions m s = Some si"
    then show "sessions m' s = Some si \<or> sessions m' s = None \<and> handler si = Some i
        \<and> clock m 0 - lastActionTime si \<ge> nanoseconds (sessionTimeout m)"
      using * [rule_format, of s] by (auto simp: sessions_of_handler_def stale_def)
  qed
  show "dom (sessions m') \<subseteq> dom (sessions m)"
    using * by (metis domIff subsetI)
qed

lemma cleanup_only_stale_witness:
  "\<exists>m'. cleanUpStaleSessions expiring_methods 0 demo_old = Some m'
    \<and> mgr_inv example_inv example_live m' \<and> dom (sessions m') \<subseteq> {5}"
proof -
  have "0 < length (handlers demo_old)" and "dom (sessions demo_old) = {5}"
    by (simp_all add: demo_old_def demo_open_def)
  then show ?thesis
    using cleanup_only_stale [OF expiring.blob_handler_axioms demo_old_inv, of 0] by (auto simp: ok_iff)
qed

lemma cleanUp_reports:
  assumes inv: "index_inv m" and eq: "cleanUpStaleSessions gbi i m = Some m'"
    and S: "S = {s \<in> sessions_of_handler m i. stale (clock m 0) m s}"
  shows "\<exists>R \<subseteq> S. cerr m' = cerr m @ expiry_log R (sorted_list_of_set S)
    \<and> sessions m' = sessions m |` (- (S - R))
    \<and> ((\<forall>s h h'. gbi_expire gbi s h \<noteq> Some (False, h')) \<longrightarrow> R = {})"
proof (cases "openSessions m i")
  case None
  then have "sessions_of_handler m i = {}"
    using inv by (simp add: index_inv_def handler_sessions_def) (metis option.simps(4))
  then show ?thesis
    using eq None S by (simp add: cleanUpStaleSessions_def restrict_map_def)
next
  case (Some P)
  then show ?thesis
    using eq expire_sessions_reports [of gbi i "sorted_list_of_set S" "m\<lparr>clock := clock m \<circ> Suc\<rparr>" m']
    by (simp add: cleanUpStaleSessions_eq [OF inv] flip: S)
qed

lemma cleanUp_gone:
  assumes "index_inv m" and "\<And>s h h'. gbi_expire gbi s h \<noteq> Some (False, h')"
    and "cleanUpStaleSessions gbi i m = Some m'"
  shows "sessions m' = sessions m |` (- {s \<in> sessions_of_handler m i. stale (clock m 0) m s})"
  using cleanUp_reports [OF assms(1,3) refl] assms(2) by auto

text \<open>
  C20: Cleaning up tries to expire exactly the sessions of the handler whose last use is at
  least the timeout ago, reports each of them once, in ascending order, and removes all of
  them but the set \<open>R\<close> of those that the handler refused, each of which is reported too.
  With a handler that never refuses no stale session is left.
\<close>

theorem cleanup_removes_stale:
  assumes "blob_handler gbi hinv live accepts" and "mgr_inv hinv live m" and "i < length (handlers m)"
    and "stale_ones = {s \<in> sessions_of_handler m i. stale (clock m 0) m s}"
  shows "\<exists>m' R. cleanUpStaleSessions gbi i m = Some m' \<and> mgr_inv hinv live m'
    \<and> R \<subseteq> stale_ones \<and> sessions m' = sessions m |` (- (stale_ones - R))
    \<and> cerr m' = cerr m @ expiry_log R (sorted_list_of_set stale_ones)
    \<and> ((\<forall>s h h'. gbi_expire gbi s h \<noteq> Some (False, h')) \<longrightarrow> R = {})"
proof -
  obtain m' where eq: "cleanUpStaleSessions gbi i m = Some m'" "mgr_inv hinv live m'"
    using blob_handler.cleanUpStaleSessions_ok [OF assms(1-3)] by blast
  then show ?thesis
    using cleanUp_reports [OF mgr_inv_index [OF assms(2)] eq(1) assms(4)] by blast
qed

lemma cleanup_removes_stale_witness:
  "\<exists>m'. cleanUpStaleSessions expiring_methods 0 demo_old = Some m' \<and> sessions m' = Map.empty
    \<and> cerr m' = [ExpiringStaleSession 5]"
proof -
  have S: "{5} = {s \<in> sessions_of_handler demo_old 0. stale (clock demo_old 0) demo_old s}"
    by (auto simp: demo_old_def demo_open_def sessions_of_handler_def stale_def demo_session_def
        split: if_splits)
  have never: "\<forall>s h h'. gbi_expire expiring_methods s h \<noteq> Some (False, h')"
    by (simp add: expiring_methods_def)
  obtain m' where "cleanUpStaleSessions expiring_methods 0 demo_old = Some m'"
    "sessions m' = sessions demo_old |` (- {5})" "cerr m' = cerr demo_old @ [ExpiringStaleSession 5]"
    using cleanup_removes_stale [OF expiring.blob_handler_axioms demo_old_inv _ S] never
    by (auto simp: demo_old_def demo_open_def)
  then show ?thesis
    by (auto simp: demo_old_def demo_open_def restrict_map_def)
qed

text \<open>A session used less than the timeout ago survives every \<open>open\<close>, successful or not, unchanged.\<close>

lemma open_keeps_recent:
  assumes "blob_handler gbi hinv live accepts" and "mgr_inv hinv live m"
    and "sessions m s = Some si"
    and "clock m 0 - lastActionTime si < nanoseconds (sessionTimeout m)"
    and "BlobManager_open gbi f p q m = Some ((b, so), m')"
  shows "sessions m' s = Some si"
proof -
  note o = ok_SomeD [OF blob_handler.BlobManager_open_ok [OF assms(1,2)] assms(5), simplified]
  have "so \<noteq> Some s"
    using o assms(3) by auto
  then have "only_expired m m' s"
    using o by metis
  then show ?thesis
    using assms(3,4) by (auto simp: only_expired_def stale_def)
qed

lemma record_session_sessions:
  assumes "record_session i s f p m = Some m'" and "s' \<noteq> s"
  shows "sessions m' s' = sessions m s'"
  using assms by (auto simp: record_session_def new_SessionInfo_def default_SessionInfo_def sessions_at_def
      steady_now_def bind_eq_Some_conv Let_def split: option.splits)

text \<open>
  C21: A successful \<open>open\<close> of a path frees every stale session of the handler of that path,
  if the handler does not refuse to expire.
\<close>

theorem open_frees_stale:
  assumes "blob_handler gbi hinv live accepts" and "mgr_inv hinv live m"
    and "\<forall>s h h'. gbi_expire gbi s h \<noteq> Some (False, h')"
    and "map_option fst (getHandler gbi p m) = Some (Some i)"
    and "BlobManager_open gbi f p q m = Some ((True, so), m')"
    and "sessions m s = Some si" and "handler si = Some i"
    and "clock m 0 - lastActionTime si \<ge> nanoseconds (sessionTimeout m)"
  shows "sessions m' s = None"
proof -
  obtain m1 hs where gh: "getHandler gbi p m = Some (Some i, m1)" and m1: "m1 = m\<lparr>handlers := hs\<rparr>"
    and inv1: "mgr_inv hinv live m1"
    using assms(4) blob_handler.getHandler_ok [OF assms(1,2), of p] by (auto elim!: ok_pairE)
  obtain t n where gs: "getSession q m1 = (t, m1\<lparr>next_session := n\<rparr>)"
    using getSession_frame [of q m1] by (cases "getSession q m1") blast
  let ?m2 = "m1\<lparr>next_session := n\<rparr>"
  obtain s' m3 m4 where t: "t = Some s'" and cu: "cleanUpStaleSessions gbi i ?m2 = Some m3"
    and call: "call_handler i (gbi_open gbi s' f p) m3 = Some (True, m4)"
    and rec: "record_session i s' f p m4 = Some m'"
    using assms(5) gh gs by (auto simp: BlobManager_open_def bind_eq_Some_conv split: option.splits if_splits)
  have "sessions m s' = None"
    using getSession_fresh [of q m1 s' ?m2] gs t by (simp add: m1)
  then have ne: "s \<noteq> s'"
    using assms(6) by auto
  have inv2: "index_inv ?m2"
    by (rule mgr_inv_index [OF blob_handler.minv_cong [OF assms(1) inv1]]) simp_all
  have "s \<in> {s \<in> sessions_of_handler ?m2 i. stale (clock ?m2 0) ?m2 s}"
    using assms(6-8) by (simp add: m1 sessions_of_handler_def stale_def)
  then have "sessions m3 s = None"
    using cleanUp_gone [OF inv2 _ cu] assms(3) by (simp add: restrict_map_def)
  then show ?thesis
    using record_session_sessions [OF rec ne] call_handler_sessions [OF call] by simp
qed

lemma demo_expiring_open:
  "\<exists>m'. BlobManager_open expiring_methods 3 supportedPath out_param demo_old = Some ((True, Some 6), m')"
  by (simp add: BlobManager_open_def getHandler_def demo_old_def demo_defs Example_canHandleBlob_def
      getSession_def getSession_loop.simps cleanUpStaleSessions_def call_handler_def Example_open_def
      record_session_def new_SessionInfo_def default_SessionInfo_def sessions_at_def steady_now_def
      handler_sessions_def file_count_def int_inc_def int_dec_def int32_max_def expiring_methods_def
      eraseSession_def)

lemma open_frees_stale_witness:
  "\<exists>m'. BlobManager_open expiring_methods 3 supportedPath out_param demo_old = Some ((True, Some 6), m')
     \<and> sessions demo_old 5 \<noteq> None \<and> sessions m' 5 = None"
proof -
  obtain m' where o: "BlobManager_open expiring_methods 3 supportedPath out_param demo_old =
      Some ((True, Some 6), m')"
    using demo_expiring_open by blast
  have never: "\<forall>s h h'. gbi_expire expiring_methods s h \<noteq> Some (False, h')"
    and gh: "map_option fst (getHandler expiring_methods supportedPath demo_old) = Some (Some 0)"
    and s: "sessions demo_old 5 = Some demo_session" and h: "handler demo_session = Some 0"
    and t: "clock demo_old 0 - lastActionTime demo_session \<ge> nanoseconds (sessionTimeout demo_old)"
    by (simp_all add: expiring_methods_def getHandler_def demo_old_def demo_open_def demo_session_def
        Example_canHandleBlob_def)
  from open_frees_stale [OF expiring.blob_handler_axioms demo_old_inv never gh o s h t] show ?thesis
    using o s by simp
qed

section \<open>Deleting and closing\<close>

text \<open>
  Deleting a path on which a session is open fails, without a call of the handler's
  \<open>deleteBlob\<close> and without any effect on the sessions.
\<close>

theorem delete_refused_while_open:
  assumes "blob_handler gbi hinv live accepts" and "mgr_inv hinv live m"
    and "sessions m s = Some si" and "blobId si = p"
  shows "ok (BlobManager_deleteBlob (gbi\<lparr>gbi_deleteBlob := \<lambda>p h. None\<rparr>) p m)
    (\<lambda>(b, m'). \<not> b \<and> sessions m' = sessions m \<and> mgr_inv hinv live m')"
proof -
  let ?g = "gbi\<lparr>gbi_deleteBlob := \<lambda>p h. None\<rparr>"
  obtain r m1 hs where gh: "getHandler ?g p m = Some (r, m1)" and m1: "mgr_inv hinv live m1"
    "m1 = m\<lparr>handlers := hs\<rparr>"
    using blob_handler.getHandler_ok [OF assms(1,2), of p] getHandler_cong [of ?g gbi]
    by (auto elim!: ok_pairE)
  have "s \<in> sessions_on m1 p"
    using assms(3,4) by (simp add: sessions_on_def m1(2))
  then have "file_count m1 p > 0"
    using mgr_inv_index [OF m1(1)] by (auto simp: index_inv_def card_gt_0_iff)
  then show ?thesis
    using gh m1 blob_handler.minv_openFiles_zero [OF assms(1) m1(1), of p]
    by (auto simp: BlobManager_deleteBlob_def Let_def split: option.split)
qed

lemma delete_refused_while_open_witness:
  "ok (BlobManager_deleteBlob (ExampleBlobHandler_methods\<lparr>gbi_deleteBlob := \<lambda>p h. None\<rparr>)
      supportedPath demo_open)
    (\<lambda>(b, m'). \<not> b \<and> sessions m' = sessions demo_open \<and> mgr_inv example_inv example_live m')"
  by (rule delete_refused_while_open [OF example.blob_handler_axioms demo_open_inv,
        of 5 demo_session]) (simp_all add: demo_open_def demo_session_def)

lemma getActionHandler_frame:
  "getActionHandler s req m = Some (r, m') \<Longrightarrow> s' \<noteq> s \<Longrightarrow> sessions m' s' = sessions m s'"
  by (auto simp: getActionHandler_def steady_now_def bind_eq_Some_conv Let_def
      split: option.splits if_splits)

lemma close_frame:
  assumes "BlobManager_close gbi s m = Some (b, m')" and "s' \<noteq> s"
  shows "sessions m' s' = sessions m s'"
proof -
  obtain r m1 where ga: "getActionHandler s any_flags m = Some (r, m1)"
    using assms(1) by (auto simp: BlobManager_close_def bind_eq_Some_conv)
  show ?thesis
  proof (cases r)
    case None
    then show ?thesis
      using assms ga getActionHandler_frame [OF ga] by (simp add: BlobManager_close_def)
  next
    case (Some i)
    obtain c m2 where call: "call_handler i (gbi_close gbi s) m1 = Some (c, m2)"
      and "c \<Longrightarrow> eraseSession i s m2 = Some m'" and "\<not> c \<Longrightarrow> m' = m2"
      using assms(1) ga Some by (auto simp: BlobManager_close_def bind_eq_Some_conv split: if_splits)
    then show ?thesis
      using getActionHandler_frame [OF ga assms(2)] call_handler_sessions [OF call]
        eraseSession_sessions [of i s m2 m'] assms(2) by (cases c) simp_all
  qed
qed

text \<open>
  C16: A successful \<open>close\<close> removes exactly the given session, which was open, from the
  session table, and the session counts of the paths and the groups of the handlers follow;
  a failed one removes nothing.
\<close>

theorem close_removes_session:
  assumes "blob_handler gbi hinv live accepts" and "mgr_inv hinv live m"
    and "BlobManager_close gbi s m = Some (b, m')"
  shows "(if b then sessions m s \<noteq> None \<and> sessions m' s = None
          else (sessions m' s = None) = (sessions m s = None))
    \<and> (\<forall>s'. s' \<noteq> s \<longrightarrow> sessions m' s' = sessions m s')
    \<and> (\<forall>p. file_count m' p = int (card (sessions_on m' p)))
    \<and> (\<forall>i. handler_sessions m' i = sessions_of_handler m' i)"
proof -
  note c = ok_SomeD [OF blob_handler.BlobManager_close_ok [OF assms(1,2)] assms(3), simplified]
  have "dom (sessions m') = (if b then dom (sessions m) - {s} else dom (sessions m))"
    and "b \<longrightarrow> s \<in> dom (sessions m)" and "index_inv m'"
    using c by (auto simp: mgr_inv_def)
  moreover have "s \<in> dom (sessions m') \<longleftrightarrow> s \<in> dom (sessions m) \<and> \<not> b"
    using calculation(1) by auto
  ultimately show ?thesis
    using close_frame [OF assms(3)] by (auto simp: index_inv_def domIff)
qed

lemma close_removes_session_witness:
  "sessions demo_open 5 \<noteq> None \<and> sessions (demo_start\<lparr>next_session := 6, openSessions := [0 \<mapsto> {}]\<rparr>) 5 = None"
  using close_removes_session [OF example.blob_handler_axioms demo_open_inv demo_close]
  by (simp only: if_True simp_thms)

section \<open>Operations on a session\<close>

lemma has_any_flag: "has_flag f read_or_write \<Longrightarrow> has_flag f any_flags"
proof -
  have "any_flags = - 1"
    by (simp add: any_flags_def word_uint_eq_iff unsigned_minus_1_eq_mask mask_eq_exp_minus_1)
  then show "has_flag f read_or_write \<Longrightarrow> has_flag f any_flags"
    using has_flag_any [of f read_or_write] by simp
qed

lemma action_dispatch:
  assumes "index_inv m" and "sessions m s = Some si"
  obtains i fl where "handler si = Some i" and "i < length (handlers m)" and "flags si = fl"
    and "has_flag fl any_flags"
    and "\<forall>req. getActionHandler s req m =
      (if has_flag fl req then Some (Some i, touch s si m) else Some (None, m))"
  using table_invE [OF index_inv_table [OF assms(1)] assms(2)]
    getActionHandler_Some [OF assms(2)] has_any_flag by metis

text \<open>
  C17: An operation on an open session goes to the handler the session was opened with,
  after the time of its last use has been set to the clock; \<open>commit\<close>, \<open>writeMeta\<close> and
  \<open>stat\<close> always, \<open>read\<close> and \<open>write\<close> exactly when the session was opened with the flag
  for it. Otherwise they fail and the state stays as it is, the time of the last use included.
\<close>

theorem session_dispatch:
  assumes "index_inv m" and "sessions m s = Some si"
  shows "\<exists>i fl. handler si = Some i \<and> i < length (handlers m) \<and> flags si = fl
    \<and> BlobManager_commit gbi s d m = call_handler i (gbi_commit gbi s d) (touch s si m)
    \<and> BlobManager_writeMeta gbi s off d m = call_handler i (gbi_writeMeta gbi s off d) (touch s si m)
    \<and> BlobManager_stat gbi s mt m = call_handler i (gbi_stat gbi s mt) (touch s si m)
    \<and> BlobManager_read gbi s off n m =
        (if has_flag fl OpenFlags_read then call_handler i (gbi_read gbi s off n) (touch s si m)
         else Some ([], m))
    \<and> BlobManager_write gbi s off d m =
        (if has_flag fl OpenFlags_write then call_handler i (gbi_write gbi s off d) (touch s si m)
         else Some (False, m))"
proof -
  obtain i fl where "handler si = Some i" "i < length (handlers m)" "flags si = fl"
    and any: "has_flag fl any_flags"
    and ga: "\<forall>req. getActionHandler s req m =
      (if has_flag fl req then Some (Some i, touch s si m) else Some (None, m))"
    by (rule action_dispatch [OF assms])
  then show ?thesis
    by (auto simp: BlobManager_commit_def BlobManager_writeMeta_def BlobManager_stat_def
        BlobManager_read_def BlobManager_write_def)
qed

lemma session_dispatch_witness:
  "\<exists>i. BlobManager_commit ExampleBlobHandler_methods 5 [] demo_open =
     call_handler i (Example_commit 5 []) (touch 5 demo_session demo_open)"
  using session_dispatch [OF mgr_inv_index [OF demo_open_inv], of 5 demo_session
      ExampleBlobHandler_methods "[]"]
  by (auto simp: demo_open_def)

text \<open>The session table without the times.\<close>

definition table_of :: "'h BlobManager \<Rightarrow> u16 \<rightharpoonup> SessionInfo" where
  "table_of m s = map_option (\<lambda>si. si\<lparr>lastActionTime := 0\<rparr>) (sessions m s)"

lemma getActionHandler_table: "getActionHandler s req m = Some (r, m') \<Longrightarrow> table_of m' = table_of m"
  by (auto simp: getActionHandler_def steady_now_def table_of_def bind_eq_Some_conv Let_def fun_eq_iff
      split: option.splits if_splits)

lemma call_handler_table: "call_handler i f m = Some (r, m') \<Longrightarrow> table_of m' = table_of m"
  using call_handler_sessions [of i f m r m'] by (simp add: table_of_def fun_eq_iff)

lemma session_call_table:
  assumes "do { (found, m) \<leftarrow> getActionHandler s req m;
      case found of None \<Rightarrow> Some (d, m) | Some hp \<Rightarrow> call_handler hp f m } = Some (r, m')"
  shows "table_of m' = table_of m"
proof -
  obtain q m1 where ga: "getActionHandler s req m = Some (q, m1)"
    and m': "(case q of None \<Rightarrow> Some (d, m1) | Some hp \<Rightarrow> call_handler hp f m1) = Some (r, m')"
    using assms by (auto simp: bind_eq_Some_conv)
  then show ?thesis
    using getActionHandler_table [OF ga] call_handler_table by (cases q) fastforce+
qed

lemma getHandler_sessions: "getHandler gbi p m = Some (r, m') \<Longrightarrow> sessions m' = sessions m"
  by (auto simp: getHandler_def bind_eq_Some_conv)

lemma path_call_sessions:
  "BlobManager_statPath gbi p mt m = Some (r, m') \<Longrightarrow> sessions m' = sessions m"
  "BlobManager_deleteBlob gbi p m = Some (b, m') \<Longrightarrow> sessions m' = sessions m"
  by (auto simp: BlobManager_statPath_def BlobManager_deleteBlob_def bind_eq_Some_conv Let_def
      dest!: getHandler_sessions call_handler_sessions split: option.splits if_splits)

text \<open>
  Only \<open>open\<close> and \<open>close\<close> change the session table. Any other call of the manager,
  whatever the handlers do in it, leaves every session with its path, handler and flags and
  adds none; at most the time of a session's last use changes.
\<close>

theorem only_open_close_change_table:
  assumes "mgr_step (BlobManager_methods gbi) c m = Some (r, m')"
    and "\<forall>f p q. c \<noteq> CallOpen f p q" and "\<forall>s. c \<noteq> CallClose s"
  shows "table_of m' = table_of m"
proof (cases c)
  case CallBuildBlobList
  then show ?thesis
    using assms(1) by (auto simp: as_result_def buildBlobList_def bind_eq_Some_conv table_of_def fun_eq_iff)
next
  case (CallGetBlobId i)
  then show ?thesis
    using assms(1) by (auto simp: as_result_def)
next
  case (CallStatPath p)
  then show ?thesis
    using assms(1) by (auto simp: as_result_def table_of_def fun_eq_iff dest: path_call_sessions)
next
  case (CallDeleteBlob p)
  then show ?thesis
    using assms(1) by (auto simp: as_result_def table_of_def fun_eq_iff dest: path_call_sessions)
qed (use assms in \<open>auto simp: as_result_def BlobManager_stat_def BlobManager_commit_def
    BlobManager_read_def BlobManager_write_def BlobManager_writeMeta_def dest!: session_call_table\<close>)

lemma only_open_close_change_table_witness:
  "\<exists>r m'. mgr_step (BlobManager_methods ExampleBlobHandler_methods) (CallCommit 5 []) demo_open = Some (r, m')
     \<and> table_of m' = table_of demo_open"
proof -
  obtain r m' where s: "mgr_step (BlobManager_methods ExampleBlobHandler_methods) (CallCommit 5 []) demo_open =
      Some (r, m')"
    by (simp add: as_result_def BlobManager_commit_def getActionHandler_def steady_now_def demo_defs
        call_handler_def Example_commit_def Example_getSession_def has_flag_def any_flags_def)
  then show ?thesis
    using only_open_close_change_table [OF s] by simp
qed

section \<open>Choosing the handler of a path\<close>

lemma find_handler_first:
  "find_handler gbi p hs = Some (r, hs') \<Longrightarrow> length hs' = length hs
    \<and> (\<forall>j < length hs. if r = None \<or> j < the r then gbi_canHandleBlob gbi p (hs ! j) = Some (False, hs' ! j)
         else if j = the r then gbi_canHandleBlob gbi p (hs ! j) = Some (True, hs' ! j)
         else hs' ! j = hs ! j)
    \<and> (r \<noteq> None \<longrightarrow> the r < length hs)"
proof (induction hs arbitrary: r hs')
  case Nil
  then show ?case by simp
next
  case (Cons h hs)
  obtain b h' where h: "gbi_canHandleBlob gbi p h = Some (b, h')"
    using Cons.prems by (auto simp: bind_eq_Some_conv)
  show ?case
  proof (cases b)
    case True
    then show ?thesis
      using Cons.prems h by (auto simp: nth_Cons split: nat.split)
  next
    case False
    then obtain r1 hs1 where fh: "find_handler gbi p hs = Some (r1, hs1)"
      and r: "r = map_option Suc r1" and hs': "hs' = h' # hs1"
      using Cons.prems h by (auto simp: bind_eq_Some_conv)
    have "if r = None \<or> j < the r then gbi_canHandleBlob gbi p ((h # hs) ! j) = Some (False, hs' ! j)
         else if j = the r then gbi_canHandleBlob gbi p ((h # hs) ! j) = Some (True, hs' ! j)
         else hs' ! j = (h # hs) ! j" if "j < length (h # hs)" for j
      using that Cons.IH [OF fh] False h by (cases j; cases r1) (simp_all add: r hs')
    then show ?thesis
      using Cons.IH [OF fh] by (cases r1) (simp_all add: r hs')
  qed
qed

text \<open>
  C33: \<open>getHandler\<close> asks the handlers in the order of their registration and returns the
  first one that accepts the path; the ones after it are not asked. It returns null exactly
  when all have been asked and have refused.
\<close>

theorem getHandler_first_acceptor:
  assumes "getHandler gbi p m = Some (r, m')"
  shows "length (handlers m') = length (handlers m) \<and> m'\<lparr>handlers := handlers m\<rparr> = m \<and>
    (case r of
       None \<Rightarrow> \<forall>j < length (handlers m).
         gbi_canHandleBlob gbi p (handlers m ! j) = Some (False, handlers m' ! j)
     | Some i \<Rightarrow> i < length (handlers m)
         \<and> gbi_canHandleBlob gbi p (handlers m ! i) = Some (True, handlers m' ! i)
         \<and> (\<forall>j < i. gbi_canHandleBlob gbi p (handlers m ! j) = Some (False, handlers m' ! j))
         \<and> (\<forall>j. i < j \<longrightarrow> j < length (handlers m) \<longrightarrow> handlers m' ! j = handlers m ! j))"
proof -
  obtain hs where hs: "find_handler gbi p (handlers m) = Some (r, hs)" and m': "m' = m\<lparr>handlers := hs\<rparr>"
    using assms by (auto simp: getHandler_def bind_eq_Some_conv)
  note f = find_handler_first [OF hs]
  show ?thesis
  proof (cases r)
    case None
    then show ?thesis using f by (simp add: m')
  next
    case (Some i)
    then have "i < length (handlers m)" and
      "if j < i then gbi_canHandleBlob gbi p (handlers m ! j) = Some (False, hs ! j)
         else if j = i then gbi_canHandleBlob gbi p (handlers m ! j) = Some (True, hs ! j)
         else hs ! j = handlers m ! j" if "j < length (handlers m)" for j
      using f that by simp_all
    then show ?thesis
      using f Some by (auto simp: m' split: if_splits)
  qed
qed

lemma getHandler_first_acceptor_witness:
  "gbi_canHandleBlob ExampleBlobHandler_methods ''x'' (handlers demo_open ! 0) =
     Some (False, handlers demo_open ! 0)"
proof -
  have "getHandler ExampleBlobHandler_methods ''x'' demo_open = Some (None, demo_open)"
    by (simp add: getHandler_def demo_open_def Example_canHandleBlob_def supportedPath_def)
  from getHandler_first_acceptor [OF this] show ?thesis
    by (simp add: demo_open_def)
qed

section \<open>The list of blobs\<close>

lemma collect_ids_concat:
  "collect_ids gbi hs = Some (l, hs') \<Longrightarrow> length hs' = length hs \<and>
     (\<exists>ls. length ls = length hs \<and> l = concat ls
        \<and> (\<forall>j < length hs. gbi_getBlobIds gbi (hs ! j) = Some (ls ! j, hs' ! j)))"
proof (induction hs arbitrary: l hs')
  case Nil
  then show ?case by simp
next
  case (Cons h hs)
  then obtain b h' l1 hs1 where h: "gbi_getBlobIds gbi h = Some (b, h')"
    and c: "collect_ids gbi hs = Some (l1, hs1)" and eq: "l = b @ l1" "hs' = h' # hs1"
    by (auto simp: bind_eq_Some_conv)
  obtain ls where ls: "length ls = length hs" "l1 = concat ls"
    "\<forall>j < length hs. gbi_getBlobIds gbi (hs ! j) = Some (ls ! j, hs1 ! j)" "length hs1 = length hs"
    using Cons.IH [OF c] by blast
  have "gbi_getBlobIds gbi ((h # hs) ! j) = Some ((b # ls) ! j, hs' ! j)" if "j < length (h # hs)" for j
    using that h ls(3) by (cases j) (simp_all add: eq)
  then show ?case
    using ls by (auto simp: eq intro!: exI [where x = "b # ls"])
qed

text \<open>
  C34: \<open>buildBlobList\<close> replaces the old list by the lists of all handlers in the order of
  their registration and returns its length as a 32-bit number; after it \<open>getBlobId\<close>
  returns the entries of that list, and the empty string from its end on.
\<close>

theorem buildBlobList_getBlobId:
  assumes "buildBlobList gbi m = Some (n, m')"
  shows "\<exists>ls. length ls = length (handlers m)
    \<and> (\<forall>j < length ls. gbi_getBlobIds gbi (handlers m ! j) = Some (ls ! j, handlers m' ! j))
    \<and> ids m' = concat ls \<and> n = word_of_nat (length (concat ls))
    \<and> (\<forall>index. getBlobId index m' =
         (if unat index < length (concat ls) then concat ls ! unat index else []))"
proof -
  obtain hs l where c: "collect_ids gbi (handlers m) = Some (l, hs)" and n: "n = word_of_nat (length l)"
    and m': "m' = m\<lparr>ids := l, handlers := hs\<rparr>"
    using assms by (auto simp: buildBlobList_def bind_eq_Some_conv)
  then show ?thesis
    using collect_ids_concat [OF c] by (auto simp: getBlobId_def)
qed

lemma buildBlobList_getBlobId_witness:
  "getBlobId 0 (demo_open\<lparr>ids := [supportedPath]\<rparr>) = supportedPath"
proof -
  have "buildBlobList ExampleBlobHandler_methods demo_open = Some (1, demo_open\<lparr>ids := [supportedPath]\<rparr>)"
    by (simp add: buildBlobList_def demo_open_def Example_getBlobIds_def)
  from buildBlobList_getBlobId [OF this] show ?thesis
    by (auto simp: demo_open_def Example_getBlobIds_def) (metis nth_Cons_0)
qed

end
