(* ===== verification/Requests.thy ===== *)
theory Requests
  imports Process
begin

unbundle bit_operations_syntax

text \<open>
  What a request means: the typed request that the bytes on the wire stand for (\<open>decode\<close>),
  the call of the manager that answers it (\<open>perform\<close>) and the bytes of the answer
  (\<open>respond\<close>). \<open>request_meaning\<close> shows that the routing and the eleven command handlers
  together do just this, for every byte string and over every manager; \<open>encode\<close> is how a
  client lays a request out, and \<open>decode\<close> is its inverse.
\<close>

section \<open>The client's side\<close>

definition with_crc :: "(bytes \<Rightarrow> u16) \<Rightarrow> bytes \<Rightarrow> bytes" where
  "with_crc crc body = le16 (crc body) @ body"

definition framed :: "(bytes \<Rightarrow> u16) \<Rightarrow> nat \<Rightarrow> bytes \<Rightarrow> resp" where
  "framed crc maxSize body =
     (if length body + 2 \<le> maxSize then responseSuccess (with_crc crc body) else responseResponseError)"

definition open_body :: "u16 \<Rightarrow> string \<Rightarrow> bytes" where
  "open_body fl p = le16 fl @ c_str_bytes p"

definition commit_body :: "u16 \<Rightarrow> bytes \<Rightarrow> bytes" where
  "commit_body s d = le16 s @ [word_of_nat (length d)] @ d"

definition read_body :: "u16 \<Rightarrow> u32 \<Rightarrow> u32 \<Rightarrow> bytes" where
  "read_body s off n = le16 s @ le32 off @ le32 n"

definition write_body :: "u16 \<Rightarrow> u32 \<Rightarrow> bytes \<Rightarrow> bytes" where
  "write_body s off d = le16 s @ le32 off @ d"

definition stat_body :: "u16 \<Rightarrow> u32 \<Rightarrow> bytes \<Rightarrow> bytes" where
  "stat_body st sz md = le16 st @ le32 sz @ [word_of_nat (length md)] @ md"

lemmas body_defs = with_crc_def open_body_def commit_body_def read_body_def write_body_def

text \<open>The bytes of a request, at the offsets of the packed structs.\<close>

lemma rd_skip2: "rd16 (le16 c @ b) 2 = rd16 b 0"
  using rd16_append2 [of "le16 c" b 0] by simp

lemma rd_at_0: "rd16 (le16 w @ b) 0 = Some w" "rd32 (le32 v @ b) 0 = Some v"
  "rd16 (le16 w) 0 = Some w" "rd32 (le32 v) 0 = Some v"
  using rd16_le16 [of w "[]"] rd32_le32 [of v "[]"] by (simp_all add: rd16_le16 rd32_le32)

lemmas rd_request = rd_skip2 rd_at_0

section \<open>Routing\<close>

text \<open>What becomes of a handler's result on the way out.\<close>

definition finish :: "(bytes \<Rightarrow> u16) \<Rightarrow> nat \<Rightarrow> resp \<Rightarrow> resp option" where
  "finish crc maxSize r =
     (if fst r \<noteq> ccSuccess then Some r
      else map_option (\<lambda>p. if p = [] then r else if length p < 2 then responseUnspecifiedError
             else framed crc maxSize (drop 2 p)) (snd r))"

lemma finish_simps [simp]:
  "cc \<noteq> ccSuccess \<Longrightarrow> finish crc maxSize (cc, p) = Some (cc, p)"
  "finish crc maxSize (responseSuccess []) = Some (responseSuccess [])"
  "finish crc maxSize (responseSuccess (le16 c @ body)) = Some (framed crc maxSize body)"
  "finish crc maxSize (responseSuccess (0 # 0 # body)) = Some (framed crc maxSize body)"
  by (simp_all add: finish_def le16_def)

lemma processBlobCommand_finish:
  "processBlobCommand crc f mgr d maxSize m =
     do { (r, m) \<leftarrow> f mgr d m; r \<leftarrow> finish crc maxSize r; Some (r, m) }"
proof (cases "f mgr d m")
  case (Some rm)
  obtain cc p m' where "rm = ((cc, p), m')"
    by (cases rm) auto
  then show ?thesis
    using Some by (cases p) (auto simp: processBlobCommand_def finish_def framed_def with_crc_def
        subspan_Some Let_def)
qed (simp add: processBlobCommand_def)

section \<open>Typed requests and replies\<close>

text \<open>The eleven commands with their arguments, and what a client gets back.\<close>

datatype client_request =
    GetCount | Enumerate u32 | Open u16 string | Read u16 u32 u32 | Write u16 u32 bytes
  | Commit u16 bytes | Close u16 | Delete string | Stat string | SessionStat u16
  | WriteMeta u16 u32 bytes

datatype reply = Refused | NoSuchEntry | Acknowledged | Answer bytes

text \<open>The requests that the layout of the protocol can carry.\<close>

fun expressible :: "client_request \<Rightarrow> bool" where
  "expressible (Open f p) \<longleftrightarrow> p \<noteq> []"
| "expressible (Delete p) \<longleftrightarrow> p \<noteq> []"
| "expressible (Stat p) \<longleftrightarrow> p \<noteq> []"
| "expressible (Write s off d) \<longleftrightarrow> d \<noteq> []"
| "expressible (WriteMeta s off d) \<longleftrightarrow> d \<noteq> []"
| "expressible (Commit s d) \<longleftrightarrow> length d < 256"
| "expressible _ \<longleftrightarrow> True"

fun encode :: "(bytes \<Rightarrow> u16) \<Rightarrow> client_request \<Rightarrow> byte \<times> bytes" where
  "encode crc GetCount = (0, [])"
| "encode crc (Enumerate i) = (1, with_crc crc (le32 i))"
| "encode crc (Open f p) = (2, with_crc crc (open_body f p))"
| "encode crc (Read s off n) = (3, with_crc crc (read_body s off n))"
| "encode crc (Write s off d) = (4, with_crc crc (write_body s off d))"
| "encode crc (Commit s d) = (5, with_crc crc (commit_body s d))"
| "encode crc (Close s) = (6, with_crc crc (le16 s))"
| "encode crc (Delete p) = (7, with_crc crc (c_str_bytes p))"
| "encode crc (Stat p) = (8, with_crc crc (c_str_bytes p))"
| "encode crc (SessionStat s) = (9, with_crc crc (le16 s))"
| "encode crc (WriteMeta s off d) = (10, with_crc crc (write_body s off d))"

fun respond :: "(bytes \<Rightarrow> u16) \<Rightarrow> nat \<Rightarrow> reply \<Rightarrow> resp" where
  "respond crc maxSize Refused = responseUnspecifiedError"
| "respond crc maxSize NoSuchEntry = responseInvalidFieldRequest"
| "respond crc maxSize Acknowledged = responseSuccess []"
| "respond crc maxSize (Answer b) = framed crc maxSize b"

section \<open>Decoding\<close>

definition u16_at :: "bytes \<Rightarrow> nat \<Rightarrow> u16" where
  "u16_at b i = of_le16 (b ! i) (b ! (i + 1))"

definition u32_at :: "bytes \<Rightarrow> nat \<Rightarrow> u32" where
  "u32_at b i = of_le32 (b ! i) (b ! (i + 1)) (b ! (i + 2)) (b ! (i + 3))"

text \<open>The least length of a body, the part of the request behind the checksum.\<close>

fun minimum_body :: "BlobOEMCommands \<Rightarrow> nat" where
  "minimum_body bmcBlobGetCount = 0"
| "minimum_body bmcBlobEnumerate = 4"
| "minimum_body bmcBlobOpen = 4"
| "minimum_body bmcBlobRead = 10"
| "minimum_body bmcBlobWrite = 7"
| "minimum_body bmcBlobCommit = 3"
| "minimum_body bmcBlobClose = 2"
| "minimum_body bmcBlobDelete = 2"
| "minimum_body bmcBlobStat = 2"
| "minimum_body bmcBlobSessionStat = 2"
| "minimum_body bmcBlobWriteMeta = 7"
| "minimum_body (unnamed_command c) = 0"

text \<open>The path a buffer holds goes to \<open>f\<close>; a buffer that holds none is refused.\<close>

definition with_path :: "bytes \<Rightarrow> (string \<Rightarrow> client_request) \<Rightarrow> resp + client_request" where
  "with_path b f = (let p = stringFromBuffer b in
     if p = [] then Inl responseReqDataLenInvalid else Inr (f p))"

fun parse :: "BlobOEMCommands \<Rightarrow> bytes \<Rightarrow> resp + client_request" where
  "parse bmcBlobGetCount b = Inr GetCount"
| "parse bmcBlobEnumerate b = Inr (Enumerate (u32_at b 0))"
| "parse bmcBlobOpen b = with_path (drop 2 b) (Open (u16_at b 0))"
| "parse bmcBlobRead b = Inr (Read (u16_at b 0) (u32_at b 2) (u32_at b 6))"
| "parse bmcBlobWrite b = Inr (Write (u16_at b 0) (u32_at b 2) (drop 6 b))"
| "parse bmcBlobCommit b = (let n = unat (b ! 2) in
     if length b < n + 3 then Inl responseReqDataLenInvalid
     else Inr (Commit (u16_at b 0) (take n (drop 3 b))))"
| "parse bmcBlobClose b = Inr (Close (u16_at b 0))"
| "parse bmcBlobDelete b = with_path b Delete"
| "parse bmcBlobStat b = with_path b Stat"
| "parse bmcBlobSessionStat b = Inr (SessionStat (u16_at b 0))"
| "parse bmcBlobWriteMeta b = Inr (WriteMeta (u16_at b 0) (u32_at b 2) (drop 6 b))"
| "parse (unnamed_command c) b = Inl responseInvalidFieldRequest"

text \<open>\<open>Inl\<close>: the reply with which the request is turned away.\<close>

definition decode :: "(bytes \<Rightarrow> u16) \<Rightarrow> byte \<Rightarrow> bytes \<Rightarrow> resp + client_request" where
  "decode crc cmd d = (let c = command_of cmd; b = drop 2 d in
     if length d = 2 \<or> length b < minimum_body c then Inl responseReqDataLenInvalid
     else if b \<noteq> [] \<and> u16_at d 0 \<noteq> crc b then Inl responseUnspecifiedError
     else parse c b)"

section \<open>The call behind a request\<close>

definition acknowledge :: "(bool \<times> 'm) option \<Rightarrow> (reply \<times> 'm) option" where
  "acknowledge x = do { (b, m) \<leftarrow> x; Some (if b then Acknowledged else Refused, m) }"

definition describe :: "((bool \<times> BlobMeta) \<times> 'm) option \<Rightarrow> (reply \<times> 'm) option" where
  "describe x = do { ((b, mt), m) \<leftarrow> x;
     if b then do { st \<leftarrow> blobState mt; sz \<leftarrow> blobSize mt;
                    Some (Answer (stat_body st sz (metadata mt)), m) }
     else Some (Refused, m) }"

fun perform :: "('h, 'm) ManagerInterface \<Rightarrow> client_request \<Rightarrow> 'm \<Rightarrow> (reply \<times> 'm) option" where
  "perform mgr GetCount m = do { (n, m) \<leftarrow> mi_buildBlobList mgr m; Some (Answer (le32 n), m) }"
| "perform mgr (Enumerate i) m = do { (p, m) \<leftarrow> mi_getBlobId mgr i m;
     Some (if p = [] then NoSuchEntry else Answer (c_str_bytes p), m) }"
| "perform mgr (Open f p) m = do { ((b, so), m) \<leftarrow> mi_open mgr f p out_param m;
     if b then do { s \<leftarrow> so; Some (Answer (le16 s), m) } else Some (Refused, m) }"
| "perform mgr (Read s off n) m = do { (b, m) \<leftarrow> mi_read mgr s off n m; Some (Answer b, m) }"
| "perform mgr (Write s off d) m = acknowledge (mi_write mgr s off d m)"
| "perform mgr (Commit s d) m = acknowledge (mi_commit mgr s d m)"
| "perform mgr (Close s) m = acknowledge (mi_close mgr s m)"
| "perform mgr (Delete p) m = acknowledge (mi_deleteBlob mgr p m)"
| "perform mgr (Stat p) m = describe (mi_statPath mgr p uninit_meta m)"
| "perform mgr (SessionStat s) m = describe (mi_stat mgr s uninit_meta m)"
| "perform mgr (WriteMeta s off d) m = acknowledge (mi_writeMeta mgr s off d m)"

section \<open>The commands\<close>

text \<open>A command handler with its reply finished, on a body that is long enough.\<close>

lemma with_path_cases:
  "(case with_path b f of Inl r \<Rightarrow> x r | Inr q \<Rightarrow> y q) =
     (if stringFromBuffer b = [] then x responseReqDataLenInvalid else y (f (stringFromBuffer b)))"
  by (simp add: with_path_def Let_def)

lemma finish_acknowledge:
  "do { (r, m) \<leftarrow> do { (b, m) \<leftarrow> x; if \<not> b then Some (responseUnspecifiedError, m) else Some (responseSuccess [], m) };
        r \<leftarrow> finish crc maxSize r; Some (r, m) } =
   do { (rp, m) \<leftarrow> acknowledge x; Some (respond crc maxSize rp, m) }"
  by (cases x) (auto simp: acknowledge_def)

lemma finish_describe:
  "do { (r, m) \<leftarrow> do { ((b, mt), m) \<leftarrow> x; if \<not> b then Some (responseUnspecifiedError, m)
          else do { r \<leftarrow> returnStatBlob mt; Some (r, m) } };
        r \<leftarrow> finish crc maxSize r; Some (r, m) } =
   do { (rp, m) \<leftarrow> describe x; Some (respond crc maxSize rp, m) }"
proof (cases x)
  case (Some y)
  obtain b mt m where "y = ((b, mt), m)"
    by (cases y) auto
  then show ?thesis
    using Some by (cases "blobState mt"; cases "blobSize mt")
      (auto simp: describe_def returnStatBlob_def bytes_of_BmcBlobStatRx_def stat_body_def)
qed (simp add: describe_def)

text \<open>The members of the packed structs lie two bytes further on in the whole request.\<close>

lemma body_at:
  "2 \<le> length d \<Longrightarrow> u16_at (drop 2 d) i = of_le16 (d ! (2 + i)) (d ! (2 + (i + 1)))"
  "2 \<le> length d \<Longrightarrow> u32_at (drop 2 d) i =
     of_le32 (d ! (2 + i)) (d ! (2 + (i + 1))) (d ! (2 + (i + 2))) (d ! (2 + (i + 3)))"
  by (simp_all only: u16_at_def u32_at_def nth_drop)

lemma replicate_2: "replicate 2 x = [x, x]"
  by (simp add: numeral_2_eq_2)

lemmas member_reads = rd8_Some rd16_Some rd32_Some subspan_Some subspan_n_Some body_at

lemma command_meaning:
  assumes "command_handlers c = Some f" and "c = bmcBlobGetCount \<or> minimum_body c + 2 \<le> length d"
  shows "do { (r, m) \<leftarrow> f mgr d m; r \<leftarrow> finish crc maxSize r; Some (r, m) } =
    (case parse c (drop 2 d) of
       Inl r \<Rightarrow> Some (r, m)
     | Inr q \<Rightarrow> do { (rp, m) \<leftarrow> perform mgr q m; Some (respond crc maxSize rp, m) })"
proof (cases c)
  case bmcBlobGetCount
  then show ?thesis
    using assms by (cases "mi_buildBlobList mgr m") (auto simp: getBlobCount_def bytes_of_BmcBlobCountRx_def)
next
  case bmcBlobEnumerate
  then show ?thesis
    using assms by (cases "mi_getBlobId mgr (u32_at (drop 2 d) 0) m")
      (auto simp: enumerateBlob_def read_defs sizeof_defs member_reads replicate_2)
next
  case bmcBlobOpen
  then show ?thesis
    using assms by (cases "mi_open mgr (u16_at (drop 2 d) 0) (stringFromBuffer (drop 4 d)) out_param m")
      (auto simp: openBlob_def sizeof_defs member_reads with_path_cases Let_def
         bytes_of_BmcBlobOpenRx_def split: option.split)
next
  case bmcBlobRead
  then show ?thesis
    using assms by (cases "mi_read mgr (u16_at (drop 2 d) 0) (u32_at (drop 2 d) 2) (u32_at (drop 2 d) 6) m")
      (auto simp: readBlob_def read_defs sizeof_defs member_reads replicate_2)
next
  case bmcBlobWrite
  then show ?thesis
    using assms by (auto simp: writeBlob_def sizeof_defs member_reads finish_acknowledge [symmetric])
next
  case bmcBlobCommit
  then show ?thesis
    using assms by (auto simp: commitBlob_def sizeof_defs member_reads Let_def finish_acknowledge [symmetric])
next
  case bmcBlobClose
  then show ?thesis
    using assms by (auto simp: closeBlob_def read_defs sizeof_defs member_reads finish_acknowledge [symmetric])
next
  case bmcBlobDelete
  then show ?thesis
    using assms by (auto simp: deleteBlob_def sizeof_defs member_reads with_path_cases Let_def
        finish_acknowledge [symmetric])
next
  case bmcBlobStat
  then show ?thesis
    using assms by (auto simp: statBlob_def sizeof_defs member_reads with_path_cases Let_def
        finish_describe [symmetric])
next
  case bmcBlobSessionStat
  then show ?thesis
    using assms by (auto simp: sessionStatBlob_def read_defs sizeof_defs member_reads
        finish_describe [symmetric])
next
  case bmcBlobWriteMeta
  then show ?thesis
    using assms by (auto simp: writeMeta_def read_defs sizeof_defs member_reads finish_acknowledge [symmetric])
qed (use assms in simp)

lemma minimum_body_validate:
  "validateRequestLength c n \<longleftrightarrow> minimum_body c = 0 \<or> minimum_body c + 2 \<le> n"
  by (cases c) (simp_all add: validateRequestLength_iff sizeof_defs kMinStrLen_def)

text \<open>Routing and command handlers together, over any manager.\<close>

lemma routing_meaning:
  fixes mgr :: "('h, 'm) ManagerInterface"
  shows "do { f \<leftarrow> validateBlobCommand crc cmd d; processBlobCommand crc f mgr d maxSize m } =
   (case decode crc cmd d of
      Inl r \<Rightarrow> Some (r, m)
    | Inr q \<Rightarrow> do { (rp, m) \<leftarrow> perform mgr q m; Some (respond crc maxSize rp, m) })"
proof -
  let ?c = "command_of cmd"
  have short: "length d = 2 \<or> length (drop 2 d) < minimum_body ?c \<longleftrightarrow>
      \<not> validateRequestLength ?c (length d) \<or> length d = 2"
    by (auto simp: minimum_body_validate)
  have checked: "drop 2 d \<noteq> [] \<and> u16_at d 0 \<noteq> crc (drop 2 d) \<longleftrightarrow>
      2 < length d \<and> of_le16 (d ! 0) (d ! 1) \<noteq> crc (drop 2 d)"
    by (auto simp: u16_at_def)
  have run: "do { (r, m) \<leftarrow> lookup_handler ?c mgr d m; r \<leftarrow> finish crc maxSize r; Some (r, m) } =
    (case parse ?c (drop 2 d) of Inl r \<Rightarrow> Some (r, m)
     | Inr q \<Rightarrow> do { (rp, m) \<leftarrow> perform mgr q m; Some (respond crc maxSize rp, m) })"
    if valid: "validateRequestLength ?c (length d)"
  proof (cases "command_handlers ?c :: ('h, 'm) IpmiBlobHandler option")
    case None
    then show ?thesis
      by (cases ?c) (simp_all add: lookup_handler_def reject_def)
  next
    case (Some f)
    then have "?c = bmcBlobGetCount \<or> minimum_body ?c + 2 \<le> length d"
      using valid by (cases ?c) (simp_all add: minimum_body_validate)
    then show ?thesis
      using command_meaning [OF Some, of d mgr m crc maxSize] Some by (simp add: lookup_handler_def)
  qed
  show ?thesis
    using run unfolding decode_def Let_def short checked validateBlobCommand_cases processBlobCommand_finish
    by (auto simp: reject_def)
qed

lemma handle_meaning:
  "handleBlobCommand crc gbi t clk cmd d maxSize g =
   (let m = getBlobManager t clk g in
    case decode crc cmd d of
      Inl r \<Rightarrow> Some (r, Some m)
    | Inr q \<Rightarrow> do { (rp, m) \<leftarrow> perform (BlobManager_methods gbi) q m;
                   Some (respond crc maxSize rp, Some m) })"
proof -
  have "handleBlobCommand crc gbi t clk cmd d maxSize g =
    do { (r, m) \<leftarrow> do { f \<leftarrow> validateBlobCommand crc cmd d;
           processBlobCommand crc f (BlobManager_methods gbi) d maxSize (getBlobManager t clk g) };
         Some (r, Some m) }"
    by (simp add: handleBlobCommand_def)
  then show ?thesis
    unfolding routing_meaning
    by (cases "decode crc cmd d") (auto simp: Let_def split_def bind_eq_Some_conv)
qed

section \<open>Encoding and decoding\<close>

lemma body_nonempty [simp]:
  "c_str_bytes p \<noteq> []" "le16 w \<noteq> []" "le32 v \<noteq> []" "open_body fl p \<noteq> []" "commit_body s d \<noteq> []"
  "read_body s off n \<noteq> []" "write_body s off d \<noteq> []"
  by (simp_all add: c_str_bytes_def body_defs le16_def le32_def)

lemma at_le [simp]:
  "u16_at (le16 s @ b) 0 = s" "u16_at (le16 s) 0 = s" "u32_at (le32 v) 0 = v"
  "u32_at (le16 s @ le32 v @ b) 2 = v" "u32_at (le16 s @ le32 v @ le32 w) 6 = w"
  by (simp_all add: u16_at_def u32_at_def le16_def le32_def of_le16_le16 of_le32_le32 nth_append)

lemma decode_with_crc:
  assumes "body \<noteq> []" and "minimum_body (command_of cmd) \<le> length body"
  shows "decode crc cmd (with_crc crc body) = parse (command_of cmd) body"
  using assms by (simp add: decode_def with_crc_def Let_def)

lemma minimum_bodies:
  "minimum_body (command_of 1) \<le> length (le32 i)"
  "p \<noteq> [] \<Longrightarrow> minimum_body (command_of 2) \<le> length (open_body f p)"
  "minimum_body (command_of 3) \<le> length (read_body s off n)"
  "d \<noteq> [] \<Longrightarrow> minimum_body (command_of 4) \<le> length (write_body s off d)"
  "minimum_body (command_of 5) \<le> length (commit_body s d)"
  "minimum_body (command_of 6) \<le> length (le16 s)"
  "p \<noteq> [] \<Longrightarrow> minimum_body (command_of 7) \<le> length (c_str_bytes p)"
  "p \<noteq> [] \<Longrightarrow> minimum_body (command_of 8) \<le> length (c_str_bytes p)"
  "minimum_body (command_of 9) \<le> length (le16 s)"
  "d \<noteq> [] \<Longrightarrow> minimum_body (command_of 10) \<le> length (write_body s off d)"
  by (cases p; cases d; simp add: command_of_def body_defs)+

lemma parse_bodies:
  "parse (command_of 1) (le32 i) = Inr (Enumerate i)"
  "p \<noteq> [] \<Longrightarrow> parse (command_of 2) (open_body f p) = Inr (Open f p)"
  "parse (command_of 3) (read_body s off n) = Inr (Read s off n)"
  "parse (command_of 4) (write_body s off d) = Inr (Write s off d)"
  "length d < 256 \<Longrightarrow> parse (command_of 5) (commit_body s d) = Inr (Commit s d)"
  "parse (command_of 6) (le16 s) = Inr (Close s)"
  "p \<noteq> [] \<Longrightarrow> parse (command_of 7) (c_str_bytes p) = Inr (Delete p)"
  "p \<noteq> [] \<Longrightarrow> parse (command_of 8) (c_str_bytes p) = Inr (Stat p)"
  "parse (command_of 9) (le16 s) = Inr (SessionStat s)"
  "parse (command_of 10) (write_body s off d) = Inr (WriteMeta s off d)"
  by (simp_all add: command_of_def body_defs with_path_def Let_def nth_append unat_of_nat)

lemma decode_encoded:
  "expressible q \<Longrightarrow> decode crc (fst (encode crc q)) (snd (encode crc q)) = Inr q"
proof (cases q)
  case GetCount
  then show ?thesis by (simp add: decode_def command_of_def)
qed (simp_all add: decode_with_crc minimum_bodies parse_bodies
    del: length_le16 length_le32 length_c_str_bytes)

lemma parse_expressible:
  "parse c b = Inr q \<Longrightarrow> minimum_body c \<le> length b \<Longrightarrow> expressible q"
proof (cases c)
  case bmcBlobCommit
  have "unat (b ! 2) < 256"
    using unsigned_less [of "b ! 2", where 'a = nat] by simp
  then show "parse c b = Inr q \<Longrightarrow> ?thesis"
    using bmcBlobCommit by (auto simp: Let_def split: if_splits)
qed (auto simp: with_path_def Let_def split: if_splits)

lemma decode_expressible: "decode crc cmd d = Inr q \<Longrightarrow> expressible q"
  by (auto simp: decode_def Let_def split: if_splits intro: parse_expressible)

section \<open>The requests a client lays out\<close>

lemma handle_encoded:
  "expressible q \<Longrightarrow>
   handleBlobCommand crc gbi t clk (fst (encode crc q)) (snd (encode crc q)) maxSize (Some m) =
     do { (rp, m) \<leftarrow> perform (BlobManager_methods gbi) q m; Some (respond crc maxSize rp, Some m) }"
  by (simp add: handle_meaning decode_encoded getBlobManager_def)

lemma respond_acknowledge:
  "do { (rp, m) \<leftarrow> acknowledge x; Some (respond crc maxSize rp, Some m) } =
   do { (b, m) \<leftarrow> x; Some (if b then responseSuccess [] else responseUnspecifiedError, Some m) }"
  by (cases x) (auto simp: acknowledge_def)

lemma respond_describe:
  "do { (rp, m) \<leftarrow> describe x; Some (respond crc maxSize rp, Some m) } =
   do { ((b, mt), m) \<leftarrow> x;
        if b then do { st \<leftarrow> blobState mt; sz \<leftarrow> blobSize mt;
                       Some (framed crc maxSize (stat_body st sz (metadata mt)), Some m) }
        else Some (responseUnspecifiedError, Some m) }"
proof (cases x)
  case (Some y)
  obtain b mt m where "y = ((b, mt), m)"
    by (cases y) auto
  then show ?thesis
    using Some by (cases "blobState mt"; cases "blobSize mt") (auto simp: describe_def)
qed (simp add: describe_def)

lemma count_request:
  "handleBlobCommand crc gbi t clk 0 [] maxSize (Some m) =
    do { (n, m') \<leftarrow> buildBlobList gbi m; Some (framed crc maxSize (le32 n), Some m') }"
  using handle_encoded [of GetCount crc gbi t clk maxSize m]
  by (cases "buildBlobList gbi m") auto

lemma enumerate_request:
  "handleBlobCommand crc gbi t clk 1 (with_crc crc (le32 index)) maxSize (Some m) =
    (let p = getBlobId index m in
     Some (if p = [] then responseInvalidFieldRequest else framed crc maxSize (c_str_bytes p), Some m))"
  using handle_encoded [of "Enumerate index" crc gbi t clk maxSize m] by (simp add: Let_def)

lemma open_request:
  "p \<noteq> [] \<Longrightarrow> handleBlobCommand crc gbi t clk 2 (with_crc crc (open_body fl p)) maxSize (Some m) =
    do { ((b, so), m') \<leftarrow> BlobManager_open gbi fl p out_param m;
         if b then do { s \<leftarrow> so; Some (framed crc maxSize (le16 s), Some m') }
         else Some (responseUnspecifiedError, Some m') }"
  using handle_encoded [of "Open fl p" crc gbi t clk maxSize m]
  by (cases "BlobManager_open gbi fl p out_param m") (auto split: option.splits simp: bind_eq_Some_conv)

lemma read_request:
  "handleBlobCommand crc gbi t clk 3 (with_crc crc (read_body s off n)) maxSize (Some m) =
    do { (b, m') \<leftarrow> BlobManager_read gbi s off n m; Some (framed crc maxSize b, Some m') }"
  using handle_encoded [of "Read s off n" crc gbi t clk maxSize m]
  by (cases "BlobManager_read gbi s off n m") auto

lemma write_request:
  "d \<noteq> [] \<Longrightarrow> handleBlobCommand crc gbi t clk 4 (with_crc crc (write_body s off d)) maxSize (Some m) =
    do { (b, m') \<leftarrow> BlobManager_write gbi s off d m;
         Some (if b then responseSuccess [] else responseUnspecifiedError, Some m') }"
  using handle_encoded [of "Write s off d" crc gbi t clk maxSize m] by (simp add: respond_acknowledge)

lemma commit_request:
  "length d < 256 \<Longrightarrow> handleBlobCommand crc gbi t clk 5 (with_crc crc (commit_body s d)) maxSize (Some m) =
    do { (b, m') \<leftarrow> BlobManager_commit gbi s d m;
         Some (if b then responseSuccess [] else responseUnspecifiedError, Some m') }"
  using handle_encoded [of "Commit s d" crc gbi t clk maxSize m] by (simp add: respond_acknowledge)

lemma close_request:
  "handleBlobCommand crc gbi t clk 6 (with_crc crc (le16 s)) maxSize (Some m) =
    do { (b, m') \<leftarrow> BlobManager_close gbi s m;
         Some (if b then responseSuccess [] else responseUnspecifiedError, Some m') }"
  using handle_encoded [of "Close s" crc gbi t clk maxSize m] by (simp add: respond_acknowledge)

lemma delete_request:
  "p \<noteq> [] \<Longrightarrow> handleBlobCommand crc gbi t clk 7 (with_crc crc (c_str_bytes p)) maxSize (Some m) =
    do { (b, m') \<leftarrow> BlobManager_deleteBlob gbi p m;
         Some (if b then responseSuccess [] else responseUnspecifiedError, Some m') }"
  using handle_encoded [of "Delete p" crc gbi t clk maxSize m] by (simp add: respond_acknowledge)

lemma stat_request:
  "p \<noteq> [] \<Longrightarrow> handleBlobCommand crc gbi t clk 8 (with_crc crc (c_str_bytes p)) maxSize (Some m) =
    do { ((b, mt), m') \<leftarrow> BlobManager_statPath gbi p uninit_meta m;
         if b then do { st \<leftarrow> blobState mt; sz \<leftarrow> blobSize mt;
                        Some (framed crc maxSize (stat_body st sz (metadata mt)), Some m') }
         else Some (responseUnspecifiedError, Some m') }"
  using handle_encoded [of "Stat p" crc gbi t clk maxSize m] by (simp add: respond_describe)

lemma sessionStat_request:
  "handleBlobCommand crc gbi t clk 9 (with_crc crc (le16 s)) maxSize (Some m) =
    do { ((b, mt), m') \<leftarrow> BlobManager_stat gbi s uninit_meta m;
         if b then do { st \<leftarrow> blobState mt; sz \<leftarrow> blobSize mt;
                        Some (framed crc maxSize (stat_body st sz (metadata mt)), Some m') }
         else Some (responseUnspecifiedError, Some m') }"
  using handle_encoded [of "SessionStat s" crc gbi t clk maxSize m] by (simp add: respond_describe)

lemma writeMeta_request:
  "d \<noteq> [] \<Longrightarrow> handleBlobCommand crc gbi t clk 10 (with_crc crc (write_body s off d)) maxSize (Some m) =
    do { (b, m') \<leftarrow> BlobManager_writeMeta gbi s off d m;
         Some (if b then responseSuccess [] else responseUnspecifiedError, Some m') }"
  using handle_encoded [of "WriteMeta s off d" crc gbi t clk maxSize m] by (simp add: respond_acknowledge)

end
