(* ===== verification/Ipmi_Props.thy ===== *)
theory Ipmi_Props
  imports Samples Requests
begin

unbundle bit_operations_syntax

text \<open>
  The properties of the wire protocol. A client lays out a request body and puts its
  checksum in front (\<open>with_crc\<close>); \<open>framed\<close> is the reply it gets for a reply body. The
  properties state, for each command, which call of the manager the request becomes and
  how the result comes back. \<open>local_call\<close> and \<open>received\<close> are a client, for whom a call over the
  wire is a local call.
\<close>

lemmas request_defs = validateRequestLength_iff command_of_def sizeof_defs kMinStrLen_def

section \<open>What a request means\<close>

text \<open>
  C6: The daemon does with a request what its meaning says, for every command byte and every
  byte string. A request that \<open>decode\<close> turns away gets the error it gives and reaches no
  manager; any other one becomes exactly one call of the manager, with the arguments that
  stand at their places in the request, and the result comes back in the layout of the
  command, framed with its checksum. The length of a blob's metadata is sent modulo 256.
\<close>

theorem request_meaning:
  "handleBlobCommand crc gbi t clk cmd d maxSize g =
   (let m = getBlobManager t clk g in
    case decode crc cmd d of
      Inl r \<Rightarrow> Some (r, Some m)
    | Inr q \<Rightarrow> do { (rp, m) \<leftarrow> perform (BlobManager_methods gbi) q m;
                   Some (respond crc maxSize rp, Some m) })"
  by (rule handle_meaning)

text \<open>
  A client of the daemon. \<open>local_call\<close> is what it wants: a call of the manager's method with the
  arguments of the request, and the result as a value. \<open>received\<close> is what it makes of a reply: it
  checks the completion code, the checksum and takes the members of the reply out of the bytes.
\<close>

datatype call_result =
    Number u32 | Path string | Session u16 | Contents bytes | Described u16 u32 bytes | Granted | Denied

definition granting :: "(bool \<times> 'm) option \<Rightarrow> (call_result \<times> 'm) option" where
  "granting x = do { (b, m) \<leftarrow> x; Some (if b then Granted else Denied, m) }"

definition describing :: "((bool \<times> BlobMeta) \<times> 'm) option \<Rightarrow> (call_result \<times> 'm) option" where
  "describing x = do { ((b, mt), m) \<leftarrow> x;
     if b then do { st \<leftarrow> blobState mt; sz \<leftarrow> blobSize mt; Some (Described st sz (metadata mt), m) }
     else Some (Denied, m) }"

fun local_call ::
    "'h GenericBlobInterface \<Rightarrow> client_request \<Rightarrow> 'h BlobManager \<Rightarrow> (call_result \<times> 'h BlobManager) option" where
  "local_call gbi GetCount m = map_option (apfst Number) (buildBlobList gbi m)"
| "local_call gbi (Enumerate i) m = (let p = getBlobId i m in Some (if p = [] then Denied else Path p, m))"
| "local_call gbi (Open f p) m = do { ((b, so), m) \<leftarrow> BlobManager_open gbi f p out_param m;
     if b then do { s \<leftarrow> so; Some (Session s, m) } else Some (Denied, m) }"
| "local_call gbi (Read s off n) m = map_option (apfst Contents) (BlobManager_read gbi s off n m)"
| "local_call gbi (Write s off d) m = granting (BlobManager_write gbi s off d m)"
| "local_call gbi (Commit s d) m = granting (BlobManager_commit gbi s d m)"
| "local_call gbi (Close s) m = granting (BlobManager_close gbi s m)"
| "local_call gbi (Delete p) m = granting (BlobManager_deleteBlob gbi p m)"
| "local_call gbi (Stat p) m = describing (BlobManager_statPath gbi p uninit_meta m)"
| "local_call gbi (SessionStat s) m = describing (BlobManager_stat gbi s uninit_meta m)"
| "local_call gbi (WriteMeta s off d) m = granting (BlobManager_writeMeta gbi s off d m)"

definition payload :: "(bytes \<Rightarrow> u16) \<Rightarrow> resp \<Rightarrow> bytes option" where
  "payload crc r = (case r of
       (cc, Some b) \<Rightarrow> if cc = ccSuccess \<and> 2 \<le> length b \<and> u16_at b 0 = crc (drop 2 b) then Some (drop 2 b) else None
     | (cc, None) \<Rightarrow> None)"

definition received_flag :: "resp \<Rightarrow> call_result option" where
  "received_flag r = (if r = responseSuccess [] then Some Granted
     else if r = responseUnspecifiedError then Some Denied else None)"

definition received_stat :: "(bytes \<Rightarrow> u16) \<Rightarrow> resp \<Rightarrow> call_result option" where
  "received_stat crc r = (if r = responseUnspecifiedError then Some Denied
     else map_option (\<lambda>b. Described (u16_at b 0) (u32_at b 2) (take (unat (b ! 6)) (drop 7 b))) (payload crc r))"

fun received :: "(bytes \<Rightarrow> u16) \<Rightarrow> client_request \<Rightarrow> resp \<Rightarrow> call_result option" where
  "received crc GetCount r = map_option (\<lambda>b. Number (u32_at b 0)) (payload crc r)"
| "received crc (Enumerate i) r = (if r = responseInvalidFieldRequest then Some Denied
     else map_option (\<lambda>b. Path (map char_of_byte (butlast b))) (payload crc r))"
| "received crc (Open f p) r = (if r = responseUnspecifiedError then Some Denied
     else map_option (\<lambda>b. Session (u16_at b 0)) (payload crc r))"
| "received crc (Read s off n) r = map_option Contents (payload crc r)"
| "received crc (Stat p) r = received_stat crc r"
| "received crc (SessionStat s) r = received_stat crc r"
| "received crc q r = received_flag r"

text \<open>The results that a reply on a channel of size \<open>maxSize\<close> can carry.\<close>

fun carried :: "nat \<Rightarrow> call_result \<Rightarrow> bool" where
  "carried maxSize (Number n) \<longleftrightarrow> 6 \<le> maxSize"
| "carried maxSize (Path p) \<longleftrightarrow> length p + 3 \<le> maxSize"
| "carried maxSize (Session s) \<longleftrightarrow> 4 \<le> maxSize"
| "carried maxSize (Contents d) \<longleftrightarrow> length d + 2 \<le> maxSize"
| "carried maxSize (Described st sz md) \<longleftrightarrow> length md < 256 \<and> length md + 9 \<le> maxSize"
| "carried maxSize _ \<longleftrightarrow> True"

lemma payload_framed:
  "length b + 2 \<le> maxSize \<Longrightarrow> payload crc (framed crc maxSize b) = Some b"
  "framed crc maxSize b \<noteq> responseUnspecifiedError" "framed crc maxSize b \<noteq> responseInvalidFieldRequest"
  by (simp_all add: payload_def framed_def with_crc_def)

lemma received_flag_respond:
  "granting x = Some (v, m') \<Longrightarrow>
   \<exists>rp. acknowledge x = Some (rp, m') \<and> received_flag (respond crc maxSize rp) = Some v"
  by (intro exI [of _ "if v = Granted then Acknowledged else Refused"])
     (auto simp: granting_def acknowledge_def received_flag_def bind_eq_Some_conv split: if_splits)

lemma received_stat_body:
  assumes "length md < 256" and "length md + 9 \<le> maxSize"
  shows "received_stat crc (framed crc maxSize (stat_body st sz md)) = Some (Described st sz md)"
proof -
  have "payload crc (framed crc maxSize (stat_body st sz md)) = Some (stat_body st sz md)"
    using assms by (intro payload_framed) (simp add: stat_body_def)
  moreover have "u16_at (stat_body st sz md) 0 = st" "u32_at (stat_body st sz md) 2 = sz"
    by (simp_all add: stat_body_def)
  moreover have "stat_body st sz md ! 6 = word_of_nat (length md)" "drop 7 (stat_body st sz md) = md"
    by (simp_all add: stat_body_def nth_append)
  moreover have "unat (word_of_nat (length md) :: byte) = length md"
    using assms(1) by (simp add: unat_of_nat)
  ultimately show ?thesis
    by (simp add: received_stat_def payload_framed)
qed

lemma received_stat_respond:
  assumes "describing x = Some (v, m')" and "carried maxSize v"
  shows "\<exists>rp. describe x = Some (rp, m') \<and> received_stat crc (respond crc maxSize rp) = Some v"
proof -
  obtain b mt m where x: "x = Some ((b, mt), m)"
    using assms(1) by (cases x) (auto simp: describing_def)
  show ?thesis
  proof (cases b)
    case True
    then show ?thesis
      using assms x
      by (cases "blobState mt"; cases "blobSize mt") (auto simp: describing_def describe_def received_stat_body)
  qed (use assms x in \<open>simp add: describing_def describe_def received_stat_def\<close>)
qed

text \<open>
  C25: A call over the wire is a local call. A client lays out any request that the protocol can
  express, sends it to the daemon, and reads the reply. If the result of the manager's method fits
  the channel (and the metadata of a stat its length byte), what the client reads is this very
  result, and the manager is in the state the method has left it in: nothing is lost or changed
  in the arguments on the way there or in the result on the way back.
\<close>

theorem remote_call:
  assumes "expressible q" and "local_call gbi q m = Some (v, m')" and "carried maxSize v"
  shows "\<exists>r. handleBlobCommand crc gbi t clk (fst (encode crc q)) (snd (encode crc q)) maxSize (Some m) =
      Some (r, Some m') \<and> received crc q r = Some v"
proof -
  have "\<exists>rp. perform (BlobManager_methods gbi) q m = Some (rp, m') \<and> received crc q (respond crc maxSize rp) = Some v"
  proof (cases q)
    case (Enumerate i)
    then show ?thesis
      using assms(2,3) by (auto simp: Let_def payload_framed c_str_bytes_def comp_def split: if_splits)
  next
    case (Open f p)
    then show ?thesis
      using assms(2,3)
      by (intro exI [of _ "case v of Session s \<Rightarrow> Answer (le16 s) | _ \<Rightarrow> Refused"])
         (auto simp: bind_eq_Some_conv payload_framed split: if_splits)
  qed (use assms(2,3) received_flag_respond received_stat_respond in
    \<open>auto simp: payload_framed apfst_def map_prod_def\<close>)
  then obtain rp where "perform (BlobManager_methods gbi) q m = Some (rp, m')"
    and v: "received crc q (respond crc maxSize rp) = Some v"
    by blast
  then have "handleBlobCommand crc gbi t clk (fst (encode crc q)) (snd (encode crc q)) maxSize (Some m) =
      Some (respond crc maxSize rp, Some m')"
    using handle_encoded [OF assms(1), of crc gbi t clk maxSize m] by simp
  then show ?thesis
    using v by blast
qed

lemma remote_call_witness:
  "\<exists>r. handleBlobCommand demo_crc ExampleBlobHandler_methods 0 (\<lambda>k. 0) 2
      (with_crc demo_crc (open_body 3 supportedPath)) 64 (Some demo_start) = Some (r, Some demo_open)
    \<and> received demo_crc (Open 3 supportedPath) r = Some (Session 5)"
  using remote_call [of "Open 3 supportedPath" ExampleBlobHandler_methods demo_start "Session 5" demo_open 64
      demo_crc 0 "\<lambda>k. 0"] by (simp add: demo_opens)

text \<open>
  C26: Every request has a canonical form. If the bytes of a request decode at all, trailing
  bytes, a missing checksum or whatever else notwithstanding, the request fits the layout of
  the protocol, and the daemon serves it exactly as it serves that layout: the same reply and
  the same state.
\<close>

theorem requests_canonical:
  assumes "decode crc cmd d = Inr q"
  shows "expressible q \<and> handleBlobCommand crc gbi t clk cmd d maxSize g =
    handleBlobCommand crc gbi t clk (fst (encode crc q)) (snd (encode crc q)) maxSize g"
  using decode_expressible [OF assms] by (simp add: handle_meaning assms decode_encoded)

lemma requests_canonical_witness:
  "handleBlobCommand demo_crc ExampleBlobHandler_methods 0 (\<lambda>k. 0) 6 [3, 0, 5, 0, 99] 64 (Some demo_open) =
   handleBlobCommand demo_crc ExampleBlobHandler_methods 0 (\<lambda>k. 0) 6 (with_crc demo_crc (le16 5)) 64
     (Some demo_open)"
proof -
  have "decode demo_crc 6 [3, 0, 5, 0, 99] = Inr (Close 5)"
    by (simp add: decode_def command_of_def u16_at_def of_le16_def demo_crc_def Let_def)
  then show ?thesis
    using requests_canonical [of demo_crc 6 "[3, 0, 5, 0, 99]" "Close 5"] by simp
qed

section \<open>The commands\<close>

lemma demo_open_request:
  "handleBlobCommand demo_crc ExampleBlobHandler_methods 0 (\<lambda>k. 0) 2
     (with_crc demo_crc (open_body 3 supportedPath)) 64 (Some demo_start) =
   Some (framed demo_crc 64 (le16 5), Some demo_open)"
  by (subst open_request) (simp_all add: demo_opens)

text \<open>
  An open request gets as its reply the number of a session that did not exist before
  and now does, with the path and the flags of the request, or else an error, and then no
  session has been added.
\<close>

theorem open_over_ipmi:
  assumes "blob_handler gbi hinv live accepts" and "mgr_inv hinv live m" and "p \<noteq> []"
  shows "\<exists>r m'. handleBlobCommand crc gbi t clk 2 (with_crc crc (open_body fl p)) maxSize (Some m) =
      Some (r, Some m') \<and>
    ((\<exists>s i now. r = framed crc maxSize (le16 s) \<and> sessions m s = None \<and> i < length (handlers m)
       \<and> sessions m' s = Some \<lparr>blobId = p, handler = Some i, flags = fl, lastActionTime = now\<rparr>)
     \<or> r = responseUnspecifiedError \<and> dom (sessions m') \<subseteq> dom (sessions m))"
proof -
  obtain b so m' where o: "BlobManager_open gbi fl p out_param m = Some ((b, so), m')"
    using blob_handler.BlobManager_open_ok [OF assms(1,2), of fl p out_param] by (auto simp: ok_iff)
  note ok = ok_SomeD [OF blob_handler.BlobManager_open_ok [OF assms(1,2)] o, simplified]
  show ?thesis
  proof (cases b)
    case True
    then obtain s where s: "so = Some s"
      using ok by blast
    then have "\<exists>i now. i < length (handlers m) \<and> sessions m' s =
        Some \<lparr>blobId = p, handler = Some i, flags = fl, lastActionTime = now\<rparr>"
      using ok True by metis
    then show ?thesis
      using open_request [OF assms(3), of crc gbi t clk fl maxSize m] o ok True s by auto
  next
    case False
    then have "dom (sessions m') \<subseteq> dom (sessions m)"
      using ok by (auto simp: only_expired_def) (metis option.distinct(1))
    then show ?thesis
      using open_request [OF assms(3), of crc gbi t clk fl maxSize m] o False by auto
  qed
qed

lemma open_over_ipmi_witness:
  "\<exists>r m'. handleBlobCommand demo_crc ExampleBlobHandler_methods 0 (\<lambda>k. 0) 2
      (with_crc demo_crc (open_body 3 ''x'')) 64 (Some demo_open) = Some (r, Some m') \<and>
    ((\<exists>s i now. r = framed demo_crc 64 (le16 s) \<and> sessions demo_open s = None
       \<and> i < length (handlers demo_open)
       \<and> sessions m' s = Some \<lparr>blobId = ''x'', handler = Some i, flags = 3, lastActionTime = now\<rparr>)
     \<or> r = responseUnspecifiedError \<and> dom (sessions m') \<subseteq> dom (sessions demo_open))"
  by (rule open_over_ipmi [OF example.blob_handler_axioms demo_open_inv]) simp

text \<open>
  Delete and stat requests for a path are the calls of the manager's \<open>deleteBlob\<close> and
  \<open>stat\<close> for this path. The stat reply carries state, size, the length of the metadata in
  one byte, that is modulo 256, and then all of the metadata.
\<close>

theorem path_commands_over_ipmi:
  assumes "p \<noteq> []"
  shows "handleBlobCommand crc gbi t clk 7 (with_crc crc (c_str_bytes p)) maxSize (Some m) =
    do { (b, m') \<leftarrow> BlobManager_deleteBlob gbi p m;
         Some (if b then responseSuccess [] else responseUnspecifiedError, Some m') }
   \<and> handleBlobCommand crc gbi t clk 8 (with_crc crc (c_str_bytes p)) maxSize (Some m) =
    do { ((b, mt), m') \<leftarrow> BlobManager_statPath gbi p uninit_meta m;
         if b then do { st \<leftarrow> blobState mt; sz \<leftarrow> blobSize mt;
                        Some (framed crc maxSize (stat_body st sz (metadata mt)), Some m') }
         else Some (responseUnspecifiedError, Some m') }"
  by (intro conjI delete_request stat_request assms)

lemma path_commands_over_ipmi_witness:
  "handleBlobCommand demo_crc ExampleBlobHandler_methods 0 (\<lambda>k. 0) 8
     (with_crc demo_crc (c_str_bytes ''x'')) 64 (Some demo_open) =
   Some (responseUnspecifiedError, Some demo_open)"
  using path_commands_over_ipmi [of "''x''" demo_crc ExampleBlobHandler_methods 0 "\<lambda>k. 0" 64 demo_open]
  by (simp add: BlobManager_statPath_def getHandler_def demo_open_def Example_canHandleBlob_def
      supportedPath_def)

text \<open>
  Close, session-stat and commit requests are the calls of the manager's methods for
  the session they name; a commit hands over exactly the bytes its length byte announces,
  at most 255.
\<close>

theorem session_commands_over_ipmi:
  assumes "length d < 256"
  shows "handleBlobCommand crc gbi t clk 6 (with_crc crc (le16 s)) maxSize (Some m) =
    do { (b, m') \<leftarrow> BlobManager_close gbi s m;
         Some (if b then responseSuccess [] else responseUnspecifiedError, Some m') }
   \<and> handleBlobCommand crc gbi t clk 9 (with_crc crc (le16 s)) maxSize (Some m) =
    do { ((b, mt), m') \<leftarrow> BlobManager_stat gbi s uninit_meta m;
         if b then do { st \<leftarrow> blobState mt; sz \<leftarrow> blobSize mt;
                        Some (framed crc maxSize (stat_body st sz (metadata mt)), Some m') }
         else Some (responseUnspecifiedError, Some m') }
   \<and> handleBlobCommand crc gbi t clk 5 (with_crc crc (commit_body s d)) maxSize (Some m) =
    do { (b, m') \<leftarrow> BlobManager_commit gbi s d m;
         Some (if b then responseSuccess [] else responseUnspecifiedError, Some m') }"
  by (intro conjI close_request sessionStat_request commit_request assms)

lemma session_commands_over_ipmi_witness:
  "handleBlobCommand demo_crc ExampleBlobHandler_methods 0 (\<lambda>k. 0) 6
     (with_crc demo_crc (le16 5)) 64 (Some demo_open) =
   Some (responseSuccess [], Some (demo_start\<lparr>next_session := 6, openSessions := [0 \<mapsto> {}]\<rparr>))"
  using session_commands_over_ipmi [of "[]" demo_crc ExampleBlobHandler_methods 0 "\<lambda>k. 0" 5 64 demo_open]
  by (simp add: demo_close)

text \<open>
  Read, write and metadata-write requests are the calls of the manager's methods with
  exactly their session, offset and bytes. A read reply carries the bytes the manager
  returned; a reply too long for the channel becomes an error, but the manager's state has
  changed all the same.
\<close>

theorem data_commands_over_ipmi:
  assumes "d \<noteq> []"
  shows "handleBlobCommand crc gbi t clk 3 (with_crc crc (read_body s off n)) maxSize (Some m) =
    do { (b, m') \<leftarrow> BlobManager_read gbi s off n m; Some (framed crc maxSize b, Some m') }
   \<and> handleBlobCommand crc gbi t clk 4 (with_crc crc (write_body s off d)) maxSize (Some m) =
    do { (b, m') \<leftarrow> BlobManager_write gbi s off d m;
         Some (if b then responseSuccess [] else responseUnspecifiedError, Some m') }
   \<and> handleBlobCommand crc gbi t clk 10 (with_crc crc (write_body s off d)) maxSize (Some m) =
    do { (b, m') \<leftarrow> BlobManager_writeMeta gbi s off d m;
         Some (if b then responseSuccess [] else responseUnspecifiedError, Some m') }"
  by (intro conjI read_request write_request writeMeta_request assms)

lemma data_commands_over_ipmi_witness:
  "handleBlobCommand demo_crc ExampleBlobHandler_methods 0 (\<lambda>k. 0) 10
     (with_crc demo_crc (write_body 7 0 [1])) 64 (Some demo_open) =
   Some (responseUnspecifiedError, Some demo_open)"
  using data_commands_over_ipmi [of "[1]" demo_crc ExampleBlobHandler_methods 0 "\<lambda>k. 0" 7 0 0 64 demo_open]
  by (simp add: BlobManager_writeMeta_def getActionHandler_None demo_open_def)

text \<open>
  A count request, which has no body, rebuilds the list of blobs and replies its
  length; an enumerate request replies the entry of the list as last built, with its
  terminating zero byte, or an error from the end of the list on.
\<close>

theorem list_commands_over_ipmi:
  "handleBlobCommand crc gbi t clk 0 [] maxSize (Some m) =
    do { (n, m') \<leftarrow> buildBlobList gbi m; Some (framed crc maxSize (le32 n), Some m') }
   \<and> handleBlobCommand crc gbi t clk 1 (with_crc crc (le32 index)) maxSize (Some m) =
    (let p = getBlobId index m in
     Some (if p = [] then responseInvalidFieldRequest else framed crc maxSize (c_str_bytes p), Some m))"
  using count_request enumerate_request by blast

section \<open>Requests that are not well formed, and replies\<close>

text \<open>
  A body of one byte passes without a checksum: a count request with one arbitrary byte
  behind it is served like the one without.
\<close>

theorem single_byte_unchecked:
  "handleBlobCommand crc gbi t clk 0 [b] maxSize g = handleBlobCommand crc gbi t clk 0 [] maxSize g"
  by (simp add: handleBlobCommand_def validateBlobCommand_cases lookup_handler_def command_of_def
      validateRequestLength_iff processBlobCommand_finish getBlobCount_def)

lemma finish_success:
  "finish crc maxSize r = Some (ccSuccess, p) \<Longrightarrow>
     p = Some [] \<or> (\<exists>body. p = Some (with_crc crc body) \<and> length body + 2 \<le> maxSize)"
  by (auto simp: finish_def framed_def split: if_splits)

text \<open>
  C28: Every successful reply of the daemon is either empty or starts with the checksum of
  the rest and fits the channel.
\<close>

theorem reply_framed:
  assumes "handleBlobCommand crc gbi t clk cmd d maxSize g = Some ((ccSuccess, p), g')"
  shows "p = Some [] \<or>
    (\<exists>body. p = Some (le16 (crc body) @ body) \<and> length (le16 (crc body) @ body) \<le> maxSize)"
proof -
  have "\<exists>r. finish crc maxSize r = Some (ccSuccess, p)"
    using assms by (auto simp: handleBlobCommand_def processBlobCommand_finish bind_eq_Some_conv)
  then show ?thesis
    using finish_success [of crc maxSize _ p] by (auto simp: with_crc_def)
qed

lemma reply_framed_witness:
  "\<exists>body. Some (with_crc demo_crc (le32 1)) = Some (le16 (demo_crc body) @ body)
     \<and> length (le16 (demo_crc body) @ body) \<le> 64"
proof -
  have "handleBlobCommand demo_crc ExampleBlobHandler_methods 0 (\<lambda>k. 0) 0 [] 64 (Some demo_open) =
      Some ((ccSuccess, Some (with_crc demo_crc (le32 1))), Some (demo_open\<lparr>ids := [supportedPath]\<rparr>))"
    by (simp add: handleBlobCommand_def validateBlobCommand_cases lookup_handler_def command_of_def
         validateRequestLength_iff getBlobManager_def processBlobCommand_finish getBlobCount_def
         bytes_of_BmcBlobCountRx_def buildBlobList_def Example_getBlobIds_def demo_open_def framed_def)
  from reply_framed [OF this] show ?thesis
    by (simp add: with_crc_def)
qed

section \<open>Strings and lengths\<close>

text \<open>
  \<open>stringFromBuffer\<close> returns a given non-empty string for exactly one buffer: the
  string with a terminating zero byte. Every other buffer gives another string, and one
  that does not end in a zero byte the empty string, which the path commands refuse.
\<close>

theorem stringFromBuffer_iff:
  "(stringFromBuffer d = p \<longleftrightarrow> d = map byte_of_char p @ [0] \<or> p = [] \<and> (d = [] \<or> last d \<noteq> 0))"
  by (cases d rule: rev_cases) (auto simp: stringFromBuffer_def comp_def)

lemma stringFromBuffer_iff_witness: "stringFromBuffer [47, 120, 0] = ''/x''"
  using stringFromBuffer_iff [of "[47, 120, 0]" "''/x''"] by (simp add: byte_of_char_def)

text \<open>
  C38: The handlers for enumerate, open, delete, stat, commit and write do not look at the
  length of the request before they read it: on a request shorter than the fixed part of
  their struct they read past its end. The length check in front of them is what keeps them
  safe. The other handlers check for themselves.
\<close>

theorem length_check_needed:
  "(length d < sizeof_BmcBlobEnumerateTx \<longrightarrow> enumerateBlob mgr d m = None)
   \<and> (length d < sizeof_BmcBlobOpenTx \<longrightarrow> openBlob mgr d m = None)
   \<and> (length d < sizeof_BmcBlobDeleteTx \<longrightarrow> deleteBlob mgr d m = None)
   \<and> (length d < sizeof_BmcBlobStatTx \<longrightarrow> statBlob mgr d m = None)
   \<and> (length d < sizeof_BmcBlobCommitTx \<longrightarrow> commitBlob mgr d m = None)
   \<and> (length d < sizeof_BmcBlobWriteTx \<longrightarrow> writeBlob mgr d m = None)
   \<and> (length d < sizeof_BmcBlobCloseTx \<longrightarrow> closeBlob mgr d m = Some (responseReqDataLenInvalid, m))
   \<and> (length d < sizeof_BmcBlobSessionStatTx \<longrightarrow> sessionStatBlob mgr d m = Some (responseReqDataLenInvalid, m))
   \<and> (length d < sizeof_BmcBlobReadTx \<longrightarrow> readBlob mgr d m = Some (responseReqDataLenInvalid, m))
   \<and> (length d < sizeof_BmcBlobWriteMetaTx \<longrightarrow> writeMeta mgr d m = Some (responseReqDataLenInvalid, m))"
  by (auto simp: enumerateBlob_def openBlob_def deleteBlob_def statBlob_def commitBlob_def writeBlob_def
      closeBlob_def sessionStatBlob_def readBlob_def writeMeta_def sizeof_defs read_defs subspan_def
      rd8_def rd16_def rd32_def bind_eq_None_conv split: if_splits)

lemma length_check_needed_witness:
  "enumerateBlob (BlobManager_methods ExampleBlobHandler_methods) [0, 0, 0] demo_open = None"
  using length_check_needed [of "[0, 0, 0]" "BlobManager_methods ExampleBlobHandler_methods" demo_open]
  by (simp add: sizeof_defs)

text \<open>
  A commit request whose length byte announces more bytes than follow is refused
  without a call of the manager; one that announces fewer is committed with exactly the
  announced bytes, and the rest is ignored.
\<close>

theorem commit_length_byte:
  "commitBlob mgr (le16 c @ le16 s @ [n] @ rest) m =
     (if length rest < unat n then Some (responseReqDataLenInvalid, m)
      else do { (b, m') \<leftarrow> mi_commit mgr s (take (unat n) rest) m;
                Some (if b then responseSuccess [] else responseUnspecifiedError, m') })"
proof -
  let ?q = "le16 c @ le16 s @ [n] @ rest"
  have q: "rd16 ?q 2 = Some s" "rd8 ?q 4 = Some n" "length ?q = length rest + 5" "drop 5 ?q = rest"
    by (simp_all add: rd_request rd8_def nth_append)
  show ?thesis
    unfolding commitBlob_def sizeof_defs
    by (simp only: q Option.bind.bind_lunit)
      (cases "mi_commit mgr s (take (unat n) rest) m", auto simp: subspan_n_def q)
qed

section \<open>The type of a reply\<close>

text \<open>
  What the payload of a successful reply to a command looks like, behind the two bytes of the
  checksum; a command without an enumerator never succeeds.
\<close>

fun payload_type :: "BlobOEMCommands \<Rightarrow> bytes \<Rightarrow> bool" where
  "payload_type bmcBlobGetCount p \<longleftrightarrow> length p = 2 + 4"
| "payload_type bmcBlobEnumerate p \<longleftrightarrow> (\<exists>n. n \<noteq> [] \<and> drop 2 p = c_str_bytes n) \<and> 2 \<le> length p"
| "payload_type bmcBlobOpen p \<longleftrightarrow> length p = 2 + 2"
| "payload_type bmcBlobRead p \<longleftrightarrow> 2 \<le> length p"
| "payload_type bmcBlobStat p \<longleftrightarrow> 9 \<le> length p \<and> drop 2 p ! 6 = word_of_nat (length p - 9)"
| "payload_type bmcBlobSessionStat p \<longleftrightarrow> 9 \<le> length p \<and> drop 2 p ! 6 = word_of_nat (length p - 9)"
| "payload_type (unnamed_command c) p \<longleftrightarrow> False"
| "payload_type _ p \<longleftrightarrow> p = []"

fun reply_type :: "BlobOEMCommands \<Rightarrow> resp \<Rightarrow> bool" where
  "reply_type c (ccSuccess, Some p) \<longleftrightarrow> payload_type c p"
| "reply_type c (ccSuccess, None) \<longleftrightarrow> False"
| "reply_type c (ccOther b, p) \<longleftrightarrow> False"
| "reply_type c (cc, p) \<longleftrightarrow> p = None"

lemma payload_type_cong:
  "payload_type c p \<Longrightarrow> p \<noteq> [] \<Longrightarrow> length p' = length p \<Longrightarrow> drop 2 p' = drop 2 p \<Longrightarrow> payload_type c p'"
  by (cases c) auto

lemma finish_type:
  assumes "reply_type c r" and "finish crc maxSize r = Some r'"
  shows "reply_type c r'"
proof (cases r)
  case (Pair cc p)
  show ?thesis
  proof (cases "cc = ccSuccess")
    case True
    then obtain q where p: "p = Some q" and q: "payload_type c q"
      using assms(1) Pair by (cases p) auto
    have "payload_type c (with_crc crc (drop 2 q))" if "2 \<le> length q"
      using that by (intro payload_type_cong [OF q]) (auto simp: with_crc_def)
    then show ?thesis
      using assms(2) q by (auto simp: Pair True p finish_def framed_def split: if_splits)
  next
    case False
    then show ?thesis using assms by (auto simp: Pair finish_def)
  qed
qed

lemma returnStatBlob_type:
  assumes "returnStatBlob mt = Some r" and "c = bmcBlobStat \<or> c = bmcBlobSessionStat"
  shows "reply_type c r"
  using assms by (auto simp: returnStatBlob_def bind_eq_Some_conv bytes_of_BmcBlobStatRx_def nth_append
      le16_def le32_def)

lemma command_type:
  assumes "command_handlers c = Some f" and "f mgr d m = Some (r, m')"
  shows "reply_type c r"
proof (cases c)
  case bmcBlobStat
  then show ?thesis
    using assms returnStatBlob_type [of _ r c]
    by (auto simp: statBlob_def bind_eq_Some_conv Let_def split: if_splits)
next
  case bmcBlobSessionStat
  then show ?thesis
    using assms returnStatBlob_type [of _ r c]
    by (auto simp: sessionStatBlob_def bind_eq_Some_conv split: if_splits)
qed (use assms in \<open>auto simp: getBlobCount_def enumerateBlob_def openBlob_def readBlob_def writeBlob_def
    commitBlob_def closeBlob_def deleteBlob_def writeMeta_def bytes_of_BmcBlobCountRx_def
    bytes_of_BmcBlobOpenRx_def sizeof_defs bind_eq_Some_conv Let_def split: if_splits\<close>)

text \<open>
  C29: Replies have the type of their command. Whatever the request, the state and the
  handlers, a reply is one of four errors without a payload, or it is a success whose payload
  has the layout of the command: six bytes for a count, four for an open, a checksum and a
  non-empty zero-terminated name for an enumerate, at least the checksum for a read, the nine
  bytes of the stat struct with its length byte and as much metadata, and nothing for the
  others. An unknown command never succeeds.
\<close>

theorem reply_has_type:
  assumes "handleBlobCommand crc gbi t clk cmd d maxSize g = Some (r, g')"
  shows "reply_type (command_of cmd) r"
proof -
  let ?c = "command_of cmd"
  obtain f r0 m0 where f: "validateBlobCommand crc cmd d = Some f"
    and r0: "f (BlobManager_methods gbi) d (getBlobManager t clk g) = Some (r0, m0)"
    and r: "finish crc maxSize r0 = Some r"
    using assms by (auto simp: handleBlobCommand_def processBlobCommand_finish bind_eq_Some_conv)
  have "reply_type ?c r0"
  proof (cases "command_handlers ?c :: ('a, 'a BlobManager) IpmiBlobHandler option")
    case None
    then show ?thesis
      using f r0 by (auto simp: validateBlobCommand_cases lookup_handler_def reject_def split: if_splits)
  next
    case (Some h)
    then show ?thesis
      using f r0 command_type [OF Some]
      by (auto simp: validateBlobCommand_cases lookup_handler_def reject_def split: if_splits)
  qed
  then show ?thesis
    using r by (rule finish_type)
qed

lemma reply_has_type_witness:
  "reply_type (command_of 3) (responseSuccess (with_crc demo_crc []))"
proof -
  have "handleBlobCommand demo_crc ExampleBlobHandler_methods 0 (\<lambda>k. 0) 3
      (with_crc demo_crc (read_body 7 0 4)) 64 (Some demo_open) =
      Some (responseSuccess (with_crc demo_crc []), Some demo_open)"
    by (simp add: read_request BlobManager_read_def getActionHandler_None demo_open_def framed_def)
  then show ?thesis
    by (rule reply_has_type)
qed

end
