(* ===== verification/Example_Props.thy ===== *)
theory Example_Props
  imports Manager_Props Ipmi_Props
begin

unbundle bit_operations_syntax

text \<open>
  The properties of the example handler: what a session's buffer holds after a write, which
  writes are refused, what a new session reads, and a whole exchange of a client with the
  daemon running this handler.
\<close>

section \<open>The buffer of a session\<close>

text \<open>
  C35: After a successful write, any read of the session, whatever its range, returns the
  written bytes where it overlaps the write and what the buffer held before elsewhere, cut
  off at the end of the buffer; other sessions read as before.
\<close>

theorem example_read_after_write:
  assumes "Example_write s off d h = Some (True, h')"
  shows "\<exists>b. eh_sessions h s = Some b \<and> (\<forall>off' n.
      Example_read s off' n h' = Some (map
        (\<lambda>i. if unat off \<le> i \<and> i < unat off + length d then d ! (i - unat off) else eb_buffer b i)
        [unat off'..<min kBufferSize (unat off' + unat n)], h'))
    \<and> (\<forall>s' off' n. s' \<noteq> s \<longrightarrow>
        map_option fst (Example_read s' off' n h') = map_option fst (Example_read s' off' n h))"
proof -
  obtain b where b: "eh_sessions h s = Some b"
    and h': "h' = h\<lparr>eh_sessions := (eh_sessions h)(s \<mapsto> written b (unat off) d)\<rparr>"
    using assms by (auto simp: Example_write_eq split: option.splits if_splits)
  then show ?thesis
    by (simp add: Example_read_eq written_def)
qed

definition demo_bytes :: bytes where
  "demo_bytes = [10, 20, 30]"

definition demo_written :: ExampleBlobHandler where
  "demo_written = \<lparr>eh_sessions = [5 \<mapsto> written demo_blob 100 demo_bytes], eh_uninit = (\<lambda>k i. 0)\<rparr>"

lemma demo_write:
  "Example_write 5 100 demo_bytes \<lparr>eh_sessions = [5 \<mapsto> demo_blob], eh_uninit = (\<lambda>k i. 0)\<rparr> =
     Some (True, demo_written)"
  by (simp add: Example_write_eq demo_written_def demo_bytes_def kBufferSize_def)

lemma example_read_after_write_witness:
  "map_option fst (Example_read 5 99 5 demo_written) = Some [0, 10, 20, 30, 0]"
proof -
  have "[99..<104] = [99, 100, 101, 102, 103 :: nat]"
    by (simp add: upt_rec)
  then show ?thesis
    using example_read_after_write [OF demo_write]
    by (auto simp: demo_blob_def demo_bytes_def kBufferSize_def)
qed

text \<open>
  A write never leaves the buffer. It succeeds exactly when the session exists, the
  offset lies in the buffer and offset and length together stay in it; then the recorded
  length becomes the high-water mark of all writes. Otherwise nothing changes.
\<close>

theorem example_write_bounds:
  assumes "example_inv h"
  shows "\<exists>b h'. Example_write s off d h = Some (b, h')
    \<and> (b \<longleftrightarrow> eh_sessions h s \<noteq> None \<and> unat off < 1024 \<and> unat off + length d \<le> 1024)
    \<and> (\<not> b \<longrightarrow> h' = h)
    \<and> (b \<longrightarrow> (\<exists>sess sess'. eh_sessions h s = Some sess \<and> eh_sessions h' s = Some sess'
         \<and> unat (eb_length sess') = max (unat off + length d) (unat (eb_length sess))
         \<and> unat (eb_length sess') \<le> 1024))"
proof (cases "\<exists>b. eh_sessions h s = Some b \<and> unat off < 1024 \<and> unat off + length d \<le> 1024")
  case False
  then show ?thesis
    by (cases "eh_sessions h s") (auto simp: Example_write_eq kBufferSize_def)
next
  case True
  then obtain b where b: "eh_sessions h s = Some b" "unat off < 1024" "unat off + length d \<le> 1024"
    by blast
  have "unat (eb_length b) \<le> 1024"
    using assms b(1) by (auto simp: example_inv_def kBufferSize_def)
  then have "unat (eb_length (written b (unat off) d)) = max (unat off + length d) (unat (eb_length b))"
    using b(3) by (simp add: written_def unat_of_nat)
  then show ?thesis
    using b \<open>unat (eb_length b) \<le> 1024\<close>
    by (intro exI [where x = True]) (simp add: Example_write_eq kBufferSize_def)
qed

lemma example_write_bounds_witness:
  "\<exists>h'. Example_write 5 1024 [1] demo_written = Some (False, h') \<and> h' = demo_written"
proof -
  have "example_inv demo_written"
    by (simp add: example_inv_def demo_written_def demo_blob_def written_def demo_bytes_def
        kBufferSize_def flag_defs)
  from example_write_bounds [OF this, of 5 1024 "[1]"] show ?thesis
    by auto
qed

text \<open>
  C39: A session that has just been opened and not written to reads the previous contents of
  the memory of its buffer, although its length is 0: \<open>read\<close> does not look at the length.
\<close>

theorem example_reads_uninitialised:
  assumes "Example_open s fl supportedPath h = Some (True, h')"
  shows "Example_read s 0 1024 h' = Some (map (eh_uninit h 0) [0..<1024], h')
    \<and> (\<forall>mt. map_option (blobSize \<circ> snd \<circ> fst) (Example_stat s mt h') = Some (Some 0))"
proof -
  have "eh_sessions h' s = Some (new_ExampleBlob s fl (eh_uninit h 0))"
    using assms by (auto simp: Example_open_def Example_canHandleBlob_def split: if_splits)
  then show ?thesis
    by (simp add: Example_read_eq Example_stat_def Example_getSession_def new_ExampleBlob_def kBufferSize_def)
qed

lemma example_reads_uninitialised_witness:
  "\<exists>h'. Example_open 7 3 supportedPath (createHandler (\<lambda>k i. 0xff)) = Some (True, h')
     \<and> Example_read 7 0 1024 h' = Some (map (\<lambda>i. 0xff) [0..<1024], h')"
proof -
  obtain h' where h': "Example_open 7 3 supportedPath (createHandler (\<lambda>k i. 0xff)) = Some (True, h')"
    by (simp add: Example_open_def Example_canHandleBlob_def createHandler_def)
  then show ?thesis
    using example_reads_uninitialised [OF h'] by (simp add: createHandler_def)
qed

section \<open>A client's exchange with the daemon\<close>

abbreviation ex_inv :: "ExampleBlobHandler BlobManager \<Rightarrow> bool" where
  "ex_inv \<equiv> mgr_inv example_inv example_live"

abbreviation ex_methods :: "ExampleBlobHandler GenericBlobInterface" where
  "ex_methods \<equiv> ExampleBlobHandler_methods"

text \<open>
  The example handler expires nothing, so cleaning up only reads the clock and reports.
\<close>

lemma example_expire:
  "i < length (handlers m) \<Longrightarrow> \<exists>l. expire_sessions ex_methods i ss m = Some (m\<lparr>cerr := l\<rparr>)"
proof (induction ss arbitrary: m)
  case Nil
  show ?case by (rule exI [where x = "cerr m"]) simp
next
  case (Cons s ss)
  let ?m = "m\<lparr>cerr := cerr m @ [ExpiringStaleSession s, FailedToExpireSession s]\<rparr>"
  have "expire_sessions ex_methods i (s # ss) m = expire_sessions ex_methods i ss ?m"
    using Cons.prems by (simp add: call_handler_def Example_expire_def report_def split: option.split)
  then show ?case
    using Cons.IH [of ?m] Cons.prems by simp
qed

lemma example_cleanup:
  assumes "ex_inv m" and "i < length (handlers m)"
  shows "\<exists>c l. cleanUpStaleSessions ex_methods i m = Some (m\<lparr>clock := c, cerr := l\<rparr>)"
proof (cases "openSessions m i")
  case None
  then show ?thesis
    by (auto simp: cleanUpStaleSessions_eq [OF mgr_inv_index [OF assms(1)]]
        intro!: exI [where x = "clock m"] exI [where x = "cerr m"])
next
  case (Some S)
  then show ?thesis
    using example_expire [of i "m\<lparr>clock := clock m \<circ> Suc\<rparr>"] assms(2)
    by (simp add: cleanUpStaleSessions_eq [OF mgr_inv_index [OF assms(1)]]) blast
qed

text \<open>A manager that runs example handlers can open unless its numbers have run out.\<close>

lemma example_open_session:
  assumes m: "ex_inv m" and h: "handlers m \<noteq> []" and f: "has_flag fl read_or_write"
    and free: "sessions m s0 = None" "s0 \<noteq> next_session m - 1"
  shows "\<exists>s t m'. BlobManager_open ex_methods fl supportedPath out_param m = Some ((True, Some s), m')
    \<and> ex_inv m' \<and> sessions m s = None \<and> handlers m' \<noteq> []
    \<and> sessions m' = (sessions m)(s \<mapsto>
        \<lparr>blobId = supportedPath, handler = Some 0, flags = fl, lastActionTime = t\<rparr>)"
proof -
  obtain hd0 hs where hs: "handlers m = hd0 # hs"
    using h by (cases "handlers m") auto
  have gh: "getHandler ex_methods supportedPath m = Some (Some 0, m)"
    using hs by (simp add: getHandler_def Example_canHandleBlob_def)
  obtain s n where gs: "getSession out_param m = (Some s, m\<lparr>next_session := n\<rparr>)"
    using getSession_some [OF free] getSession_frame [of out_param m]
    by (cases "getSession out_param m") fastforce
  then have s: "sessions m s = None"
    by (rule getSession_fresh)
  let ?m1 = "m\<lparr>next_session := n\<rparr>"
  have m1: "ex_inv ?m1"
    by (rule example.minv_cong [OF m]) simp_all
  obtain c l where cu: "cleanUpStaleSessions ex_methods 0 ?m1 = Some (?m1\<lparr>clock := c, cerr := l\<rparr>)"
    using example_cleanup [OF m1, of 0] hs by auto
  let ?m2 = "?m1\<lparr>clock := c, cerr := l\<rparr>"
  have m2: "ex_inv ?m2"
    by (rule example.minv_cong [OF m1]) simp_all
  have "example_live hd0 s = None"
    using mgr_inv_live [OF m, of 0] s by (simp add: hs sess_of_def)
  then have fresh: "eh_sessions hd0 s = None"
    by (simp add: example_live_def)
  obtain h' where op: "Example_open s fl supportedPath hd0 = Some (True, h')"
    using fresh by (simp add: Example_open_def Example_canHandleBlob_def)
  have "ok (gbi_open ex_methods s fl supportedPath hd0)
      (\<lambda>(b, h'). example_inv h' \<and> example_live h' = (if b then (example_live hd0)(s \<mapsto> (supportedPath, fl))
         else example_live hd0))"
    using mgr_inv_hinv [OF m, of 0] fresh f
    by (intro example.open_law) (simp_all add: hs example_accepts_def example_live_def)
  then have h': "example_inv h'" "example_live h' = (example_live hd0)(s \<mapsto> (supportedPath, fl))"
    using op by simp_all
  have call: "call_handler 0 (Example_open s fl supportedPath) ?m2 =
      Some (True, ?m2\<lparr>handlers := (handlers ?m2)[0 := h']\<rparr>)"
    using op by (simp add: call_handler_def hs)
  obtain m' where rec: "record_session 0 s fl supportedPath (?m2\<lparr>handlers := (handlers ?m2)[0 := h']\<rparr>) = Some m'"
    and m': "ex_inv m'" "same_config ?m2 m'" "sessions m' = (sessions ?m2)(s \<mapsto>
         \<lparr>blobId = supportedPath, handler = Some 0, flags = fl, lastActionTime = clock ?m2 0\<rparr>)"
    using example.record_after_open [OF m2, of 0 s fl h' supportedPath] s f h' hs by (auto elim!: okE)
  have "handlers m' \<noteq> []"
    using m'(2) h by (auto simp: same_config_def)
  then show ?thesis
    using gh gs f cu call rec m' s by (auto simp: BlobManager_open_def)
qed

lemma example_session:
  assumes "ex_inv m" and "sessions m s = Some si" and "handler si = Some i" and "i < length (handlers m)"
  obtains b where "eh_sessions (handlers m ! i) s = Some b"
proof -
  have "example_live (handlers m ! i) s \<noteq> None"
    using assms table_invE [OF index_inv_table [OF mgr_inv_index [OF assms(1)]] assms(2)]
    by (auto simp: mgr_inv_live sess_of_def)
  then show ?thesis
    using that by (auto simp: example_live_def)
qed

lemma touch_sel [simp]:
  "handlers (touch s si m) = handlers m"
  "sessions (touch s si m) = (sessions m)(s \<mapsto> si\<lparr>lastActionTime := clock m 0\<rparr>)"
  by (simp_all add: touch_def)

text \<open>A write within the buffer, then a read of the same range.\<close>

lemma example_write_session:
  assumes m: "ex_inv m" and s: "sessions m s = Some si" and fl: "flags si = fl" "has_flag fl OpenFlags_write"
    and d: "unat off < 1024" "unat off + length d \<le> 1024"
  shows "\<exists>m' i b. BlobManager_write ex_methods s off d m = Some (True, m') \<and> ex_inv m'
    \<and> handlers m' \<noteq> [] \<and> sessions m' = (sessions m)(s \<mapsto> si\<lparr>lastActionTime := clock m 0\<rparr>)
    \<and> handler si = Some i \<and> i < length (handlers m')
    \<and> eh_sessions (handlers m' ! i) s = Some (written b (unat off) d)"
proof -
  obtain i fl' where i: "handler si = Some i" "i < length (handlers m)" "flags si = fl'"
    and ga: "\<forall>req. getActionHandler s req m =
      (if has_flag fl' req then Some (Some i, touch s si m) else Some (None, m))"
    by (rule action_dispatch [OF mgr_inv_index [OF m] s])
  obtain b where b: "eh_sessions (handlers m ! i) s = Some b"
    by (rule example_session [OF m s i(1,2)])
  obtain m' where m': "BlobManager_write ex_methods s off d m = Some (True, m')"
    "m' = (touch s si m)\<lparr>handlers := (handlers m)[i := (handlers m ! i)\<lparr>eh_sessions :=
       (eh_sessions (handlers m ! i))(s \<mapsto> written b (unat off) d)\<rparr>]\<rparr>"
    using ga i b fl d by (simp add: BlobManager_write_def call_handler_def Example_write_eq kBufferSize_def)
  have "ex_inv m'"
    using ok_SomeD [OF example.BlobManager_write_ok [OF m] m'(1)] by simp
  then show ?thesis
    using m' i by auto
qed

lemma example_read_session:
  assumes m: "ex_inv m" and s: "sessions m s = Some si" and fl: "flags si = fl" "has_flag fl OpenFlags_read"
    and i: "handler si = Some i" "i < length (handlers m)"
    and b: "eh_sessions (handlers m ! i) s = Some (written b (unat off) d)"
    and d: "unat off + length d \<le> 1024" "unat n = length d"
  shows "\<exists>m'. BlobManager_read ex_methods s off n m = Some (d, m') \<and> ex_inv m'
    \<and> sessions m' = (sessions m)(s \<mapsto> si\<lparr>lastActionTime := clock m 0\<rparr>)"
proof -
  obtain fl' where "flags si = fl'"
    and ga: "\<forall>req. getActionHandler s req m =
      (if has_flag fl' req then Some (Some i, touch s si m) else Some (None, m))"
    using action_dispatch [OF mgr_inv_index [OF m] s] i(1) by (metis option.inject)
  have "map (eb_buffer (written b (unat off) d)) [unat off..<min kBufferSize (unat off + unat n)] = d"
    using d by (auto simp: written_def kBufferSize_def min_def intro!: nth_equalityI)
  then have r: "BlobManager_read ex_methods s off n m = Some (d, (touch s si m)\<lparr>handlers :=
      (handlers m)[i := handlers m ! i]\<rparr>)"
    using ga i b fl \<open>flags si = fl'\<close>
    by (simp add: BlobManager_read_def call_handler_def Example_read_eq)
  show ?thesis
    using r ok_SomeD [OF example.BlobManager_read_ok [OF m] r] by auto
qed

lemma example_close_session:
  assumes m: "ex_inv m" and s: "sessions m s = Some si"
  shows "\<exists>m'. BlobManager_close ex_methods s m = Some (True, m') \<and> sessions m' = (sessions m)(s := None)"
proof -
  obtain i fl where i: "handler si = Some i" "i < length (handlers m)" and any: "has_flag fl any_flags"
    and ga: "\<forall>req. getActionHandler s req m =
      (if has_flag fl req then Some (Some i, touch s si m) else Some (None, m))"
    by (rule action_dispatch [OF mgr_inv_index [OF m] s])
  obtain b where b: "eh_sessions (handlers m ! i) s = Some b"
    by (rule example_session [OF m s i(1,2)])
  obtain r m' where c: "BlobManager_close ex_methods s m = Some (r, m')"
    using example.BlobManager_close_ok [OF m, of s] by (auto simp: ok_iff)
  then have "r" and "sessions m' = (sessions m)(s := None)"
    using ga any i b by (auto simp: BlobManager_close_def call_handler_def Example_close_def
        Example_getSession_def bind_eq_Some_conv dest!: eraseSession_sessions)
  then show ?thesis
    using c by simp
qed

text \<open>
  C14: Over the wire, with the example handler: a client that opens the blob for reading and
  writing gets a session number, can write to it, reads back exactly what it has written,
  with a correct checksum, and can close it; the session table is then what it was before.
  This holds in every state of the daemon in which a session number is free, other than the
  one the search misses, whatever other sessions are open.
\<close>

theorem example_exchange:
  assumes m: "mgr_inv example_inv example_live m" and h: "handlers m \<noteq> []"
    and free: "sessions m s0 = None" "s0 \<noteq> next_session m - 1"
    and d: "d \<noteq> []" "unat off + length d \<le> 1024" "unat n = length d" "length d + 2 \<le> maxSize" "4 \<le> maxSize"
  shows "\<exists>s m1 m2 m3 m4.
    handleBlobCommand crc ExampleBlobHandler_methods t clk 2
      (with_crc crc (open_body 3 supportedPath)) maxSize (Some m) =
        Some (responseSuccess (with_crc crc (le16 s)), Some m1)
    \<and> handleBlobCommand crc ExampleBlobHandler_methods t clk 4
      (with_crc crc (write_body s off d)) maxSize (Some m1) = Some (responseSuccess [], Some m2)
    \<and> handleBlobCommand crc ExampleBlobHandler_methods t clk 3
      (with_crc crc (read_body s off n)) maxSize (Some m2) =
        Some (responseSuccess (with_crc crc d), Some m3)
    \<and> handleBlobCommand crc ExampleBlobHandler_methods t clk 6
      (with_crc crc (le16 s)) maxSize (Some m3) = Some (responseSuccess [], Some m4)
    \<and> sessions m4 = sessions m"
proof -
  have off: "unat off < 1024"
    using d(1,2) by (cases d) simp_all
  obtain s t0 m1 where o: "BlobManager_open ex_methods 3 supportedPath out_param m = Some ((True, Some s), m1)"
    and m1: "ex_inv m1" "handlers m1 \<noteq> []" and s: "sessions m s = None"
    and s1: "sessions m1 = (sessions m)(s \<mapsto>
        \<lparr>blobId = supportedPath, handler = Some 0, flags = 3, lastActionTime = t0\<rparr>)"
    using example_open_session [OF m h _ free, of 3] by auto
  obtain m2 b where w: "BlobManager_write ex_methods s off d m1 = Some (True, m2)" and m2: "ex_inv m2"
    "handlers m2 \<noteq> []" "eh_sessions (handlers m2 ! 0) s = Some (written b (unat off) d)"
    and s2: "\<exists>t. sessions m2 = (sessions m)(s \<mapsto>
        \<lparr>blobId = supportedPath, handler = Some 0, flags = 3, lastActionTime = t\<rparr>)"
    using example_write_session [OF m1(1), of s _ 3 off d] s1 off d(2) by auto
  obtain t2 where t2: "sessions m2 = (sessions m)(s \<mapsto>
        \<lparr>blobId = supportedPath, handler = Some 0, flags = 3, lastActionTime = t2\<rparr>)"
    using s2 by blast
  obtain m3 t3 where r: "BlobManager_read ex_methods s off n m2 = Some (d, m3)" and m3: "ex_inv m3"
    "sessions m3 = (sessions m)(s \<mapsto>
        \<lparr>blobId = supportedPath, handler = Some 0, flags = 3, lastActionTime = t3\<rparr>)"
    using example_read_session [OF m2(1) _ _ _ _ _ m2(3) d(2,3), of _ 3] t2 m2(2) by auto
  obtain m4 where c: "BlobManager_close ex_methods s m3 = Some (True, m4)"
    and s4: "sessions m4 = (sessions m3)(s := None)"
    using example_close_session [OF m3(1), of s] m3(2) by auto
  have "sessions m4 = sessions m"
    using s4 m3(2) s by (simp add: fun_upd_idem)
  moreover have "supportedPath \<noteq> []"
    by (simp add: supportedPath_def)
  ultimately show ?thesis
    using o w r c d by (intro exI [where x = s] exI [where x = m1] exI [where x = m2]
      exI [where x = m3] exI [where x = m4])
      (simp add: open_request write_request read_request close_request framed_def)
qed

lemma example_exchange_witness:
  "\<exists>s m1 m2 m3 m4.
    handleBlobCommand demo_crc ExampleBlobHandler_methods 0 (\<lambda>k. 0) 2
      (with_crc demo_crc (open_body 3 supportedPath)) 64 (Some demo_open) =
        Some (responseSuccess (with_crc demo_crc (le16 s)), Some m1)
    \<and> handleBlobCommand demo_crc ExampleBlobHandler_methods 0 (\<lambda>k. 0) 4
      (with_crc demo_crc (write_body s 100 demo_bytes)) 64 (Some m1) = Some (responseSuccess [], Some m2)
    \<and> handleBlobCommand demo_crc ExampleBlobHandler_methods 0 (\<lambda>k. 0) 3
      (with_crc demo_crc (read_body s 100 3)) 64 (Some m2) =
        Some (responseSuccess (with_crc demo_crc demo_bytes), Some m3)
    \<and> handleBlobCommand demo_crc ExampleBlobHandler_methods 0 (\<lambda>k. 0) 6
      (with_crc demo_crc (le16 s)) 64 (Some m3) = Some (responseSuccess [], Some m4)
    \<and> sessions m4 = sessions demo_open"
  by (rule example_exchange [OF demo_open_inv, of 7]) (simp_all add: demo_open_def demo_bytes_def)

end
