(* ===== verification/Utils_Props.thy ===== *)
theory Utils_Props
  imports Samples
begin

text \<open>
  The properties of the library loader: which files it considers, and which handlers end up
  registered when some libraries fail and others export a factory that has been used before.
  \<open>observed\<close> puts an observer between the loader and an arbitrary environment; what is loaded is
  stated over the events it sees.
\<close>

section \<open>Listing\<close>

text \<open>
  The libraries considered are the listed paths that contain the substring \<open>.so\<close>
  anywhere, in the order of the listing; an error of the listing is passed on. In particular
  a path need not start with \<open>lib\<close> nor end in \<open>.so\<close> and a version.
\<close>

theorem getLibraryList_substring:
  "getLibraryList rd path matchBlobHandler = (case rd path of
       Inl e \<Rightarrow> Inl e
     | Inr ps \<Rightarrow> Inr [p \<leftarrow> ps. \<exists>pre suf. p = pre @ ''.so'' @ suf])"
proof -
  have "matchBlobHandler = (\<lambda>p. \<exists>pre suf. p = pre @ ''.so'' @ suf)"
    by (simp add: fun_eq_iff matchBlobHandler_def string_find_None sublist_def)
  then show ?thesis
    by (simp only: getLibraryList_def matching_paths_filter)
qed

section \<open>Loading\<close>

text \<open>The elements of a list at their first occurrence, leaving out those of a set.\<close>

fun firsts :: "'a set \<Rightarrow> 'a list \<Rightarrow> 'a list" where
  "firsts S [] = []"
| "firsts S (x # xs) = (if x \<in> S then firsts S xs else x # firsts (insert x S) xs)"

lemma firsts_append: "firsts S (xs @ ys) = firsts S xs @ firsts (S \<union> set xs) ys"
proof (induction xs arbitrary: S)
  case (Cons x xs)
  have "insert x S = S" if "x \<in> S"
    using that by blast
  then show ?case
    using Cons [of S] Cons [of "insert x S"] by (auto simp: Un_commute)
qed simp

text \<open>
  What an observer of the loader sees: \<open>dlopen\<close> of a path and whether it succeeded, the symbol
  \<open>dlsym\<close> has found, the answer of \<open>dlerror\<close>, and each call of a factory with its result. The
  observer stands between the code and an arbitrary environment.
\<close>

datatype ('f, 'h) event =
    Opened string bool
  | Looked_up "'f option"
  | Reported "string option"
  | Called 'f "exn + 'h option"

definition observed ::
    "('p, 'f, 'd) DlSysInterface \<Rightarrow> ('p, 'f, 'd \<times> ('f, 'h) event list) DlSysInterface" where
  "observed sys =
     \<lparr>dlerror = (\<lambda>(d, es). case dlerror sys d of (e, d) \<Rightarrow> (e, d, es @ [Reported e])),
      dlopen = (\<lambda>p fl (d, es). case dlopen sys p fl d of (h, d) \<Rightarrow> (h, d, es @ [Opened p (h \<noteq> None)])),
      dlsym = (\<lambda>l s (d, es). case dlsym sys l s d of (f, d) \<Rightarrow> (f, d, es @ [Looked_up f]))\<rparr>"

lemma observed_sel [simp]:
  "dlerror (observed sys) (d, es) = (case dlerror sys d of (e, d) \<Rightarrow> (e, d, es @ [Reported e]))"
  "dlopen (observed sys) p fl (d, es) = (case dlopen sys p fl d of (h, d) \<Rightarrow> (h, d, es @ [Opened p (h \<noteq> None)]))"
  "dlsym (observed sys) l s (d, es) = (case dlsym sys l s d of (f, d) \<Rightarrow> (f, d, es @ [Looked_up f]))"
  by (simp_all add: observed_def)

definition observed_call ::
    "('f, 'h, 'd) factory_call \<Rightarrow> ('f, 'h, 'd \<times> ('f, 'h) event list) factory_call" where
  "observed_call call f = (\<lambda>(d, es). case call f d of (r, d) \<Rightarrow> (r, d, es @ [Called f r]))"

lemma observed_call_pair [simp]:
  "observed_call call f (d, es) = (case call f d of (r, d) \<Rightarrow> (r, d, es @ [Called f r]))"
  by (simp add: observed_call_def)

text \<open>
  Of the events: the paths tried, the factories found (a symbol behind which \<open>dlerror\<close> has
  nothing to report), the factories called with their results, and the handlers they have made.
\<close>

fun tried :: "('f, 'h) event list \<Rightarrow> string list" where
  "tried [] = []"
| "tried (Opened p b # es) = p # tried es"
| "tried (e # es) = tried es"

fun found :: "('f, 'h) event list \<Rightarrow> 'f list" where
  "found (Looked_up (Some f) # Reported None # es) = f # found es"
| "found (e # es) = found es"
| "found [] = []"

fun called :: "('f, 'h) event list \<Rightarrow> ('f \<times> (exn + 'h option)) list" where
  "called [] = []"
| "called (Called f r # es) = (f, r) # called es"
| "called (e # es) = called es"

fun handlers_made :: "('f \<times> (exn + 'h option)) list \<Rightarrow> 'h list" where
  "handlers_made [] = []"
| "handlers_made ((f, Inr (Some h)) # cs) = h # handlers_made cs"
| "handlers_made (c # cs) = handlers_made cs"

definition foreign :: "'f \<times> (exn + 'h option) \<Rightarrow> bool" where
  "foreign c \<longleftrightarrow> snd c = Inl OtherException"

lemma events_append [simp]:
  "tried (es @ es') = tried es @ tried es'"
  "called (es @ es') = called es @ called es'"
  by (induction es rule: tried.induct; simp) (induction es rule: called.induct; simp)

lemma handlers_made_append [simp]: "handlers_made (cs @ cs') = handlers_made cs @ handlers_made cs'"
  by (induction cs rule: handlers_made.induct) simp_all

text \<open>One library: the events \<open>bs\<close> are added.\<close>

lemma load_library_observed:
  assumes run: "load_library (BlobManager_methods gbi) sys call p (Some ` S) m d = Some (x, l, seen, m', d')"
  shows "\<exists>bs. load_library (BlobManager_methods gbi) (observed sys) (observed_call call) p (Some ` S) m (d, es) =
      Some (x, l, seen, m', (d', es @ bs))
    \<and> seen = Some ` (S \<union> set (found bs)) \<and> tried bs = [p]
    \<and> (\<forall>rest. found (bs @ rest) = found bs @ found rest)
    \<and> map fst (called bs) = firsts S (found bs)
    \<and> m' = m\<lparr>handlers := handlers m @ handlers_made (called bs)\<rparr>
    \<and> x = (if list_ex foreign (called bs) then Some OtherException else None) \<and> length (called bs) \<le> 1"
proof -
  obtain lib d1 where d1: "dlopen sys p {RTLD_NOW, RTLD_GLOBAL} d = (lib, d1)"
    by fastforce
  obtain e1 d2 where d2: "dlerror sys d1 = (e1, d2)"
    by fastforce
  show ?thesis
  proof (cases lib)
    case None
    then show ?thesis
      using run d1 d2 by (intro exI [of _ "[Opened p False, Reported e1]"]) (auto simp: load_library_def)
  next
    case (Some lh)
    obtain f d3 where d3: "dlsym sys lh ''createHandler'' d2 = (f, d3)"
      by fastforce
    obtain e2 d4 where d4: "dlerror sys d3 = (e2, d4)"
      by fastforce
    let ?bs = "[Opened p True, Reported e1, Looked_up f, Reported e2]"
    note steps = d1 d2 d3 d4 Some
    show ?thesis
    proof (cases e2)
      case error: (Some e)
      then show ?thesis
        using run steps by (intro exI [of _ ?bs]) (cases f; auto simp: load_library_def)
    next
      case None
      then have rf: "run_factory (BlobManager_methods gbi) call p f (Some ` S) m d4 = Some (x, l, seen, m', d')"
        using run steps by (simp add: load_library_def)
      then obtain g where g: "f = Some g"
        by (cases f) (auto simp: run_factory_def)
      show ?thesis
      proof (cases "g \<in> S")
        case True
        then show ?thesis
          using rf steps None g
          by (intro exI [of _ ?bs]) (auto simp: load_library_def run_factory_def insert_absorb)
      next
        case False
        obtain r d5 where "call g d4 = (r, d5)"
          by fastforce
        then show ?thesis
          using rf steps None g False
          by (intro exI [of _ "?bs @ [Called g r]"])
             (auto simp: load_library_def run_factory_def registerHandler_def foreign_def image_iff Let_def
               split: sum.splits option.splits exn.splits)
      qed
    qed
  qed
qed

lemma load_libraries_observed:
  assumes "load_libraries (BlobManager_methods gbi) sys call ps (Some ` S) m d = Some (x, l, m', d')"
  shows "\<exists>bs. load_libraries (BlobManager_methods gbi) (observed sys) (observed_call call) ps (Some ` S) m (d, es) =
      Some (x, l, m', (d', es @ bs))
    \<and> prefix (tried bs) ps \<and> (x = None \<longrightarrow> tried bs = ps)
    \<and> map fst (called bs) = firsts S (found bs)
    \<and> m' = m\<lparr>handlers := handlers m @ handlers_made (called bs)\<rparr>
    \<and> x = (if list_ex foreign (called bs) then Some OtherException else None)
    \<and> \<not> list_ex foreign (butlast (called bs))"
  using assms
proof (induction ps arbitrary: S m d x l es)
  case Nil
  then show ?case
    by (intro exI [of _ "[]"]) simp
next
  case (Cons p ps)
  obtain x1 l1 seen m1 d1 where one: "load_library (BlobManager_methods gbi) sys call p (Some ` S) m d =
      Some (x1, l1, seen, m1, d1)"
    using Cons.prems by (auto simp: bind_eq_Some_conv)
  from load_library_observed [OF one, of es] obtain bs where bs:
    "load_library (BlobManager_methods gbi) (observed sys) (observed_call call) p (Some ` S) m (d, es) =
      Some (x1, l1, seen, m1, (d1, es @ bs))"
    "seen = Some ` (S \<union> set (found bs))" "tried bs = [p]" "\<And>rest. found (bs @ rest) = found bs @ found rest"
    "map fst (called bs) = firsts S (found bs)" "m1 = m\<lparr>handlers := handlers m @ handlers_made (called bs)\<rparr>"
    "x1 = (if list_ex foreign (called bs) then Some OtherException else None)" "length (called bs) \<le> 1"
    by blast
  show ?case
  proof (cases x1)
    case None
    then obtain l2 where rest: "load_libraries (BlobManager_methods gbi) sys call ps (Some ` (S \<union> set (found bs))) m1 d1 =
        Some (x, l2, m', d')" and l: "l = l1 @ l2"
      using Cons.prems one bs(2) by (auto simp: bind_eq_Some_conv)
    from Cons.IH [OF rest, of "es @ bs"] obtain cs where cs:
      "load_libraries (BlobManager_methods gbi) (observed sys) (observed_call call) ps
        (Some ` (S \<union> set (found bs))) m1 (d1, es @ bs) = Some (x, l2, m', (d', (es @ bs) @ cs))"
      "prefix (tried cs) ps" "x = None \<longrightarrow> tried cs = ps"
      "map fst (called cs) = firsts (S \<union> set (found bs)) (found cs)"
      "m' = m1\<lparr>handlers := handlers m1 @ handlers_made (called cs)\<rparr>"
      "x = (if list_ex foreign (called cs) then Some OtherException else None)"
      "\<not> list_ex foreign (butlast (called cs))"
      by blast
    have none: "\<not> list_ex foreign (called bs)"
      using None bs(7) by (simp split: if_splits)
    then have "\<not> list_ex foreign (butlast (called bs @ called cs))"
      using cs(7) by (auto simp: butlast_append list_ex_iff dest: in_set_butlastD)
    then show ?thesis
      using bs cs l None none by (intro exI [of _ "bs @ cs"]) (simp add: firsts_append)
  next
    case (Some e)
    have "butlast (called bs) = []"
      using bs(8) by (cases "called bs") simp_all
    then show ?thesis
      using Some Cons.prems one bs by (intro exI [of _ bs]) (auto split: if_splits)
  qed
qed

text \<open>
  C31: What loading registers, in any environment: the loader and the factories may answer
  differently each time, depending on all that has happened before. If the run is defined, then
  observing it changes nothing, and the events are these. The listed libraries have been tried in
  the order of the listing. The factories called are the ones found, each at its first occurrence
  only. The handlers registered are the ones these calls have made, in their order. Loading ends
  with an exception just when a factory has thrown something other than a \<open>std::exception\<close>, which
  was the last thing called; otherwise all libraries have been tried, whatever failed before.
\<close>

theorem loadLibraries_registers:
  assumes "loadLibraries rd sys call (BlobManager_methods gbi) path m d = Some (x, l, m', d')"
    and "rd path = Inr ps"
  shows "\<exists>es. loadLibraries rd (observed sys) (observed_call call) (BlobManager_methods gbi) path m (d, []) =
      Some (x, l, m', (d', es))
    \<and> prefix (tried es) (filter matchBlobHandler ps) \<and> (x = None \<longrightarrow> tried es = filter matchBlobHandler ps)
    \<and> map fst (called es) = firsts {} (found es)
    \<and> m' = m\<lparr>handlers := handlers m @ handlers_made (called es)\<rparr>
    \<and> x = (if list_ex foreign (called es) then Some OtherException else None)
    \<and> \<not> list_ex foreign (butlast (called es))"
proof -
  have "load_libraries (BlobManager_methods gbi) sys call (filter matchBlobHandler ps) (Some ` {}) m d = Some (x, l, m', d')"
    using assms by (simp add: loadLibraries_def getLibraryList_def matching_paths_filter)
  from load_libraries_observed [OF this, of "[]"] show ?thesis
    using assms(2) by (simp add: loadLibraries_def getLibraryList_def matching_paths_filter)
qed

text \<open>
  A loader for the witness: the state is the pending error; \<open>/b.so\<close> does not open,
  \<open>/c.so\<close> and \<open>/a.so\<close> export the same factory, \<open>/d.so\<close> has one that throws.
\<close>

definition demo_lib :: "string \<Rightarrow> string option" where
  "demo_lib p = (if p = ''/b.so'' then None else Some p)"

definition demo_sym :: "string \<Rightarrow> nat option" where
  "demo_sym l = (if l = ''/e.so'' then None else if l = ''/d.so'' then Some 1 else Some 0)"

definition demo_libc :: "(string, nat, string option) libc_dl" where
  "demo_libc = \<lparr>libc_dlerror = (\<lambda>d. (d, None)),
     libc_dlopen = (\<lambda>p fl d. (demo_lib p, if demo_lib p = None then Some ''no such file'' else d)),
     libc_dlsym = (\<lambda>l s d. (demo_sym l, if demo_sym l = None then Some ''no such symbol'' else None))\<rparr>"

definition demo_make :: "nat \<Rightarrow> exn + ExampleBlobHandler option" where
  "demo_make f = (if f = 0 then Inr (Some demo_handler) else if f = 1 then Inl (StdException ''failed'') else Inl OtherException)"

definition demo_listing :: "string list" where
  "demo_listing = [''/a.so'', ''/b.so'', ''/readme'', ''/c.so'', ''/d.so'', ''/e.so'']"

lemma demo_listing_filtered:
  "filter matchBlobHandler demo_listing = [''/a.so'', ''/b.so'', ''/c.so'', ''/d.so'', ''/e.so'']"
  by (simp add: demo_listing_def matchBlobHandler_def)

lemma demo_loads:
  "\<exists>l d'. loadLibraries (\<lambda>p. Inr demo_listing) (dlsys_impl demo_libc) (\<lambda>f d. (demo_make f, d))
      (BlobManager_methods ExampleBlobHandler_methods) ''/usr/lib'' (new_BlobManager 600 5 (\<lambda>k. 0)) None =
    Some (None, l, demo_start, d')"
  by (simp add: loadLibraries_def getLibraryList_def matching_paths_filter demo_listing_filtered load_library_def
      run_factory_def demo_libc_def demo_lib_def demo_sym_def demo_make_def registerHandler_def demo_start_def
      new_BlobManager_def)

lemma loadLibraries_registers_witness:
  "\<exists>es :: (nat, ExampleBlobHandler) event list. tried es = [''/a.so'', ''/b.so'', ''/c.so'', ''/d.so'', ''/e.so'']
    \<and> map fst (called es) = firsts {} (found es) \<and> handlers_made (called es) = [demo_handler]"
proof -
  obtain l d' where run: "loadLibraries (\<lambda>p. Inr demo_listing) (dlsys_impl demo_libc) (\<lambda>f d. (demo_make f, d))
      (BlobManager_methods ExampleBlobHandler_methods) ''/usr/lib'' (new_BlobManager 600 5 (\<lambda>k. 0)) None =
    Some (None, l, demo_start, d')"
    using demo_loads by blast
  obtain es :: "(nat, ExampleBlobHandler) event list" where es: "tried es = filter matchBlobHandler demo_listing" "map fst (called es) = firsts {} (found es)"
    "demo_start = (new_BlobManager 600 5 (\<lambda>k. 0))\<lparr>handlers :=
      handlers (new_BlobManager 600 5 (\<lambda>k. 0) :: ExampleBlobHandler BlobManager) @ handlers_made (called es)\<rparr>"
    using loadLibraries_registers [OF run refl] by blast
  have "handlers_made (called es) = [demo_handler]"
    using es(3) by (simp add: demo_start_def new_BlobManager_def)
  then show ?thesis
    using es(1,2) demo_listing_filtered by metis
qed

end
