(* ===== verification/Reference.thy ===== *)
theory Reference
  imports Transparency
begin

unbundle bit_operations_syntax

text \<open>
  A reference manager with a single session table. It keeps no count per path and no set
  per handler: whether a path is open and which sessions of a handler are stale it reads
  off the table. All it remembers besides is for which handlers a session has ever been
  recorded, since only for those the manager reads the clock when it cleans up.

  \<open>forget_index\<close> maps a manager to the reference state. Whatever the handlers do, the
  manager and the reference manager return the same results and stay in corresponding
  states: its two indexes are an optimisation.
\<close>

section \<open>The reference operations\<close>

definition forget_index :: "'h BlobManager \<Rightarrow> 'h BlobManager" where
  "forget_index m = m\<lparr>openFiles := Map.empty,
     openSessions := (\<lambda>i. map_option (\<lambda>S. {}) (openSessions m i))\<rparr>"

definition ref_erase :: "u16 \<Rightarrow> 'h BlobManager \<Rightarrow> 'h BlobManager" where
  "ref_erase s m = m\<lparr>sessions := (sessions m)(s := None)\<rparr>"

definition ref_stale :: "hid \<Rightarrow> time \<Rightarrow> 'h BlobManager \<Rightarrow> u16 set" where
  "ref_stale hp now m = {s. case sessions m s of
       None \<Rightarrow> False
     | Some si \<Rightarrow> handler si = Some hp \<and> now - lastActionTime si \<ge> nanoseconds (sessionTimeout m)}"

fun ref_expire ::
    "'h GenericBlobInterface \<Rightarrow> hid \<Rightarrow> u16 list \<Rightarrow> 'h BlobManager \<Rightarrow> 'h BlobManager option" where
  "ref_expire gbi hp [] m = Some m"
| "ref_expire gbi hp (s # ss) m =
     do { (b, m) \<leftarrow> call_handler hp (gbi_expire gbi s) (report (ExpiringStaleSession s) m);
          ref_expire gbi hp ss (if b then ref_erase s m else report (FailedToExpireSession s) m) }"

definition ref_cleanUp ::
    "'h GenericBlobInterface \<Rightarrow> hid \<Rightarrow> 'h BlobManager \<Rightarrow> 'h BlobManager option" where
  "ref_cleanUp gbi hp m = (case openSessions m hp of
       None \<Rightarrow> Some m
     | Some S \<Rightarrow> (let (now, m) = steady_now m in
         ref_expire gbi hp (sorted_list_of_set (ref_stale hp now m)) m))"

definition ref_record ::
    "hid \<Rightarrow> u16 \<Rightarrow> u16 \<Rightarrow> string \<Rightarrow> 'h BlobManager \<Rightarrow> 'h BlobManager" where
  "ref_record hp s fl path m =
     (let (info, m) = new_SessionInfo path hp fl m; (_, m) = sessions_at s m in
      m\<lparr>sessions := (sessions m)(s \<mapsto> info), openSessions := (openSessions m)(hp \<mapsto> {})\<rparr>)"

definition ref_open ::
    "'h GenericBlobInterface \<Rightarrow> u16 \<Rightarrow> string \<Rightarrow> out_ptr \<Rightarrow> 'h BlobManager
       \<Rightarrow> ((bool \<times> u16 option) \<times> 'h BlobManager) option" where
  "ref_open gbi fl path q m =
     do { (found, m) \<leftarrow> getHandler gbi path m;
          case found of
            None \<Rightarrow> Some ((False, None), m)
          | Some hp \<Rightarrow>
              (case getSession q m of
                 (None, m) \<Rightarrow> Some ((False, None), m)
               | (Some s, m) \<Rightarrow>
                   if \<not> has_flag fl read_or_write then Some ((False, Some s), m)
                   else do { m \<leftarrow> ref_cleanUp gbi hp m;
                             (b, m) \<leftarrow> call_handler hp (gbi_open gbi s fl path) m;
                             if b then Some ((True, Some s), ref_record hp s fl path m)
                             else Some ((False, Some s), m) }) }"

definition ref_close ::
    "'h GenericBlobInterface \<Rightarrow> u16 \<Rightarrow> 'h BlobManager \<Rightarrow> (bool \<times> 'h BlobManager) option" where
  "ref_close gbi s m =
     do { (found, m) \<leftarrow> getActionHandler s any_flags m;
          case found of
            None \<Rightarrow> Some (False, m)
          | Some hp \<Rightarrow> do { (b, m) \<leftarrow> call_handler hp (gbi_close gbi s) m;
                          Some (b, if b then ref_erase s m else m) } }"

definition ref_delete ::
    "'h GenericBlobInterface \<Rightarrow> string \<Rightarrow> 'h BlobManager \<Rightarrow> (bool \<times> 'h BlobManager) option" where
  "ref_delete gbi path m =
     do { (found, m) \<leftarrow> getHandler gbi path m;
          case found of
            None \<Rightarrow> Some (False, m)
          | Some hp \<Rightarrow> if sessions_on m path \<noteq> {} then Some (False, m)
                       else call_handler hp (gbi_deleteBlob gbi path) m }"

definition Reference_methods ::
    "'h GenericBlobInterface \<Rightarrow> ('h, 'h BlobManager) ManagerInterface" where
  "Reference_methods gbi = (BlobManager_methods gbi)
     \<lparr>mi_open := ref_open gbi, mi_close := ref_close gbi, mi_deleteBlob := ref_delete gbi\<rparr>"

section \<open>Simulation\<close>

definition sim :: "('r \<times> 'h BlobManager) option \<Rightarrow> ('r \<times> 'h BlobManager) option \<Rightarrow> bool" where
  "sim x y \<longleftrightarrow> y = map_option (apsnd forget_index) x \<and> (\<forall>r m. x = Some (r, m) \<longrightarrow> index_inv m)"

definition sim0 :: "'h BlobManager option \<Rightarrow> 'h BlobManager option \<Rightarrow> bool" where
  "sim0 x y \<longleftrightarrow> y = map_option forget_index x \<and> (\<forall>m. x = Some m \<longrightarrow> index_inv m)"

lemma sim_Some: "index_inv m \<Longrightarrow> m' = forget_index m \<Longrightarrow> sim (Some (r, m)) (Some (r, m'))"
  by (simp add: sim_def)

lemma sim_bind:
  "sim x y \<Longrightarrow> (\<And>r m. x = Some (r, m) \<Longrightarrow> index_inv m \<Longrightarrow> sim (f r m) (g r (forget_index m))) \<Longrightarrow>
   sim (x \<bind> (\<lambda>(r, m). f r m)) (y \<bind> (\<lambda>(r, m). g r m))"
  by (cases x) (auto simp: sim_def)

lemma sim_bind0:
  "sim0 x y \<Longrightarrow> (\<And>m. x = Some m \<Longrightarrow> index_inv m \<Longrightarrow> sim (f m) (g (forget_index m))) \<Longrightarrow>
   sim (x \<bind> f) (y \<bind> g)"
  by (cases x) (auto simp: sim_def sim0_def)

lemma sim0_Some: "sim0 x (Some y) \<longleftrightarrow> (\<exists>m. x = Some m \<and> y = forget_index m \<and> index_inv m)"
  by (cases x) (auto simp: sim0_def)

lemma forget_index_sel [simp]:
  "sessionTimeout (forget_index m) = sessionTimeout m"
  "next_session (forget_index m) = next_session m"
  "ids (forget_index m) = ids m"
  "handlers (forget_index m) = handlers m"
  "sessions (forget_index m) = sessions m"
  "clock (forget_index m) = clock m"
  "cerr (forget_index m) = cerr m"
  "openFiles (forget_index m) = Map.empty"
  "openSessions (forget_index m) i = map_option (\<lambda>S. {}) (openSessions m i)"
  by (simp_all add: forget_index_def)

lemma forget_index_upd [simp]:
  "forget_index (m\<lparr>next_session := n\<rparr>) = (forget_index m)\<lparr>next_session := n\<rparr>"
  "forget_index (m\<lparr>ids := l\<rparr>) = (forget_index m)\<lparr>ids := l\<rparr>"
  "forget_index (m\<lparr>handlers := hs\<rparr>) = (forget_index m)\<lparr>handlers := hs\<rparr>"
  "forget_index (m\<lparr>sessions := T\<rparr>) = (forget_index m)\<lparr>sessions := T\<rparr>"
  "forget_index (m\<lparr>clock := c\<rparr>) = (forget_index m)\<lparr>clock := c\<rparr>"
  "forget_index (m\<lparr>openFiles := G\<rparr>) = forget_index m"
  "forget_index (report e m) = report e (forget_index m)"
  by (simp_all add: forget_index_def report_def)

lemma sessions_on_forget [simp]: "sessions_on (forget_index m) p = sessions_on m p"
  by (simp add: sessions_on_def)

lemma index_inv_handlers:
  "index_inv m \<Longrightarrow> length hs = length (handlers m) \<Longrightarrow> index_inv (m\<lparr>handlers := hs\<rparr>)"
  by (rule index_inv_cong [of _ m]) simp_all

section \<open>Shared operations\<close>

lemma sim_call:
  "index_inv m \<Longrightarrow> sim (call_handler i f m) (call_handler i f (forget_index m))"
  by (cases "f (handlers m ! i)")
     (auto simp: call_handler_def sim_def index_inv_handlers)

lemma find_handler_length: "find_handler gbi p hs = Some (r, hs') \<Longrightarrow> length hs' = length hs"
  by (induction hs arbitrary: r hs') (auto simp: bind_eq_Some_conv split: if_splits)

lemma collect_ids_length: "collect_ids gbi hs = Some (l, hs') \<Longrightarrow> length hs' = length hs"
  by (induction hs arbitrary: l hs') (auto simp: bind_eq_Some_conv)

lemma sim_getHandler:
  "index_inv m \<Longrightarrow> sim (getHandler gbi p m) (getHandler gbi p (forget_index m))"
  by (cases "find_handler gbi p (handlers m)")
     (auto simp: getHandler_def sim_def index_inv_handlers dest: find_handler_length)

lemma forget_index_getSession_loop:
  "getSession_loop t (forget_index m) = apsnd forget_index (getSession_loop t m)"
proof (induction t m rule: getSession_loop.induct)
  case (1 t m)
  show ?case
    using "1.IH" [OF refl refl]
    by (subst (1 2) getSession_loop.simps) (simp add: Let_def)
qed

lemma forget_index_getSession: "getSession q (forget_index m) = apsnd forget_index (getSession q m)"
  by (cases q) (simp_all add: getSession_def forget_index_getSession_loop)

lemma sim_getActionHandler:
  assumes "index_inv m"
  shows "sim (getActionHandler s req m) (getActionHandler s req (forget_index m))"
proof (cases "sessions m s")
  case None
  then show ?thesis
    using assms by (simp add: getActionHandler_None sim_def)
next
  case (Some si)
  obtain i f where "handler si = Some i" "flags si = f"
    using table_invE [OF index_inv_table [OF assms] Some] by metis
  then show ?thesis
    using Some touch_index_inv [OF assms Some] assms
    by (simp add: getActionHandler_Some sim_def) (simp add: touch_def)
qed

section \<open>The operations that keep the indexes\<close>

lemma ref_erase_sessions: "sessions (if b then ref_erase s m else report e m) =
    (if b then (sessions m)(s := None) else sessions m)"
  by (simp add: ref_erase_def)

lemma sim_erase:
  assumes inv: "index_inv m" and s: "sessions m s = Some si" and i: "handler si = Some i"
  shows "sim0 (eraseSession i s m) (Some (ref_erase s (forget_index m)))"
proof -
  obtain m' where m': "eraseSession i s m = Some m'" "index_inv m'"
    using eraseSession_eq [OF inv s i] by blast
  have "s \<in> handler_sessions m i"
    using inv s i by (simp add: index_inv_def sessions_of_handler_def)
  then have "openSessions m i \<noteq> None"
    by (cases "openSessions m i") (simp_all add: handler_sessions_def)
  then have "forget_index m' = ref_erase s (forget_index m)"
    using m'(1) s by (auto simp: eraseSession_def ref_erase_def forget_index_def bind_eq_Some_conv Let_def
        fun_eq_iff)
  then show ?thesis
    using m' by (simp add: sim0_def)
qed

lemma sim_expire:
  assumes "index_inv m" and "set ss \<subseteq> sessions_of_handler m i" and "distinct ss"
  shows "sim0 (expire_sessions gbi i ss m) (ref_expire gbi i ss (forget_index m))"
  using assms
proof (induction ss arbitrary: m)
  case Nil
  then show ?case by (simp add: sim0_def)
next
  case (Cons s ss)
  obtain si where s: "sessions m s = Some si" "handler si = Some i"
    using Cons.prems(2) by (auto simp: sessions_of_handler_def)
  define r where "r = report (ExpiringStaleSession s) m"
  have r: "index_inv r" "sessions r = sessions m" "report (ExpiringStaleSession s) (forget_index m) = forget_index r"
    using Cons.prems(1) by (simp_all add: r_def)
  let ?e = "report (FailedToExpireSession s)"
  show ?case
  proof (cases "call_handler i (gbi_expire gbi s) r")
    case None
    then show ?thesis
      using sim_call [OF r(1), of i "gbi_expire gbi s"] by (simp add: sim0_def sim_def r(3) flip: r_def)
  next
    case (Some bm)
    obtain b m1 where bm: "call_handler i (gbi_expire gbi s) r = Some (b, m1)"
      using Some by (cases bm) simp
    have m1: "index_inv m1" "call_handler i (gbi_expire gbi s) (forget_index r) = Some (b, forget_index m1)"
      using sim_call [OF r(1), of i "gbi_expire gbi s"] bm by (simp_all add: sim_def)
    have s1: "sessions m1 = sessions m"
      using bm r(2) by (auto simp: call_handler_def bind_eq_Some_conv split: if_splits)
    have "sim0 (if b then eraseSession i s m1 else Some (?e m1))
        (Some (if b then ref_erase s (forget_index m1) else ?e (forget_index m1)))"
      using sim_erase [OF m1(1), of s si i] m1(1) s s1 by (simp add: sim0_def)
    then obtain m2 where m2: "(if b then eraseSession i s m1 else Some (?e m1)) = Some m2" "index_inv m2"
      and f: "(if b then ref_erase s (forget_index m1) else ?e (forget_index m1)) = forget_index m2"
      by (cases "if b then eraseSession i s m1 else Some (?e m1)") (auto simp: sim0_def)
    have "sessions m2 = (if b then (sessions m)(s := None) else sessions m)"
      using ref_erase_sessions [of b s "forget_index m1" "FailedToExpireSession s"] s1 unfolding f by simp
    then have "set ss \<subseteq> sessions_of_handler m2 i"
      using Cons.prems(2,3) by (auto simp: sessions_of_handler_def)
    then have "sim0 (expire_sessions gbi i ss m2) (ref_expire gbi i ss (forget_index m2))"
      using Cons.IH [OF m2(2)] Cons.prems(3) by simp
    then show ?thesis
      by (simp only: expire_sessions.simps ref_expire.simps r(3) r_def [symmetric] bm m1(2) Option.bind.bind_lunit prod.case m2(1) f)
  qed
qed

lemma sim_cleanUp:
  assumes inv: "index_inv m"
  shows "sim0 (cleanUpStaleSessions gbi i m) (ref_cleanUp gbi i (forget_index m))"
proof (cases "openSessions m i")
  case None
  then show ?thesis
    using inv by (simp add: cleanUpStaleSessions_def ref_cleanUp_def sim0_def)
next
  case (Some S)
  let ?E = "{s \<in> sessions_of_handler m i. stale (clock m 0) m s}"
  let ?m1 = "m\<lparr>clock := clock m \<circ> Suc\<rparr>"
  have "ref_stale i (clock m 0) (forget_index ?m1) = ?E"
    by (auto simp: ref_stale_def sessions_of_handler_def stale_def split: option.splits)
  moreover have "index_inv ?m1"
    by (rule index_inv_cong [OF _ _ _ _ inv]) simp_all
  moreover have "set (sorted_list_of_set ?E) \<subseteq> sessions_of_handler ?m1 i"
    by (auto simp: sessions_of_handler_def)
  ultimately show ?thesis
    using Some sim_expire [of ?m1 "sorted_list_of_set ?E" i gbi]
    by (simp add: cleanUpStaleSessions_eq [OF inv] ref_cleanUp_def steady_now_def)
qed

lemma sim_record:
  assumes inv: "index_inv m" and s: "sessions m s = None" and i: "i < length (handlers m)"
    and f: "has_flag f read_or_write"
  shows "sim0 (record_session i s f p m) (Some (ref_record i s f p (forget_index m)))"
proof -
  obtain m' where m': "record_session i s f p m = Some m'" "index_inv m'"
    using record_session_eq [OF assms, of p] by blast
  have "forget_index m' = ref_record i s f p (forget_index m)"
    using m'(1) s by (auto simp: record_session_def ref_record_def new_SessionInfo_def sessions_at_def
        default_SessionInfo_def steady_now_def forget_index_def bind_eq_Some_conv Let_def fun_eq_iff)
  then show ?thesis
    using m' by (simp add: sim0_def)
qed

section \<open>The methods\<close>

text \<open>Cleaning up adds no session.\<close>

lemma ref_expire_subset: "ref_expire gbi i ss m = Some m' \<Longrightarrow> sessions m s = None \<Longrightarrow> sessions m' s = None"
proof (induction ss arbitrary: m)
  case Nil
  then show ?case by simp
next
  case (Cons t ss)
  let ?next = "\<lambda>b m. if b then ref_erase t m else report (FailedToExpireSession t) m"
  obtain b m1 where "call_handler i (gbi_expire gbi t) (report (ExpiringStaleSession t) m) = Some (b, m1)"
    and "ref_expire gbi i ss (?next b m1) = Some m'"
    using Cons.prems(1)
    by (auto simp: bind_eq_Some_conv)
  moreover from this have "sessions m1 = sessions m"
    by (auto simp: call_handler_def bind_eq_Some_conv split: if_splits)
  ultimately show ?case
    using Cons.IH [of "?next b m1"] Cons.prems(2) by (simp add: ref_erase_def)
qed

lemma cleanUp_subset:
  assumes "cleanUpStaleSessions gbi i m = Some m'" and "index_inv m" and "sessions m s = None"
  shows "sessions m' s = None"
proof -
  have r: "ref_cleanUp gbi i (forget_index m) = Some (forget_index m')"
    using sim_cleanUp [OF assms(2), of gbi i] assms(1) by (simp add: sim0_def)
  have "sessions (forget_index m') s = None"
  proof (cases "openSessions m i")
    case None
    then have "sessions (forget_index m') = sessions (forget_index m)"
      using r by (simp add: ref_cleanUp_def del: forget_index_sel(5))
    then show ?thesis
      using assms(3) by simp
  next
    case (Some S)
    then obtain ss where "ref_expire gbi i ss ((forget_index m)\<lparr>clock := clock m \<circ> Suc\<rparr>) = Some (forget_index m')"
      using r by (simp add: ref_cleanUp_def steady_now_def)
    then show ?thesis
      by (rule ref_expire_subset) (simp add: assms(3))
  qed
  then show ?thesis by simp
qed

lemma sim_open:
  assumes inv: "index_inv m"
  shows "sim (BlobManager_open gbi f p q m) (ref_open gbi f p q (forget_index m))"
  unfolding BlobManager_open_def ref_open_def
proof (rule sim_bind [OF sim_getHandler [OF inv]])
  fix r m1
  assume gh: "getHandler gbi p m = Some (r, m1)" and m1: "index_inv m1"
  show "sim
    (case r of None \<Rightarrow> Some ((False, None), m1) | Some hp \<Rightarrow>
       (case getSession q m1 of (None, m) \<Rightarrow> Some ((False, None), m)
        | (Some s, m) \<Rightarrow> if \<not> has_flag f read_or_write then Some ((False, Some s), m)
          else do { m \<leftarrow> cleanUpStaleSessions gbi hp m;
                    (b, m) \<leftarrow> call_handler hp (gbi_open gbi s f p) m;
                    if \<not> b then Some ((False, Some s), m)
                    else do { m \<leftarrow> record_session hp s f p m; Some ((True, Some s), m) } }))
    (case r of None \<Rightarrow> Some ((False, None), forget_index m1) | Some hp \<Rightarrow>
       (case getSession q (forget_index m1) of (None, m) \<Rightarrow> Some ((False, None), m)
        | (Some s, m) \<Rightarrow> if \<not> has_flag f read_or_write then Some ((False, Some s), m)
          else do { m \<leftarrow> ref_cleanUp gbi hp m;
                    (b, m) \<leftarrow> call_handler hp (gbi_open gbi s f p) m;
                    if b then Some ((True, Some s), ref_record hp s f p m)
                    else Some ((False, Some s), m) }))"
  proof (cases r)
    case None
    then show ?thesis using m1 by (simp add: sim_Some)
  next
    case (Some i)
    obtain so n where gs: "getSession q m1 = (so, m1\<lparr>next_session := n\<rparr>)"
      using getSession_frame [of q m1] by (cases "getSession q m1") blast
    let ?m2 = "m1\<lparr>next_session := n\<rparr>"
    have m2: "index_inv ?m2"
      by (rule index_inv_cong [OF _ _ _ _ m1]) simp_all
    show ?thesis
    proof (cases "\<exists>s. so = Some s \<and> has_flag f read_or_write")
      case False
      then show ?thesis
        using Some gs m2
        by (auto simp: forget_index_getSession intro!: sim_Some split: option.split simp del: forget_index_upd)
    next
      case True
      then obtain s where so: "so = Some s" and f: "has_flag f read_or_write"
        by blast
      have "sim (do { m \<leftarrow> cleanUpStaleSessions gbi i ?m2;
              (b, m) \<leftarrow> call_handler i (gbi_open gbi s f p) m;
              if \<not> b then Some ((False, Some s), m)
              else do { m \<leftarrow> record_session i s f p m; Some ((True, Some s), m) } })
          (do { m \<leftarrow> ref_cleanUp gbi i (forget_index ?m2);
              (b, m) \<leftarrow> call_handler i (gbi_open gbi s f p) m;
              if b then Some ((True, Some s), ref_record i s f p m)
              else Some ((False, Some s), m) })"
      proof (rule sim_bind0 [OF sim_cleanUp [OF m2]], rule sim_bind, rule sim_call)
        fix m3 b m4
        assume cu: "cleanUpStaleSessions gbi i ?m2 = Some m3"
          and call: "call_handler i (gbi_open gbi s f p) m3 = Some (b, m4)" and m4: "index_inv m4"
        have i: "i < length (handlers m4)"
          using call by (auto simp: call_handler_def bind_eq_Some_conv split: if_splits)
        have "sessions ?m2 s = None"
          using getSession_fresh [of q m1 s] gs so by simp
        then have "sessions m4 s = None"
          using cleanUp_subset [OF cu m2] call
          by (auto simp: call_handler_def bind_eq_Some_conv split: if_splits)
        then have "sim0 (record_session i s f p m4) (Some (ref_record i s f p (forget_index m4)))"
          using sim_record [OF m4 _ i f] by simp
        then show "sim (if \<not> b then Some ((False, Some s), m4)
            else do { m \<leftarrow> record_session i s f p m4; Some ((True, Some s), m) })
          (if b then Some ((True, Some s), ref_record i s f p (forget_index m4))
            else Some ((False, Some s), forget_index m4))"
          using m4 by (cases b) (auto simp: sim0_Some intro: sim_Some)
      qed
      then show ?thesis
        using Some gs so f by (simp add: forget_index_getSession del: forget_index_upd)
    qed
  qed
qed

lemma sim_close:
  assumes inv: "index_inv m"
  shows "sim (BlobManager_close gbi s m) (ref_close gbi s (forget_index m))"
  unfolding BlobManager_close_def ref_close_def
proof (rule sim_bind [OF sim_getActionHandler [OF inv]])
  fix r m1
  assume ga: "getActionHandler s any_flags m = Some (r, m1)" and m1: "index_inv m1"
  show "sim (case r of None \<Rightarrow> Some (False, m1) | Some hp \<Rightarrow>
       do { (b, m) \<leftarrow> call_handler hp (gbi_close gbi s) m1;
            if \<not> b then Some (False, m) else do { m \<leftarrow> eraseSession hp s m; Some (True, m) } })
    (case r of None \<Rightarrow> Some (False, forget_index m1) | Some hp \<Rightarrow>
       do { (b, m) \<leftarrow> call_handler hp (gbi_close gbi s) (forget_index m1);
            Some (b, if b then ref_erase s m else m) })"
  proof (cases r)
    case None
    then show ?thesis using m1 by (simp add: sim_Some)
  next
    case (Some i)
    obtain si where si: "sessions m1 s = Some si" "handler si = Some i"
      using ga Some by (auto simp: getActionHandler_def steady_now_def bind_eq_Some_conv Let_def
          split: option.splits if_splits)
    show ?thesis
      unfolding Some option.case
    proof (rule sim_bind [OF sim_call [OF m1]])
      fix b m2
      assume call: "call_handler i (gbi_close gbi s) m1 = Some (b, m2)" and m2: "index_inv m2"
      have "sessions m2 s = Some si"
        using call si by (auto simp: call_handler_def bind_eq_Some_conv split: if_splits)
      then show "sim (if \<not> b then Some (False, m2) else do { m \<leftarrow> eraseSession i s m2; Some (True, m) })
          (Some (b, if b then ref_erase s (forget_index m2) else forget_index m2))"
        using sim_erase [OF m2 _ si(2), of s] m2
        by (cases b) (auto simp: sim0_Some intro: sim_Some)
    qed
  qed
qed

lemma index_inv_openFiles_zero:
  assumes "index_inv m"
  shows "index_inv (m\<lparr>openFiles := (openFiles m)(p \<mapsto> file_count m p)\<rparr>)"
proof -
  define m' where "m' = m\<lparr>openFiles := (openFiles m)(p \<mapsto> file_count m p)\<rparr>"
  have "file_count m' q = file_count m q" for q
    by (simp add: m'_def) (simp add: file_count_def)
  moreover have "table_inv m' = table_inv m" "sessions_on m' = sessions_on m"
    "sessions_of_handler m' = sessions_of_handler m" "handler_sessions m' = handler_sessions m"
    by (simp_all add: m'_def table_inv_def sessions_on_def sessions_of_handler_def
        handler_sessions_def fun_eq_iff)
  ultimately have "index_inv m'"
    using assms by (simp add: index_inv_def)
  then show ?thesis
    by (simp only: m'_def)
qed

lemma sim_delete:
  assumes inv: "index_inv m"
  shows "sim (BlobManager_deleteBlob gbi p m) (ref_delete gbi p (forget_index m))"
  unfolding BlobManager_deleteBlob_def ref_delete_def
proof (rule sim_bind [OF sim_getHandler [OF inv]])
  fix r and m1 :: "'a BlobManager"
  assume m1: "index_inv m1"
  let ?m2 = "m1\<lparr>openFiles := (openFiles m1)(p \<mapsto> file_count m1 p)\<rparr>"
  have m2: "index_inv ?m2"
    by (rule index_inv_openFiles_zero [OF m1])
  have "0 < file_count m1 p \<longleftrightarrow> sessions_on m1 p \<noteq> {}"
    using m1 by (simp add: index_inv_def card_gt_0_iff)
  then show "sim
      (case r of None \<Rightarrow> Some (False, m1) | Some hp \<Rightarrow>
         (let n = file_count m1 p; m = m1\<lparr>openFiles := (openFiles m1)(p \<mapsto> n)\<rparr> in
          if n > 0 then Some (False, m) else call_handler hp (gbi_deleteBlob gbi p) m))
      (case r of None \<Rightarrow> Some (False, forget_index m1) | Some hp \<Rightarrow>
         if sessions_on (forget_index m1) p \<noteq> {} then Some (False, forget_index m1)
         else call_handler hp (gbi_deleteBlob gbi p) (forget_index m1))"
    using m1 m2 sim_call [OF m2] by (auto simp: Let_def intro!: sim_Some split: option.split)
qed

lemma sim_buildBlobList:
  assumes inv: "index_inv m"
  shows "sim (buildBlobList gbi m) (buildBlobList gbi (forget_index m))"
proof (cases "collect_ids gbi (handlers m)")
  case None
  then show ?thesis by (simp add: buildBlobList_def sim_def)
next
  case (Some lh)
  obtain l hs where lh: "collect_ids gbi (handlers m) = Some (l, hs)"
    using Some by (cases lh) simp
  have "index_inv (m\<lparr>ids := l, handlers := hs\<rparr>)"
    by (rule index_inv_cong [OF _ _ _ _ inv]) (simp_all add: collect_ids_length [OF lh])
  then show ?thesis
    using lh by (simp add: buildBlobList_def sim_def)
qed

lemma sim_session_call:
  assumes "index_inv m"
  shows "sim
    (do { (found, m) \<leftarrow> getActionHandler s req m;
          case found of None \<Rightarrow> Some (d, m) | Some hp \<Rightarrow> call_handler hp f m })
    (do { (found, m) \<leftarrow> getActionHandler s req (forget_index m);
          case found of None \<Rightarrow> Some (d, m) | Some hp \<Rightarrow> call_handler hp f m })"
  by (rule sim_bind [OF sim_getActionHandler [OF assms]])
     (simp add: sim_call sim_Some split: option.split)

lemma sim_statPath:
  assumes "index_inv m"
  shows "sim (BlobManager_statPath gbi p mt m) (BlobManager_statPath gbi p mt (forget_index m))"
  unfolding BlobManager_statPath_def
  by (rule sim_bind [OF sim_getHandler [OF assms]]) (simp add: sim_call sim_Some split: option.split)

lemma sim_as_result: "sim x y \<Longrightarrow> sim (as_result c x) (as_result c y)"
  by (cases x) (auto simp: as_result_def sim_def)

lemma Reference_methods_sel [simp]:
  "mi_buildBlobList (Reference_methods gbi) = buildBlobList gbi"
  "mi_getBlobId (Reference_methods gbi) = (\<lambda>index m. Some (getBlobId index m, m))"
  "mi_open (Reference_methods gbi) = ref_open gbi"
  "mi_statPath (Reference_methods gbi) = BlobManager_statPath gbi"
  "mi_stat (Reference_methods gbi) = BlobManager_stat gbi"
  "mi_commit (Reference_methods gbi) = BlobManager_commit gbi"
  "mi_close (Reference_methods gbi) = ref_close gbi"
  "mi_read (Reference_methods gbi) = BlobManager_read gbi"
  "mi_write (Reference_methods gbi) = BlobManager_write gbi"
  "mi_deleteBlob (Reference_methods gbi) = ref_delete gbi"
  "mi_writeMeta (Reference_methods gbi) = BlobManager_writeMeta gbi"
  by (simp_all add: Reference_methods_def)

lemma sim_step:
  assumes "index_inv m"
  shows "sim (mgr_step (BlobManager_methods gbi) c m) (mgr_step (Reference_methods gbi) c (forget_index m))"
proof (cases c)
  case (CallGetBlobId i)
  then show ?thesis
    using assms by (simp add: as_result_def sim_def getBlobId_def)
qed (simp_all add: assms sim_as_result sim_buildBlobList sim_open sim_close sim_delete sim_statPath
    BlobManager_stat_def BlobManager_commit_def BlobManager_read_def BlobManager_write_def
    BlobManager_writeMeta_def sim_session_call)

lemma sim_run:
  "index_inv m \<Longrightarrow>
   sim (mgr_run (BlobManager_methods gbi) cs m) (mgr_run (Reference_methods gbi) cs (forget_index m))"
proof (induction cs arbitrary: m)
  case Nil
  then show ?case by (simp add: sim_Some)
next
  case (Cons c cs)
  show ?case
    unfolding mgr_run.simps
    by (rule sim_bind [OF sim_step [OF Cons.prems]], rule sim_bind, erule Cons.IH) (simp add: sim_Some)
qed

end
