(* ===== verification/Simulation.thy ===== *)
theory Simulation
  imports Requests Reference System
begin

unbundle bit_operations_syntax

text \<open>
  Two managers behind the same command handlers. \<open>manager_simulation\<close> is the interface: on
  states satisfying \<open>P\<close> every method of the first manager is tracked by the second, with
  the same result and the states related by \<open>F\<close>. Inside it, once for all: every request is
  answered alike over both managers.

  The two instances are the manager over monitored handlers and over bare ones, and the
  manager and the reference manager.
\<close>

definition tracks ::
    "('m \<Rightarrow> bool) \<Rightarrow> ('m \<Rightarrow> 'n) \<Rightarrow> ('r \<times> 'm) option \<Rightarrow> ('r \<times> 'n) option \<Rightarrow> bool" where
  "tracks P F x y \<longleftrightarrow> (\<forall>r m. x = Some (r, m) \<longrightarrow> P m \<and> y = Some (r, F m))"

lemma tracks_Some: "P m \<Longrightarrow> m' = F m \<Longrightarrow> tracks P F (Some (r, m)) (Some (r, m'))"
  by (simp add: tracks_def)

lemma tracks_bind:
  "tracks P F x y \<Longrightarrow> (\<And>r m. P m \<Longrightarrow> tracks P F (f r m) (g r (F m))) \<Longrightarrow>
   tracks P F (x \<bind> (\<lambda>(r, m). f r m)) (y \<bind> (\<lambda>(r, m). g r m))"
  by (cases x) (auto simp: tracks_def)

lemma tracks_bind_meta:
  "tracks P F x y \<Longrightarrow> (\<And>b mt m. P m \<Longrightarrow> tracks P F (f b mt m) (g b mt (F m))) \<Longrightarrow>
   tracks P F (x \<bind> (\<lambda>((b, mt), m). f b mt m)) (y \<bind> (\<lambda>((b, mt), m). g b mt m))"
  by (cases x) (auto simp: tracks_def)

lemma tracks_pure: "(\<And>a. tracks P F (f a) (g a)) \<Longrightarrow> tracks P F (x \<bind> f) (x \<bind> g)"
  by (cases x) (simp_all add: tracks_def)

lemma tracks_if: "tracks P F x y \<Longrightarrow> tracks P F x' y' \<Longrightarrow>
  tracks P F (if c then x else x') (if c then y else y')"
  by simp

lemma tracks_Let: "tracks P F (f a) (g a) \<Longrightarrow> tracks P F (let x = a in f x) (let x = a in g x)"
  by simp

lemma tracks_SomeD: "tracks P F x y \<Longrightarrow> x = Some (r, m) \<Longrightarrow> P m \<and> y = Some (r, F m)"
  by (simp add: tracks_def)

locale manager_simulation =
  fixes mgr1 :: "('h, 'm) ManagerInterface"
    and mgr2 :: "('k, 'n) ManagerInterface"
    and P :: "'m \<Rightarrow> bool"
    and F :: "'m \<Rightarrow> 'n"
  assumes sim_buildBlobList: "P m \<Longrightarrow> tracks P F (mi_buildBlobList mgr1 m) (mi_buildBlobList mgr2 (F m))"
    and sim_getBlobId: "P m \<Longrightarrow> tracks P F (mi_getBlobId mgr1 i m) (mi_getBlobId mgr2 i (F m))"
    and sim_open: "P m \<Longrightarrow> tracks P F (mi_open mgr1 f p q m) (mi_open mgr2 f p q (F m))"
    and sim_statPath: "P m \<Longrightarrow> tracks P F (mi_statPath mgr1 p mt m) (mi_statPath mgr2 p mt (F m))"
    and sim_stat: "P m \<Longrightarrow> tracks P F (mi_stat mgr1 s mt m) (mi_stat mgr2 s mt (F m))"
    and sim_commit: "P m \<Longrightarrow> tracks P F (mi_commit mgr1 s d m) (mi_commit mgr2 s d (F m))"
    and sim_close: "P m \<Longrightarrow> tracks P F (mi_close mgr1 s m) (mi_close mgr2 s (F m))"
    and sim_read: "P m \<Longrightarrow> tracks P F (mi_read mgr1 s off n m) (mi_read mgr2 s off n (F m))"
    and sim_write: "P m \<Longrightarrow> tracks P F (mi_write mgr1 s off d m) (mi_write mgr2 s off d (F m))"
    and sim_deleteBlob: "P m \<Longrightarrow> tracks P F (mi_deleteBlob mgr1 p m) (mi_deleteBlob mgr2 p (F m))"
    and sim_writeMeta: "P m \<Longrightarrow> tracks P F (mi_writeMeta mgr1 s off d m) (mi_writeMeta mgr2 s off d (F m))"
begin

lemmas tracks_intros = tracks_bind_meta tracks_bind tracks_pure tracks_if tracks_Let tracks_Some

lemma perform_tracks:
  assumes "P m"
  shows "tracks P F (perform mgr1 q m) (perform mgr2 q (F m))"
proof -
  note laws = sim_buildBlobList sim_getBlobId sim_open sim_statPath sim_stat sim_commit
    sim_close sim_read sim_write sim_deleteBlob sim_writeMeta
  have ack: "tracks P F (acknowledge x) (acknowledge y)" if "tracks P F x y" for x y
    unfolding acknowledge_def by (rule tracks_bind [OF that] tracks_Some refl | assumption)+
  have desc: "tracks P F (describe x) (describe y)" if "tracks P F x y" for x y
    unfolding describe_def by (rule tracks_bind_meta [OF that] tracks_intros refl | assumption)+
  show ?thesis
    by (cases q; simp only: perform.simps)
      (rule ack desc tracks_intros laws assms refl | assumption)+
qed

text \<open>Routing: both decode a request alike.\<close>

lemma request_tracks:
  assumes "P m"
  shows "tracks P F
    (do { f \<leftarrow> validateBlobCommand crc cmd d; processBlobCommand crc f mgr1 d maxSize m })
    (do { f \<leftarrow> validateBlobCommand crc cmd d; processBlobCommand crc f mgr2 d maxSize (F m) })"
  using assms tracks_bind [OF perform_tracks, of m, where f = "\<lambda>rp m. Some (respond crc maxSize rp, m)"]
  unfolding routing_meaning by (cases "decode crc cmd d") (simp_all add: tracks_Some)

end

section \<open>The instances\<close>

lemma follows_tracks: "follows (apsnd F) x y \<longleftrightarrow> tracks (\<lambda>_. True) F x y"
  by (auto simp: follows_def tracks_def)

lemma sim_tracks: "sim x y \<Longrightarrow> tracks index_inv forget_index x y"
  by (auto simp: sim_def tracks_def)

interpretation monitor_simulation: manager_simulation
  "BlobManager_methods (monitored gbi)" "BlobManager_methods gbi" "\<lambda>_. True" forget for gbi
  by unfold_locales
    (simp_all add: follows_buildBlobList follows_open follows_statPath follows_close follows_deleteBlob
      BlobManager_stat_def BlobManager_commit_def BlobManager_read_def BlobManager_write_def
      BlobManager_writeMeta_def follows_session_call follows_methods follows_Some getBlobId_def
      flip: follows_tracks)

interpretation reference_simulation: manager_simulation
  "BlobManager_methods gbi" "Reference_methods gbi" index_inv forget_index for gbi
  by unfold_locales
    (simp_all add: sim_tracks sim_buildBlobList sim_open sim_statPath sim_close sim_delete
      BlobManager_stat_def BlobManager_commit_def BlobManager_read_def BlobManager_write_def
      BlobManager_writeMeta_def sim_session_call tracks_Some getBlobId_def)

section \<open>The daemon over monitored handlers\<close>

lemma forget_getBlobManager:
  "getBlobManager t clk (map_option forget g) = forget (getBlobManager t clk g)"
  by (cases g) (simp_all add: getBlobManager_def new_BlobManager_def forget_def)

lemma handle_monitored:
  assumes "handleBlobCommand crc (monitored gbi) t clk cmd d maxSize g = Some (r, g')"
  shows "handleBlobCommand crc gbi t clk cmd d maxSize (map_option forget g) = Some (r, map_option forget g')"
proof -
  obtain m' where x: "do { f \<leftarrow> validateBlobCommand crc cmd d;
      processBlobCommand crc f (BlobManager_methods (monitored gbi)) d maxSize (getBlobManager t clk g) } = Some (r, m')"
    and g': "g' = Some m'"
    using assms by (auto simp: handleBlobCommand_def bind_eq_Some_conv)
  have "do { f \<leftarrow> validateBlobCommand crc cmd d;
      processBlobCommand crc f (BlobManager_methods gbi) d maxSize (forget (getBlobManager t clk g)) } =
      Some (r, forget m')"
    using tracks_SomeD [OF monitor_simulation.request_tracks x] by simp
  then show ?thesis
    by (cases r) (auto simp: handleBlobCommand_def bind_eq_Some_conv forget_getBlobManager g')
qed

lemma serve_monitored:
  "serve crc (monitored gbi) maxTransfer t clk qs g = Some (rs, g') \<Longrightarrow>
   serve crc gbi maxTransfer t clk qs (map_option forget g) = Some (rs, map_option forget g')"
proof (induction qs arbitrary: g rs)
  case Nil
  then show ?case by simp
next
  case (Cons q qs)
  then show ?case
    by (fastforce simp: oem_handler_def bind_eq_Some_conv dest: handle_monitored)
qed

end
