(* ===== verification/Exceptions.thy ===== *)
theory Exceptions
  imports Transparency
begin

unbundle bit_operations_syntax

text \<open>
  The manager over handlers that throw. No function of \<^verbatim>\<open>manager.cpp\<close>, \<^verbatim>\<open>ipmi.cpp\<close> or
  \<^verbatim>\<open>process.cpp\<close> catches an exception, so one thrown by a handler's method leaves the
  operation of the manager at that point and goes up to the IPMI daemon, which catches it;
  what the operation has done to the manager so far stays.

  A method of a handler here returns \<open>Inl e\<close> when it throws \<open>e\<close>, and \<open>Inr r\<close> when it
  returns \<open>r\<close>; either way with the state the handler is in afterwards. The operations of
  the manager that call a handler are translated once more, ending in \<open>_exc\<close>; the others
  are those of \<open>Manager\<close>.

  \<open>tame gbi\<close> is the handler that refuses where \<open>gbi\<close> throws. A throwing handler keeps its
  side of the contract when \<open>tame gbi\<close> satisfies \<open>blob_handler\<close>: where it throws, its
  sessions are what they were before the call.
\<close>

type_synonym 'r outcome = "string + 'r"

section \<open>Handlers and sequencing\<close>

record 'h ThrowingInterface =
  th_canHandleBlob :: "string \<Rightarrow> 'h \<Rightarrow> (bool outcome \<times> 'h) option"
  th_getBlobIds :: "'h \<Rightarrow> (string list outcome \<times> 'h) option"
  th_deleteBlob :: "string \<Rightarrow> 'h \<Rightarrow> (bool outcome \<times> 'h) option"
  th_statPath :: "string \<Rightarrow> BlobMeta \<Rightarrow> 'h \<Rightarrow> ((bool \<times> BlobMeta) outcome \<times> 'h) option"
  th_open :: "u16 \<Rightarrow> u16 \<Rightarrow> string \<Rightarrow> 'h \<Rightarrow> (bool outcome \<times> 'h) option"
  th_read :: "u16 \<Rightarrow> u32 \<Rightarrow> u32 \<Rightarrow> 'h \<Rightarrow> (bytes outcome \<times> 'h) option"
  th_write :: "u16 \<Rightarrow> u32 \<Rightarrow> bytes \<Rightarrow> 'h \<Rightarrow> (bool outcome \<times> 'h) option"
  th_writeMeta :: "u16 \<Rightarrow> u32 \<Rightarrow> bytes \<Rightarrow> 'h \<Rightarrow> (bool outcome \<times> 'h) option"
  th_commit :: "u16 \<Rightarrow> bytes \<Rightarrow> 'h \<Rightarrow> (bool outcome \<times> 'h) option"
  th_close :: "u16 \<Rightarrow> 'h \<Rightarrow> (bool outcome \<times> 'h) option"
  th_stat :: "u16 \<Rightarrow> BlobMeta \<Rightarrow> 'h \<Rightarrow> ((bool \<times> BlobMeta) outcome \<times> 'h) option"
  th_expire :: "u16 \<Rightarrow> 'h \<Rightarrow> (bool outcome \<times> 'h) option"

text \<open>Going on after a computation that can throw.\<close>

definition proceed ::
    "('a outcome \<times> 's) option \<Rightarrow> ('a \<Rightarrow> 's \<Rightarrow> ('b outcome \<times> 's) option) \<Rightarrow> ('b outcome \<times> 's) option" where
  "proceed x f = do { (r, m) \<leftarrow> x; case r of Inl e \<Rightarrow> Some (Inl e, m) | Inr a \<Rightarrow> f a m }"

lemma proceed_simps [simp]:
  "proceed None f = None"
  "proceed (Some (Inl e, m)) f = Some (Inl e, m)"
  "proceed (Some (Inr a, m)) f = f a m"
  by (simp_all add: proceed_def)

section \<open>The manager\<close>

fun collect_ids_exc ::
    "'h ThrowingInterface \<Rightarrow> 'h list \<Rightarrow> (unit outcome \<times> string list \<times> 'h list) option" where
  "collect_ids_exc gbi [] = Some (Inr (), [], [])"
| "collect_ids_exc gbi (h # hs) =
     do { (r, h') \<leftarrow> th_getBlobIds gbi h;
          case r of
            Inl e \<Rightarrow> Some (Inl e, [], h' # hs)
          | Inr blobs \<Rightarrow>
              do { (r, rest, hs') \<leftarrow> collect_ids_exc gbi hs;
                   Some (r, blobs @ rest, h' # hs') } }"

text \<open>The list \<open>ids\<close> is cleared first and filled handler by handler.\<close>

definition buildBlobList_exc ::
    "'h ThrowingInterface \<Rightarrow> 'h BlobManager \<Rightarrow> (u32 outcome \<times> 'h BlobManager) option" where
  "buildBlobList_exc gbi m =
     do { (r, l, hs) \<leftarrow> collect_ids_exc gbi (handlers m);
          let m = m\<lparr>ids := l, handlers := hs\<rparr>;
          case r of
            Inl e \<Rightarrow> Some (Inl e, m)
          | Inr _ \<Rightarrow> Some (Inr (word_of_nat (length l)), m) }"

fun find_handler_exc ::
    "'h ThrowingInterface \<Rightarrow> string \<Rightarrow> 'h list \<Rightarrow> (hid option outcome \<times> 'h list) option" where
  "find_handler_exc gbi path [] = Some (Inr None, [])"
| "find_handler_exc gbi path (h # hs) =
     do { (r, h') \<leftarrow> th_canHandleBlob gbi path h;
          case r of
            Inl e \<Rightarrow> Some (Inl e, h' # hs)
          | Inr b \<Rightarrow>
              if b then Some (Inr (Some 0), h' # hs)
              else do { (r, hs') \<leftarrow> find_handler_exc gbi path hs;
                        Some (map_sum id (map_option Suc) r, h' # hs') } }"

definition getHandler_exc ::
    "'h ThrowingInterface \<Rightarrow> string \<Rightarrow> 'h BlobManager \<Rightarrow> (hid option outcome \<times> 'h BlobManager) option" where
  "getHandler_exc gbi path m =
     do { (r, hs) \<leftarrow> find_handler_exc gbi path (handlers m); Some (r, m\<lparr>handlers := hs\<rparr>) }"

fun expire_sessions_exc ::
    "'h ThrowingInterface \<Rightarrow> hid \<Rightarrow> u16 list \<Rightarrow> 'h BlobManager \<Rightarrow> (unit outcome \<times> 'h BlobManager) option" where
  "expire_sessions_exc gbi hp [] m = Some (Inr (), m)"
| "expire_sessions_exc gbi hp (s # ss) m =
     proceed (call_handler hp (th_expire gbi s) (report (ExpiringStaleSession s) m)) (\<lambda>b m.
       do { m \<leftarrow> (if b then eraseSession hp s m else Some (report (FailedToExpireSession s) m));
            expire_sessions_exc gbi hp ss m })"

definition cleanUpStaleSessions_exc ::
    "'h ThrowingInterface \<Rightarrow> hid \<Rightarrow> 'h BlobManager \<Rightarrow> (unit outcome \<times> 'h BlobManager) option" where
  "cleanUpStaleSessions_exc gbi hp m = (case openSessions m hp of
       None \<Rightarrow> Some (Inr (), m)
     | Some S \<Rightarrow>
         (let (timeNow, m) = steady_now m;
              (expiredSet, m) = collect_stale timeNow (sorted_list_of_set S) m in
          expire_sessions_exc gbi hp (sorted_list_of_set expiredSet) m))"

definition open_exc ::
    "'h ThrowingInterface \<Rightarrow> u16 \<Rightarrow> string \<Rightarrow> out_ptr \<Rightarrow> 'h BlobManager
       \<Rightarrow> ((bool \<times> u16 option) outcome \<times> 'h BlobManager) option" where
  "open_exc gbi fl path session m =
     proceed (getHandler_exc gbi path m) (\<lambda>found m. case found of
         None \<Rightarrow> Some (Inr (False, None), m)
       | Some hp \<Rightarrow>
           (case getSession session m of
              (None, m) \<Rightarrow> Some (Inr (False, None), m)
            | (Some s, m) \<Rightarrow>
                if \<not> has_flag fl read_or_write then Some (Inr (False, Some s), m)
                else proceed (cleanUpStaleSessions_exc gbi hp m) (\<lambda>_ m.
                       proceed (call_handler hp (th_open gbi s fl path) m) (\<lambda>b m.
                         if \<not> b then Some (Inr (False, Some s), m)
                         else do { m \<leftarrow> record_session hp s fl path m;
                                   Some (Inr (True, Some s), m) }))))"

definition statPath_exc ::
    "'h ThrowingInterface \<Rightarrow> string \<Rightarrow> BlobMeta \<Rightarrow> 'h BlobManager
       \<Rightarrow> ((bool \<times> BlobMeta) outcome \<times> 'h BlobManager) option" where
  "statPath_exc gbi path mt m =
     proceed (getHandler_exc gbi path m) (\<lambda>found m. case found of
         None \<Rightarrow> Some (Inr (False, mt), m)
       | Some hp \<Rightarrow> call_handler hp (th_statPath gbi path mt) m)"

definition deleteBlob_exc ::
    "'h ThrowingInterface \<Rightarrow> string \<Rightarrow> 'h BlobManager \<Rightarrow> (bool outcome \<times> 'h BlobManager) option" where
  "deleteBlob_exc gbi path m =
     proceed (getHandler_exc gbi path m) (\<lambda>found m. case found of
         None \<Rightarrow> Some (Inr False, m)
       | Some hp \<Rightarrow>
           (let n = file_count m path;
                m = m\<lparr>openFiles := (openFiles m)(path \<mapsto> n)\<rparr> in
            if n > 0 then Some (Inr False, m)
            else call_handler hp (th_deleteBlob gbi path) m))"

text \<open>The operations on a session; \<open>getActionHandler\<close> calls no handler.\<close>

definition stat_exc ::
    "'h ThrowingInterface \<Rightarrow> u16 \<Rightarrow> BlobMeta \<Rightarrow> 'h BlobManager
       \<Rightarrow> ((bool \<times> BlobMeta) outcome \<times> 'h BlobManager) option" where
  "stat_exc gbi session mt m =
     do { (found, m) \<leftarrow> getActionHandler session any_flags m;
          case found of
            None \<Rightarrow> Some (Inr (False, mt), m)
          | Some hp \<Rightarrow> call_handler hp (th_stat gbi session mt) m }"

definition commit_exc ::
    "'h ThrowingInterface \<Rightarrow> u16 \<Rightarrow> bytes \<Rightarrow> 'h BlobManager \<Rightarrow> (bool outcome \<times> 'h BlobManager) option" where
  "commit_exc gbi session d m =
     do { (found, m) \<leftarrow> getActionHandler session any_flags m;
          case found of
            None \<Rightarrow> Some (Inr False, m)
          | Some hp \<Rightarrow> call_handler hp (th_commit gbi session d) m }"

definition close_exc ::
    "'h ThrowingInterface \<Rightarrow> u16 \<Rightarrow> 'h BlobManager \<Rightarrow> (bool outcome \<times> 'h BlobManager) option" where
  "close_exc gbi session m =
     do { (found, m) \<leftarrow> getActionHandler session any_flags m;
          case found of
            None \<Rightarrow> Some (Inr False, m)
          | Some hp \<Rightarrow>
              proceed (call_handler hp (th_close gbi session) m) (\<lambda>b m.
                if \<not> b then Some (Inr False, m)
                else do { m \<leftarrow> eraseSession hp session m; Some (Inr True, m) }) }"

definition read_exc ::
    "'h ThrowingInterface \<Rightarrow> u16 \<Rightarrow> u32 \<Rightarrow> u32 \<Rightarrow> 'h BlobManager
       \<Rightarrow> (bytes outcome \<times> 'h BlobManager) option" where
  "read_exc gbi session offset requestedSize m =
     do { (found, m) \<leftarrow> getActionHandler session OpenFlags_read m;
          case found of
            None \<Rightarrow> Some (Inr [], m)
          | Some hp \<Rightarrow> call_handler hp (th_read gbi session offset requestedSize) m }"

definition write_exc ::
    "'h ThrowingInterface \<Rightarrow> u16 \<Rightarrow> u32 \<Rightarrow> bytes \<Rightarrow> 'h BlobManager
       \<Rightarrow> (bool outcome \<times> 'h BlobManager) option" where
  "write_exc gbi session offset d m =
     do { (found, m) \<leftarrow> getActionHandler session OpenFlags_write m;
          case found of
            None \<Rightarrow> Some (Inr False, m)
          | Some hp \<Rightarrow> call_handler hp (th_write gbi session offset d) m }"

definition writeMeta_exc ::
    "'h ThrowingInterface \<Rightarrow> u16 \<Rightarrow> u32 \<Rightarrow> bytes \<Rightarrow> 'h BlobManager
       \<Rightarrow> (bool outcome \<times> 'h BlobManager) option" where
  "writeMeta_exc gbi session offset d m =
     do { (found, m) \<leftarrow> getActionHandler session any_flags m;
          case found of
            None \<Rightarrow> Some (Inr False, m)
          | Some hp \<Rightarrow> call_handler hp (th_writeMeta gbi session offset d) m }"

section \<open>Sequences of calls\<close>

definition as_outcome ::
    "('r \<Rightarrow> mgr_result) \<Rightarrow> ('r outcome \<times> 'm) option \<Rightarrow> (mgr_result outcome \<times> 'm) option" where
  "as_outcome c x = map_option (apfst (map_sum id c)) x"

fun step_exc ::
    "'h ThrowingInterface \<Rightarrow> mgr_call \<Rightarrow> 'h BlobManager \<Rightarrow> (mgr_result outcome \<times> 'h BlobManager) option" where
  "step_exc gbi CallBuildBlobList m = as_outcome Count (buildBlobList_exc gbi m)"
| "step_exc gbi (CallGetBlobId i) m = Some (Inr (BlobId (getBlobId i m)), m)"
| "step_exc gbi (CallOpen f p q) m = as_outcome Opened (open_exc gbi f p q m)"
| "step_exc gbi (CallStatPath p) m = as_outcome Meta (statPath_exc gbi p uninit_meta m)"
| "step_exc gbi (CallStat s) m = as_outcome Meta (stat_exc gbi s uninit_meta m)"
| "step_exc gbi (CallCommit s d) m = as_outcome Done (commit_exc gbi s d m)"
| "step_exc gbi (CallClose s) m = as_outcome Done (close_exc gbi s m)"
| "step_exc gbi (CallRead s off n) m = as_outcome Data (read_exc gbi s off n m)"
| "step_exc gbi (CallWrite s off d) m = as_outcome Done (write_exc gbi s off d m)"
| "step_exc gbi (CallDeleteBlob p) m = as_outcome Done (deleteBlob_exc gbi p m)"
| "step_exc gbi (CallWriteMeta s off d) m = as_outcome Done (writeMeta_exc gbi s off d m)"

text \<open>An exception ends its call; the next call finds the manager as the exception left it.\<close>

fun run_exc ::
    "'h ThrowingInterface \<Rightarrow> mgr_call list \<Rightarrow> 'h BlobManager
       \<Rightarrow> (mgr_result outcome list \<times> 'h BlobManager) option" where
  "run_exc gbi [] m = Some ([], m)"
| "run_exc gbi (c # cs) m =
     do { (r, m) \<leftarrow> step_exc gbi c m; (rs, m) \<leftarrow> run_exc gbi cs m; Some (r # rs, m) }"

section \<open>Refusing instead of throwing\<close>

definition calm :: "'r \<Rightarrow> ('r outcome \<times> 's) option \<Rightarrow> ('r \<times> 's) option" where
  "calm d x = map_option (apfst (case_sum (\<lambda>_. d) id)) x"

definition tame :: "'h ThrowingInterface \<Rightarrow> 'h GenericBlobInterface" where
  "tame gbi =
     \<lparr>gbi_canHandleBlob = (\<lambda>p h. calm False (th_canHandleBlob gbi p h)),
      gbi_getBlobIds = (\<lambda>h. calm [] (th_getBlobIds gbi h)),
      gbi_deleteBlob = (\<lambda>p h. calm False (th_deleteBlob gbi p h)),
      gbi_statPath = (\<lambda>p mt h. calm (False, mt) (th_statPath gbi p mt h)),
      gbi_open = (\<lambda>s f p h. calm False (th_open gbi s f p h)),
      gbi_read = (\<lambda>s off n h. calm [] (th_read gbi s off n h)),
      gbi_write = (\<lambda>s off d h. calm False (th_write gbi s off d h)),
      gbi_writeMeta = (\<lambda>s off d h. calm False (th_writeMeta gbi s off d h)),
      gbi_commit = (\<lambda>s d h. calm False (th_commit gbi s d h)),
      gbi_close = (\<lambda>s h. calm False (th_close gbi s h)),
      gbi_stat = (\<lambda>s mt h. calm (False, mt) (th_stat gbi s mt h)),
      gbi_expire = (\<lambda>s h. calm False (th_expire gbi s h))\<rparr>"

lemma tame_sel [simp]:
  "gbi_canHandleBlob (tame gbi) p h = calm False (th_canHandleBlob gbi p h)"
  "gbi_getBlobIds (tame gbi) h = calm [] (th_getBlobIds gbi h)"
  "gbi_deleteBlob (tame gbi) p = (\<lambda>h. calm False (th_deleteBlob gbi p h))"
  "gbi_statPath (tame gbi) p mt = (\<lambda>h. calm (False, mt) (th_statPath gbi p mt h))"
  "gbi_open (tame gbi) s f p = (\<lambda>h. calm False (th_open gbi s f p h))"
  "gbi_read (tame gbi) s off n = (\<lambda>h. calm [] (th_read gbi s off n h))"
  "gbi_write (tame gbi) s off d = (\<lambda>h. calm False (th_write gbi s off d h))"
  "gbi_writeMeta (tame gbi) s off d = (\<lambda>h. calm False (th_writeMeta gbi s off d h))"
  "gbi_commit (tame gbi) s d = (\<lambda>h. calm False (th_commit gbi s d h))"
  "gbi_close (tame gbi) s = (\<lambda>h. calm False (th_close gbi s h))"
  "gbi_stat (tame gbi) s mt = (\<lambda>h. calm (False, mt) (th_stat gbi s mt h))"
  "gbi_expire (tame gbi) s = (\<lambda>h. calm False (th_expire gbi s h))"
  by (simp_all add: tame_def)

lemma calm_simps [simp]:
  "calm d None = None"
  "calm d (Some (Inl e, m)) = Some (d, m)"
  "calm d (Some (Inr r, m)) = Some (r, m)"
  by (simp_all add: calm_def)

lemma ok_calm: "ok (calm d x) Q \<longleftrightarrow> ok x (\<lambda>(r, m). Q (case r of Inl e \<Rightarrow> d | Inr a \<Rightarrow> a, m))"
  by (cases x) (auto simp: calm_def split: sum.split)

lemma ok_proceed:
  "ok (proceed x f) Q \<longleftrightarrow> ok x (\<lambda>(r, m). case r of Inl e \<Rightarrow> Q (Inl e, m) | Inr a \<Rightarrow> ok (f a m) Q)"
  by (cases x) (auto simp: proceed_def split: sum.split)

lemma ok_as_outcome: "ok (as_outcome c x) Q \<longleftrightarrow> ok x (\<lambda>(r, m). Q (map_sum id c r, m))"
  by (cases x) (auto simp: as_outcome_def)

lemmas exc_wp = wp ok_calm ok_proceed ok_as_outcome

lemma calm_call: "call_handler i (\<lambda>h. calm d (f h)) m = calm d (call_handler i f m)"
  by (cases "f (handlers m ! i)") (auto simp: call_handler_def calm_def)

text \<open>
  The operations on a session: an exception leaves the manager exactly where a refusal by
  the handler would have left it.
\<close>

lemma calm_session_call:
  "do { (found, m) \<leftarrow> getActionHandler s req m;
        case found of None \<Rightarrow> Some (d, m) | Some hp \<Rightarrow> call_handler hp (\<lambda>h. calm d (f h)) m } =
   calm d (do { (found, m) \<leftarrow> getActionHandler s req m;
        case found of None \<Rightarrow> Some (Inr d, m) | Some hp \<Rightarrow> call_handler hp f m })"
  by (cases "getActionHandler s req m") (auto simp: calm_call split: option.split)

lemma session_calls_calm:
  "BlobManager_stat (tame gbi) s mt m = calm (False, mt) (stat_exc gbi s mt m)"
  "BlobManager_commit (tame gbi) s d m = calm False (commit_exc gbi s d m)"
  "BlobManager_read (tame gbi) s off n m = calm [] (read_exc gbi s off n m)"
  "BlobManager_write (tame gbi) s off d m = calm False (write_exc gbi s off d m)"
  "BlobManager_writeMeta (tame gbi) s off d m = calm False (writeMeta_exc gbi s off d m)"
  unfolding BlobManager_stat_def stat_exc_def BlobManager_commit_def commit_exc_def
    BlobManager_read_def read_exc_def BlobManager_write_def write_exc_def
    BlobManager_writeMeta_def writeMeta_exc_def tame_sel calm_session_call
  by (rule refl)+

lemma calm_proceed_erase:
  "do { (b, m) \<leftarrow> calm False x;
        if \<not> b then Some (False, m) else do { m \<leftarrow> g m; Some (True, m) } } =
   calm False (proceed x (\<lambda>b m.
        if \<not> b then Some (Inr False, m) else do { m \<leftarrow> g m; Some (Inr True, m) }))"
proof (cases x)
  case (Some rm)
  then show ?thesis
    by (cases rm; cases "fst rm"; cases "g (snd rm)") (auto simp: calm_def)
qed simp

lemma close_calm: "BlobManager_close (tame gbi) s m = calm False (close_exc gbi s m)"
  by (cases "getActionHandler s any_flags m")
     (auto simp: BlobManager_close_def close_exc_def calm_call calm_proceed_erase split: option.split)

section \<open>Exception safety\<close>

text \<open>
  The daemon with a handler that throws in \<open>expire\<close> does what it does with one that returns
  false there, up to the messages: no failure is reported.
\<close>

lemma expire_sessions_tame:
  "case expire_sessions_exc gbi i ss m of
     None \<Rightarrow> expire_sessions (tame gbi) i ss m = None
   | Some (r, m') \<Rightarrow> (\<exists>k l. expire_sessions (tame gbi) i (take k ss) m = Some (m'\<lparr>cerr := l\<rparr>)
       \<and> (\<forall>u. r = Inr u \<longrightarrow> take k ss = ss))"
proof (induction ss arbitrary: m)
  case Nil
  then show ?case by (auto intro!: exI [where x = "cerr m"])
next
  case (Cons s ss)
  let ?c = "call_handler i (th_expire gbi s) (report (ExpiringStaleSession s) m)"
  let ?e = "report (FailedToExpireSession s)"
  show ?case
  proof (cases ?c)
    case None
    then show ?thesis by (simp add: calm_call)
  next
    case (Some rm)
    obtain r m1 where rm: "?c = Some (r, m1)"
      using Some by (cases rm) simp
    show ?thesis
    proof (cases r)
      case (Inl e)
      have "expire_sessions (tame gbi) i (take (Suc 0) (s # ss)) m =
          Some (m1\<lparr>cerr := cerr m1 @ [FailedToExpireSession s]\<rparr>)"
        using rm Inl by (simp add: calm_call report_def)
      then show ?thesis
        using rm Inl by (auto simp del: expire_sessions.simps take_Suc_Cons
            intro!: exI [where x = "Suc 0"])
    next
      case (Inr b)
      show ?thesis
      proof (cases "if b then eraseSession i s m1 else Some (?e m1)")
        case None
        then show ?thesis using rm Inr by (simp add: calm_call split: if_splits)
      next
        case (Some m2)
        have exc: "expire_sessions_exc gbi i (s # ss) m = expire_sessions_exc gbi i ss m2"
          and tm: "expire_sessions (tame gbi) i (s # l) m = expire_sessions (tame gbi) i l m2" for l
          using rm Inr Some by (auto simp: calm_call split: if_splits)
        show ?thesis
        proof (cases "expire_sessions_exc gbi i ss m2")
          case None
          then show ?thesis using Cons.IH [of m2] by (simp only: exc tm) simp
        next
          case (Some rm')
          then obtain k l where k: "expire_sessions (tame gbi) i (take k ss) m2 = Some ((snd rm')\<lparr>cerr := l\<rparr>)"
            "\<forall>u. fst rm' = Inr u \<longrightarrow> take k ss = ss"
            using Cons.IH [of m2] by (auto split: prod.splits)
          then have "expire_sessions (tame gbi) i (take (Suc k) (s # ss)) m = Some ((snd rm')\<lparr>cerr := l\<rparr>)"
            using tm [of "take k ss"] by simp
          then show ?thesis
            using k(2) by (cases rm') (auto simp: exc Some simp del: expire_sessions.simps
                expire_sessions_exc.simps take_Suc_Cons intro!: exI [where x = "Suc k"])
        qed
      qed
    qed
  qed
qed

lemma cleanUpStaleSessions_exc_eq:
  assumes "index_inv m"
  shows "cleanUpStaleSessions_exc gbi i m =
    (if openSessions m i = None then Some (Inr (), m)
     else expire_sessions_exc gbi i
       (sorted_list_of_set {s \<in> sessions_of_handler m i. stale (clock m 0) m s})
       (m\<lparr>clock := clock m \<circ> Suc\<rparr>))"
proof (cases "openSessions m i")
  case None
  then show ?thesis by (simp add: cleanUpStaleSessions_exc_def)
next
  case (Some S)
  then have S: "S = sessions_of_handler m i"
    using assms by (auto simp: index_inv_def handler_sessions_def split: option.splits)
  let ?m1 = "m\<lparr>clock := clock m \<circ> Suc\<rparr>"
  have "collect_stale (clock m 0) (sorted_list_of_set S) ?m1 =
      ({s \<in> S. stale (clock m 0) m s}, ?m1)"
    using sessions_of_handler_dom [of m i]
    by (subst collect_stale_eq) (auto simp: S stale_def split: option.splits)
  then show ?thesis
    using Some by (simp add: cleanUpStaleSessions_exc_def steady_now_def S)
qed

locale throwing_handler = blob_handler "tame gbi" hinv live accepts
  for gbi :: "'h ThrowingInterface"
    and hinv :: "'h \<Rightarrow> bool"
    and live :: "'h \<Rightarrow> u16 \<rightharpoonup> string \<times> u16"
    and accepts :: "'h \<Rightarrow> string \<Rightarrow> bool"
begin

lemma find_handler_exc_ok:
  "list_all hinv hs \<Longrightarrow> ok (find_handler_exc gbi p hs) (\<lambda>(r, hs'). list_all2 keeps hs hs'
     \<and> (\<forall>i. r = Inr (Some i) \<longrightarrow> i < length hs \<and> accepts (hs' ! i) p))"
proof (induction hs)
  case Nil
  then show ?case by simp
next
  case (Cons h hs)
  obtain r h' where r: "th_canHandleBlob gbi p h = Some (r, h')" and k: "keeps h h'"
    and a: "r = Inr True \<Longrightarrow> accepts h' p"
    using canHandleBlob_law [of h p] Cons.prems
    by (auto simp: keeps_def exc_wp split: sum.splits elim!: ok_pairE)
  have rest: "list_all2 keeps hs hs"
    using Cons.prems by (simp add: keeps_all_refl)
  show ?case
  proof (cases "r = Inr False")
    case True
    have "ok (find_handler_exc gbi p hs) (\<lambda>(r, hs'). list_all2 keeps hs hs'
        \<and> (\<forall>i. r = Inr (Some i) \<longrightarrow> i < length hs \<and> accepts (hs' ! i) p))"
      using Cons by simp
    then show ?thesis
      using r k True by (auto simp: wp elim!: ok_mono) (auto simp: map_sum_def split: sum.splits)
  next
    case False
    then show ?thesis
      using r k a rest by (cases r) auto
  qed
qed

lemma getHandler_exc_ok:
  assumes "minv m"
  shows "ok (getHandler_exc gbi p m) (\<lambda>(r, m'). minv m'
     \<and> (\<exists>hs. m' = m\<lparr>handlers := hs\<rparr> \<and> length hs = length (handlers m))
     \<and> (\<forall>i. r = Inr (Some i) \<longrightarrow> i < length (handlers m) \<and> accepts (handlers m' ! i) p))"
proof -
  obtain r hs where eq: "find_handler_exc gbi p (handlers m) = Some (r, hs)"
    and k: "list_all2 keeps (handlers m) hs"
    and a: "\<And>i. r = Inr (Some i) \<Longrightarrow> i < length (handlers m) \<and> accepts (hs ! i) p"
    using find_handler_exc_ok [OF minv_list_all [OF assms], of p] by (auto elim!: ok_pairE)
  have "length hs = length (handlers m)"
    using k by (simp add: list_all2_lengthD)
  then show ?thesis
    using eq a minv_handlers [OF assms k]
    by (auto simp: getHandler_exc_def wp intro!: exI [where x = hs])
qed

lemma collect_ids_exc_ok:
  "list_all hinv hs \<Longrightarrow> ok (collect_ids_exc gbi hs) (\<lambda>(r, l, hs'). list_all2 keeps hs hs')"
proof (induction hs)
  case Nil
  then show ?case by simp
next
  case (Cons h hs)
  obtain r h' where l: "th_getBlobIds gbi h = Some (r, h')" and k: "keeps h h'"
    using getBlobIds_law [of h] Cons.prems by (auto simp: keeps_def exc_wp elim!: ok_pairE)
  have "ok (collect_ids_exc gbi hs) (\<lambda>(r, l, hs'). list_all2 keeps hs hs')"
    using Cons by simp
  then show ?case
    using l k Cons.prems by (cases r) (auto simp: wp keeps_all_refl elim!: ok_mono)
qed

text \<open>Whether or not an \<open>expire\<close> throws, only stale sessions of the handler are gone.\<close>

lemma cleanUpStaleSessions_exc_ok:
  assumes m: "minv m" and i: "i < length (handlers m)"
  shows "ok (cleanUpStaleSessions_exc gbi i m) (\<lambda>(r, m'). minv m' \<and> same_config m m'
     \<and> (\<forall>s. only_expired m m' s)
     \<and> (\<forall>p. accepts (handlers m ! i) p \<longrightarrow> accepts (handlers m' ! i) p))"
proof (cases "openSessions m i")
  case None
  then show ?thesis
    using m by (simp add: cleanUpStaleSessions_exc_def only_expired_def)
next
  case (Some S)
  let ?ss = "sorted_list_of_set {s \<in> sessions_of_handler m i. stale (clock m 0) m s}"
  let ?m1 = "m\<lparr>clock := clock m \<circ> Suc\<rparr>"
  have expire: "ok (expire_sessions (tame gbi) i (take k ?ss) ?m1) (\<lambda>m'. minv m' \<and> same_config m m'
     \<and> (\<forall>s. only_expired m m' s)
     \<and> (\<forall>p. accepts (handlers m ! i) p \<longrightarrow> accepts (handlers m' ! i) p))" for k
  proof -
    have sub: "set (take k ?ss) \<subseteq> set ?ss"
      by (rule set_take_subset)
    have of: "set (take k ?ss) \<subseteq> sessions_of_handler ?m1 i"
      using sub by (auto simp: sessions_of_handler_def)
    have "ok (expire_sessions (tame gbi) i (take k ?ss) ?m1) (\<lambda>m'. minv m' \<and> same_config ?m1 m'
     \<and> clock m' = clock ?m1 \<and> next_session m' = next_session ?m1
     \<and> (\<forall>j. j \<noteq> i \<longrightarrow> handlers m' ! j = handlers ?m1 ! j)
     \<and> (\<forall>s. sessions m' s = sessions ?m1 s \<or> (s \<in> set (take k ?ss) \<and> sessions m' s = None))
     \<and> (\<forall>p. accepts (handlers ?m1 ! i) p \<longrightarrow> accepts (handlers m' ! i) p))"
      using i by (intro expire_sessions_ok minv_clock m of) simp_all
    then show ?thesis
      using sub by (auto simp: same_config_def only_expired_def elim!: ok_mono)
  qed
  have eq: "cleanUpStaleSessions_exc gbi i m = expire_sessions_exc gbi i ?ss ?m1"
    using Some cleanUpStaleSessions_exc_eq [OF mgr_inv_index [OF m], of gbi i] by simp
  show ?thesis
  proof (cases "expire_sessions_exc gbi i ?ss ?m1")
    case None
    then have "expire_sessions (tame gbi) i ?ss ?m1 = None"
      using expire_sessions_tame [of gbi i ?ss ?m1] by simp
    then show ?thesis
      using expire [of "length ?ss"] by simp
  next
    case (Some rm)
    then obtain k l where "expire_sessions (tame gbi) i (take k ?ss) ?m1 = Some ((snd rm)\<lparr>cerr := l\<rparr>)"
      using expire_sessions_tame [of gbi i ?ss ?m1] by (auto split: prod.splits)
    then show ?thesis
      using expire [of k] Some eq by (cases rm) (auto simp: same_config_def only_expired_def)
  qed
qed

text \<open>
  \<open>open\<close>: an exception from \<open>canHandleBlob\<close>, \<open>expire\<close> or \<open>open\<close> adds no session.
\<close>

lemma open_rest_calm:
  "do { (b, m) \<leftarrow> call_handler i (\<lambda>h. calm False (f h)) m;
        if \<not> b then Some ((False, Some s), m) else do { m \<leftarrow> g m; Some ((True, Some s), m) } } =
   calm (False, Some s) (proceed (call_handler i f m) (\<lambda>b m.
        if \<not> b then Some (Inr (False, Some s), m) else do { m \<leftarrow> g m; Some (Inr (True, Some s), m) }))"
proof (cases "call_handler i f m")
  case (Some rm)
  then show ?thesis
    by (cases rm; cases "fst rm"; cases "g (snd rm)") (auto simp: calm_call)
qed (simp add: calm_call)

lemma open_in_handler_exc_ok:
  assumes m: "minv m" and i: "i < length (handlers m)" and acc: "accepts (handlers m ! i) p"
    and fresh: "sessions m s = None" and f: "has_flag f read_or_write"
  shows "ok (proceed (cleanUpStaleSessions_exc gbi i m) (\<lambda>_ m.
      proceed (call_handler i (th_open gbi s f p) m) (\<lambda>b m.
        if \<not> b then Some (Inr (False, Some s), m)
        else do { m \<leftarrow> record_session i s f p m; Some (Inr (True, Some s), m) })))
    (\<lambda>(r, m'). minv m' \<and> same_config m m' \<and> (\<forall>so. r = Inr (True, so) \<longrightarrow> so \<noteq> None)
     \<and> (\<forall>s'. if r = Inr (True, Some s') then s' = s \<and> (\<exists>t. sessions m' s' =
            Some \<lparr>blobId = p, handler = Some i, flags = f, lastActionTime = t\<rparr>)
          else only_expired m m' s'))"
proof -
  obtain r m3 where cu: "cleanUpStaleSessions_exc gbi i m = Some (r, m3)" and m3: "minv m3"
    "same_config m m3" "accepts (handlers m3 ! i) p" and exp: "\<forall>s. only_expired m m3 s"
    using cleanUpStaleSessions_exc_ok [OF m i] acc by (auto elim!: ok_pairE)
  show ?thesis
  proof (cases r)
    case (Inl e)
    then show ?thesis using cu m3 exp by simp
  next
    case (Inr u)
    have fresh3: "sessions m3 s = None"
      using spec [OF exp, of s] fresh by (auto simp: only_expired_def)
    have i3: "i < length (handlers m3)"
      using i m3(2) by (simp add: same_config_def)
    have "ok (proceed (call_handler i (th_open gbi s f p) m3) (\<lambda>b m.
        if \<not> b then Some (Inr (False, Some s), m)
        else do { m \<leftarrow> record_session i s f p m; Some (Inr (True, Some s), m) }))
      (\<lambda>(r, m'). minv m' \<and> same_config m3 m' \<and> (\<forall>so. so \<noteq> Some s \<longrightarrow> r \<noteq> Inr (True, so)) \<and> sessions m' =
        (if r = Inr (True, Some s) then (sessions m3)(s \<mapsto>
           \<lparr>blobId = p, handler = Some i, flags = f, lastActionTime = clock m3 0\<rparr>) else sessions m3))"
      using open_call_ok [OF m3(1) i3 m3(3) fresh3 f]
      by (simp only: tame_sel open_rest_calm ok_calm)
         (auto elim!: ok_mono split: sum.splits)
    then obtain r' m' where eq: "proceed (call_handler i (th_open gbi s f p) m3) (\<lambda>b m.
        if \<not> b then Some (Inr (False, Some s), m)
        else do { m \<leftarrow> record_session i s f p m; Some (Inr (True, Some s), m) }) = Some (r', m')"
      and m': "minv m'" "same_config m3 m'" and r': "\<And>so. r' = Inr (True, so) \<Longrightarrow> so = Some s"
      and tab: "sessions m' = (if r' = Inr (True, Some s) then (sessions m3)(s \<mapsto>
         \<lparr>blobId = p, handler = Some i, flags = f, lastActionTime = clock m3 0\<rparr>) else sessions m3)"
      by (elim ok_pairE) blast
    have "if r' = Inr (True, Some s') then s' = s \<and> (\<exists>t. sessions m' s' =
            Some \<lparr>blobId = p, handler = Some i, flags = f, lastActionTime = t\<rparr>)
          else only_expired m m' s'" for s'
    proof (cases "r' = Inr (True, Some s')")
      case True
      then have "s' = s"
        using r' by blast
      then show ?thesis
        using True tab by simp
    next
      case False
      then show ?thesis
        using spec [OF exp, of s'] tab by (auto simp: only_expired_def)
    qed
    moreover have "so \<noteq> None" if "r' = Inr (True, so)" for so
      using r' that by blast
    ultimately show ?thesis
      using cu Inr eq m' same_config_trans [OF m3(2)] by simp
  qed
qed

lemma open_exc_ok:
  assumes m: "minv m"
  shows "ok (open_exc gbi f p q m) (\<lambda>(r, m'). minv m' \<and> same_config m m'
     \<and> (\<forall>so. r = Inr (True, so) \<longrightarrow> so \<noteq> None)
     \<and> (\<forall>s. if r = Inr (True, Some s)
          then sessions m s = None \<and> has_flag f read_or_write \<and> (\<exists>i t. sessions m' s =
            Some \<lparr>blobId = p, handler = Some i, flags = f, lastActionTime = t\<rparr>)
          else only_expired m m' s))"
proof -
  obtain r m1 hs where gh: "getHandler_exc gbi p m = Some (r, m1)" and m1: "minv m1"
    "m1 = m\<lparr>handlers := hs\<rparr>" "length hs = length (handlers m)"
    and r: "\<And>i. r = Inr (Some i) \<Longrightarrow> i < length (handlers m) \<and> accepts (handlers m1 ! i) p"
    using getHandler_exc_ok [OF m, of p] by (auto elim!: ok_pairE)
  obtain so m2 n where gs: "getSession q m1 = (so, m2)" and m2: "m2 = m1\<lparr>next_session := n\<rparr>"
    using getSession_frame [of q m1] by (cases "getSession q m1") blast
  have inv2: "minv m2"
    using m1(1) by (rule minv_cong) (simp_all add: m2)
  show ?thesis
  proof (cases "\<exists>i s. r = Inr (Some i) \<and> so = Some s \<and> has_flag f read_or_write")
    case False
    then show ?thesis
      using gh gs m1 inv2
      by (cases r) (auto simp: open_exc_def same_config_def only_expired_def m2 split: option.splits)
  next
    case True
    then obtain i s where c: "r = Inr (Some i)" "so = Some s" and f: "has_flag f read_or_write"
      by blast
    have fresh: "sessions m s = None"
      using getSession_fresh [of q m1 s m2] gs c m1 by simp
    have "only_expired m2 m' s' = only_expired m m' s'" for m' s'
      using stale_cong [of m2 s' m] by (simp add: only_expired_def m2 m1(2))
    then show ?thesis
      using open_in_handler_exc_ok [OF inv2, of i p s f] r [OF c(1)] c f gh gs fresh m1(3)
      apply (auto simp: open_exc_def m2 m1(2) same_config_def elim!: ok_mono split: if_splits)
      apply (fastforce)+ done
  qed
qed

text \<open>The other operations.\<close>

lemma statPath_exc_ok:
  assumes m: "minv m"
  shows "ok (statPath_exc gbi p mt m) (\<lambda>(r, m'). minv m' \<and> same_config m m'
     \<and> sessions m' = sessions m \<and> (\<forall>mt'. r = Inr (True, mt') \<longrightarrow> meta_defined mt'))"
proof -
  obtain r m1 hs where gh: "getHandler_exc gbi p m = Some (r, m1)" and m1: "minv m1"
    "m1 = m\<lparr>handlers := hs\<rparr>" "length hs = length (handlers m)"
    and r: "\<And>i. r = Inr (Some i) \<Longrightarrow> i < length (handlers m) \<and> accepts (handlers m1 ! i) p"
    using getHandler_exc_ok [OF m, of p] by (auto elim!: ok_pairE)
  show ?thesis
  proof (cases "\<exists>i. r = Inr (Some i)")
    case False
    then show ?thesis
      using gh m1 by (cases r) (auto simp: statPath_exc_def same_config_def split: option.split)
  next
    case True
    then obtain i where i: "r = Inr (Some i)" "i < length (handlers m1)"
      using r m1 by auto
    have "ok (call_handler i (\<lambda>h. calm (False, mt) (th_statPath gbi p mt h)) m1) (\<lambda>(r, m'). minv m' \<and>
        (\<exists>h'. m' = m1\<lparr>handlers := (handlers m1)[i := h']\<rparr>) \<and> (fst r \<longrightarrow> meta_defined (snd r)))"
      using statPath_law [OF mgr_inv_hinv [OF m1(1) i(2)], of p mt] r [OF i(1)]
      by (intro call_ok m1(1) i) (auto elim!: ok_mono)
    then show ?thesis
      using gh i m1 by (auto simp: statPath_exc_def calm_call ok_calm same_config_def elim!: ok_mono)
  qed
qed

lemma deleteBlob_exc_ok:
  assumes m: "minv m"
  shows "ok (deleteBlob_exc gbi p m) (\<lambda>(r, m'). minv m' \<and> same_config m m'
     \<and> sessions m' = sessions m \<and> (r = Inr True \<longrightarrow> sessions_on m p = {}))"
proof -
  obtain r m1 hs where gh: "getHandler_exc gbi p m = Some (r, m1)" and m1: "minv m1"
    "m1 = m\<lparr>handlers := hs\<rparr>" "length hs = length (handlers m)"
    and r: "\<And>i. r = Inr (Some i) \<Longrightarrow> i < length (handlers m) \<and> accepts (handlers m1 ! i) p"
    using getHandler_exc_ok [OF m, of p] by (auto elim!: ok_pairE)
  let ?m2 = "m1\<lparr>openFiles := (openFiles m1)(p \<mapsto> file_count m1 p)\<rparr>"
  have inv2: "minv ?m2"
    by (rule minv_openFiles_zero [OF m1(1)])
  show ?thesis
  proof (cases "\<exists>i. r = Inr (Some i) \<and> file_count m1 p \<le> 0")
    case False
    then show ?thesis
      using gh m1 inv2
      by (cases r) (auto simp: deleteBlob_exc_def same_config_def Let_def split: option.splits)
  next
    case True
    then obtain i where c: "r = Inr (Some i)" and z: "file_count m1 p \<le> 0"
      by blast
    have empty: "sessions_on m1 p = {}"
      using z mgr_inv_index [OF m1(1)] by (simp add: index_inv_def)
    then have gone: "sessions_on m p = {}"
      by (simp add: m1(2) sessions_on_def)
    have i: "i < length (handlers ?m2)"
      using r [OF c] m1 by simp
    have "live (handlers ?m2 ! i) s \<noteq> Some (p, f)" for s f
      using mgr_inv_live [OF inv2 i] empty by (auto simp: sess_of_Some sessions_on_def)
    then have "ok (call_handler i (\<lambda>h. calm False (th_deleteBlob gbi p h)) ?m2) (\<lambda>(r, m'). minv m' \<and>
        (\<exists>h'. m' = ?m2\<lparr>handlers := (handlers ?m2)[i := h']\<rparr>) \<and> True)"
      using deleteBlob_law [OF mgr_inv_hinv [OF inv2 i], of p] r [OF c]
      by (intro call_ok inv2 i) auto
    then show ?thesis
      using gh c m1 z gone
      by (auto simp: deleteBlob_exc_def calm_call ok_calm same_config_def Let_def elim!: ok_mono)
  qed
qed

lemma session_calls_exc_ok:
  assumes "minv m"
  shows "ok (stat_exc gbi s mt m) (\<lambda>(r, m'). minv m' \<and> (\<forall>mt'. r = Inr (True, mt') \<longrightarrow> meta_defined mt'))"
    "ok (commit_exc gbi s d m) (\<lambda>(r, m'). minv m')"
    "ok (close_exc gbi s m) (\<lambda>(r, m'). minv m')" "ok (read_exc gbi s off n m) (\<lambda>(r, m'). minv m')"
    "ok (write_exc gbi s off d m) (\<lambda>(r, m'). minv m')"
    "ok (writeMeta_exc gbi s off d m) (\<lambda>(r, m'). minv m')"
  using BlobManager_stat_ok [OF assms, of s mt] BlobManager_commit_ok [OF assms, of s d]
    BlobManager_close_ok [OF assms, of s] BlobManager_read_ok [OF assms, of s off n]
    BlobManager_write_ok [OF assms, of s off d] BlobManager_writeMeta_ok [OF assms, of s off d]
  by (auto simp: session_calls_calm close_calm ok_calm elim!: ok_mono)

lemma buildBlobList_exc_ok:
  assumes m: "minv m"
  shows "ok (buildBlobList_exc gbi m) (\<lambda>(r, m'). minv m' \<and> sessions m' = sessions m)"
proof -
  obtain r l hs where eq: "collect_ids_exc gbi (handlers m) = Some (r, l, hs)"
    and k: "list_all2 keeps (handlers m) hs"
    using collect_ids_exc_ok [OF minv_list_all [OF m]] by (auto simp: ok_iff)
  have "minv (m\<lparr>ids := l, handlers := hs\<rparr>)"
    using minv_handlers [OF m k] by (rule minv_cong) simp_all
  then show ?thesis
    using eq by (cases r) (simp_all add: buildBlobList_exc_def)
qed

lemma step_exc_ok: "minv m \<Longrightarrow> ok (step_exc gbi c m) (\<lambda>(r, m'). minv m')"
  by (cases c) (auto simp: ok_as_outcome intro!: ok_mono [OF buildBlobList_exc_ok]
      ok_mono [OF open_exc_ok] ok_mono [OF statPath_exc_ok] ok_mono [OF deleteBlob_exc_ok]
      ok_mono [OF session_calls_exc_ok(1)] ok_mono [OF session_calls_exc_ok(2)]
      ok_mono [OF session_calls_exc_ok(3)] ok_mono [OF session_calls_exc_ok(4)]
      ok_mono [OF session_calls_exc_ok(5)] ok_mono [OF session_calls_exc_ok(6)])

lemma run_exc_ok:
  "minv m \<Longrightarrow> ok (run_exc gbi cs m) (\<lambda>(rs, m'). minv m' \<and> length rs = length cs)"
proof (induction cs arbitrary: m)
  case Nil
  then show ?case by simp
next
  case (Cons c cs)
  show ?case
    using step_exc_ok [OF Cons.prems, of c] Cons.IH by (fastforce simp: wp elim!: ok_mono)
qed

end

section \<open>Handlers that do not throw\<close>

definition lifted :: "'h GenericBlobInterface \<Rightarrow> 'h ThrowingInterface" where
  "lifted gbi =
     \<lparr>th_canHandleBlob = (\<lambda>p h. map_option (apfst Inr) (gbi_canHandleBlob gbi p h)),
      th_getBlobIds = (\<lambda>h. map_option (apfst Inr) (gbi_getBlobIds gbi h)),
      th_deleteBlob = (\<lambda>p h. map_option (apfst Inr) (gbi_deleteBlob gbi p h)),
      th_statPath = (\<lambda>p mt h. map_option (apfst Inr) (gbi_statPath gbi p mt h)),
      th_open = (\<lambda>s f p h. map_option (apfst Inr) (gbi_open gbi s f p h)),
      th_read = (\<lambda>s off n h. map_option (apfst Inr) (gbi_read gbi s off n h)),
      th_write = (\<lambda>s off d h. map_option (apfst Inr) (gbi_write gbi s off d h)),
      th_writeMeta = (\<lambda>s off d h. map_option (apfst Inr) (gbi_writeMeta gbi s off d h)),
      th_commit = (\<lambda>s d h. map_option (apfst Inr) (gbi_commit gbi s d h)),
      th_close = (\<lambda>s h. map_option (apfst Inr) (gbi_close gbi s h)),
      th_stat = (\<lambda>s mt h. map_option (apfst Inr) (gbi_stat gbi s mt h)),
      th_expire = (\<lambda>s h. map_option (apfst Inr) (gbi_expire gbi s h))\<rparr>"

lemma lifted_sel [simp]:
  "th_canHandleBlob (lifted gbi) p h = map_option (apfst Inr) (gbi_canHandleBlob gbi p h)"
  "th_getBlobIds (lifted gbi) h = map_option (apfst Inr) (gbi_getBlobIds gbi h)"
  "th_deleteBlob (lifted gbi) p = (\<lambda>h. map_option (apfst Inr) (gbi_deleteBlob gbi p h))"
  "th_statPath (lifted gbi) p mt = (\<lambda>h. map_option (apfst Inr) (gbi_statPath gbi p mt h))"
  "th_open (lifted gbi) s f p = (\<lambda>h. map_option (apfst Inr) (gbi_open gbi s f p h))"
  "th_read (lifted gbi) s off n = (\<lambda>h. map_option (apfst Inr) (gbi_read gbi s off n h))"
  "th_write (lifted gbi) s off d = (\<lambda>h. map_option (apfst Inr) (gbi_write gbi s off d h))"
  "th_writeMeta (lifted gbi) s off d = (\<lambda>h. map_option (apfst Inr) (gbi_writeMeta gbi s off d h))"
  "th_commit (lifted gbi) s d = (\<lambda>h. map_option (apfst Inr) (gbi_commit gbi s d h))"
  "th_close (lifted gbi) s = (\<lambda>h. map_option (apfst Inr) (gbi_close gbi s h))"
  "th_stat (lifted gbi) s mt = (\<lambda>h. map_option (apfst Inr) (gbi_stat gbi s mt h))"
  "th_expire (lifted gbi) s = (\<lambda>h. map_option (apfst Inr) (gbi_expire gbi s h))"
  by (simp_all add: lifted_def)

lemma calm_Inr [simp]: "calm d (map_option (apfst Inr) x) = x"
  by (cases x) (auto simp: calm_def)

lemma tame_lifted: "tame (lifted gbi) = gbi"
  by (cases gbi) (simp add: tame_def lifted_def)

lemma throwing_lifted: "blob_handler gbi hinv live accepts \<Longrightarrow> throwing_handler (lifted gbi) hinv live accepts"
  by (simp add: throwing_handler_def tame_lifted)

interpretation example_exc: throwing_handler "lifted ExampleBlobHandler_methods" example_inv
  example_live example_accepts
  by (rule throwing_lifted [OF example.blob_handler_axioms])

text \<open>\<open>x\<close> is \<open>y\<close>, returning normally.\<close>

definition returns :: "('a outcome \<times> 's) option \<Rightarrow> ('a \<times> 's) option \<Rightarrow> bool" where
  "returns x y \<longleftrightarrow> x = map_option (apfst Inr) y"

definition returns_unit :: "(unit outcome \<times> 's) option \<Rightarrow> 's option \<Rightarrow> bool" where
  "returns_unit x y \<longleftrightarrow> x = map_option (\<lambda>m. (Inr (), m)) y"

lemma returns_Some: "returns (Some (Inr r, m)) (Some (r, m))"
  by (simp add: returns_def)

lemma returns_proceed:
  "returns x y \<Longrightarrow> (\<And>r m. returns (f r m) (g r m)) \<Longrightarrow> returns (proceed x f) (y \<bind> (\<lambda>(r, m). g r m))"
  by (cases y) (auto simp: returns_def)

lemma returns_proceed_unit:
  "returns_unit x y \<Longrightarrow> (\<And>m. returns (f () m) (g m)) \<Longrightarrow> returns (proceed x f) (y \<bind> g)"
  by (cases y) (auto simp: returns_def returns_unit_def)

lemma returns_bind: "(\<And>a. returns (f a) (g a)) \<Longrightarrow> returns (x \<bind> f) (x \<bind> g)"
  by (cases x) (simp_all add: returns_def)

lemma returns_bind_pair:
  "(\<And>r m. returns (f r m) (g r m)) \<Longrightarrow> returns (x \<bind> (\<lambda>(r, m). f r m)) (x \<bind> (\<lambda>(r, m). g r m))"
  by (cases x) (auto simp: returns_def)

lemma returns_option:
  "returns x y \<Longrightarrow> (\<And>a. returns (f a) (g a)) \<Longrightarrow>
   returns (case c of None \<Rightarrow> x | Some a \<Rightarrow> f a) (case c of None \<Rightarrow> y | Some a \<Rightarrow> g a)"
  by (cases c) simp_all

lemma returns_if:
  "returns x y \<Longrightarrow> returns x' y' \<Longrightarrow> returns (if c then x else x') (if c then y else y')"
  by simp

lemma returns_call: "returns (call_handler i (\<lambda>h. map_option (apfst Inr) (f h)) m) (call_handler i f m)"
  by (cases "f (handlers m ! i)") (auto simp: returns_def call_handler_def)

lemma returns_getHandler: "returns (getHandler_exc (lifted gbi) p m) (getHandler gbi p m)"
proof -
  have "find_handler_exc (lifted gbi) p hs = map_option (apfst Inr) (find_handler gbi p hs)" for hs
  proof (induction hs)
    case (Cons h hs)
    then show ?case
      by (cases "gbi_canHandleBlob gbi p h"; cases "find_handler gbi p hs") auto
  qed simp
  then show ?thesis
    by (cases "find_handler gbi p (handlers m)") (auto simp: returns_def getHandler_exc_def getHandler_def)
qed

lemma returns_expire:
  "returns_unit (expire_sessions_exc (lifted gbi) i ss m) (expire_sessions gbi i ss m)"
proof (induction ss arbitrary: m)
  case Nil
  then show ?case by (simp add: returns_unit_def)
next
  case (Cons s ss)
  let ?r = "report (ExpiringStaleSession s) m"
  have call: "call_handler i (\<lambda>h. map_option (apfst Inr) (gbi_expire gbi s h)) ?r =
      (map_option (apfst Inr) (call_handler i (gbi_expire gbi s) ?r) :: (bool outcome \<times> 'a BlobManager) option)"
    using returns_call [of i "gbi_expire gbi s" ?r] by (simp add: returns_def)
  show ?case
  proof (cases "call_handler i (gbi_expire gbi s) ?r")
    case (Some bm)
    obtain b m1 where bm: "bm = (b, m1)" by fastforce
    show ?thesis
      using Some call Cons.IH
      by (cases b; cases "eraseSession i s m1") (simp_all add: bm returns_unit_def)
  qed (use call in \<open>simp add: returns_unit_def\<close>)
qed

lemma returns_cleanUp:
  "returns_unit (cleanUpStaleSessions_exc (lifted gbi) i m) (cleanUpStaleSessions gbi i m)"
  using returns_expire
  by (auto simp: cleanUpStaleSessions_exc_def cleanUpStaleSessions_def split_def Let_def returns_unit_def
      split: option.split)

lemma returns_buildBlobList: "returns (buildBlobList_exc (lifted gbi) m) (buildBlobList gbi m)"
proof -
  have "collect_ids_exc (lifted gbi) hs = map_option (\<lambda>(l, hs). (Inr (), l, hs)) (collect_ids gbi hs)" for hs
  proof (induction hs)
    case (Cons h hs)
    then show ?case
      by (cases "gbi_getBlobIds gbi h"; cases "collect_ids gbi hs") auto
  qed simp
  then show ?thesis
    by (cases "collect_ids gbi (handlers m)")
       (auto simp: returns_def buildBlobList_exc_def buildBlobList_def)
qed

lemma returns_open: "returns (open_exc (lifted gbi) f p q m) (BlobManager_open gbi f p q m)"
proof -
  have "returns (case getSession q m of
        (None, m) \<Rightarrow> Some (Inr (False, None), m)
      | (Some s, m) \<Rightarrow>
          if \<not> has_flag f read_or_write then Some (Inr (False, Some s), m)
          else proceed (cleanUpStaleSessions_exc (lifted gbi) i m) (\<lambda>_ m.
                 proceed (call_handler i (th_open (lifted gbi) s f p) m) (\<lambda>b m.
                   if \<not> b then Some (Inr (False, Some s), m)
                   else do { m \<leftarrow> record_session i s f p m; Some (Inr (True, Some s), m) })))
      (case getSession q m of
        (None, m) \<Rightarrow> Some ((False, None), m)
      | (Some s, m) \<Rightarrow>
          if \<not> has_flag f read_or_write then Some ((False, Some s), m)
          else do { m \<leftarrow> cleanUpStaleSessions gbi i m;
                    (b, m) \<leftarrow> call_handler i (gbi_open gbi s f p) m;
                    if \<not> b then Some ((False, Some s), m)
                    else do { m \<leftarrow> record_session i s f p m; Some ((True, Some s), m) } })" for i m
    unfolding lifted_sel
    by (cases "getSession q m"; cases "fst (getSession q m)")
       (auto intro!: returns_Some returns_proceed_unit returns_cleanUp returns_proceed returns_call
          returns_bind)
  then show ?thesis
    unfolding open_exc_def BlobManager_open_def
    by (intro returns_proceed returns_getHandler returns_option returns_Some)
qed

lemma returns_session_call:
  "returns
     (do { (found, m) \<leftarrow> getActionHandler s req m;
           case found of None \<Rightarrow> Some (Inr d, m)
             | Some hp \<Rightarrow> call_handler hp (\<lambda>h. map_option (apfst Inr) (f h)) m })
     (do { (found, m) \<leftarrow> getActionHandler s req m;
           case found of None \<Rightarrow> Some (d, m) | Some hp \<Rightarrow> call_handler hp f m })"
  by (intro returns_bind_pair returns_option returns_Some returns_call)

lemma returns_close: "returns (close_exc (lifted gbi) s m) (BlobManager_close gbi s m)"
  unfolding close_exc_def BlobManager_close_def lifted_sel
  by (intro returns_bind_pair returns_option returns_Some returns_proceed returns_call returns_if returns_bind)

lemma returns_path_calls:
  "returns (statPath_exc (lifted gbi) p mt m) (BlobManager_statPath gbi p mt m)"
  "returns (deleteBlob_exc (lifted gbi) p m) (BlobManager_deleteBlob gbi p m)"
  unfolding statPath_exc_def BlobManager_statPath_def deleteBlob_exc_def BlobManager_deleteBlob_def
    lifted_sel Let_def
  by (intro returns_proceed returns_getHandler returns_option returns_Some returns_call returns_if)+

lemma returns_session_calls:
  "returns (stat_exc (lifted gbi) s mt m) (BlobManager_stat gbi s mt m)"
  "returns (commit_exc (lifted gbi) s d m) (BlobManager_commit gbi s d m)"
  "returns (read_exc (lifted gbi) s off n m) (BlobManager_read gbi s off n m)"
  "returns (write_exc (lifted gbi) s off d m) (BlobManager_write gbi s off d m)"
  "returns (writeMeta_exc (lifted gbi) s off d m) (BlobManager_writeMeta gbi s off d m)"
  unfolding stat_exc_def BlobManager_stat_def commit_exc_def BlobManager_commit_def
    read_exc_def BlobManager_read_def write_exc_def BlobManager_write_def
    writeMeta_exc_def BlobManager_writeMeta_def lifted_sel
  by (rule returns_session_call)+

lemma returns_as_outcome: "returns x y \<Longrightarrow> returns (as_outcome c x) (as_result c y)"
  by (cases y) (auto simp: returns_def as_outcome_def as_result_def)

lemma returns_step: "returns (step_exc (lifted gbi) c m) (mgr_step (BlobManager_methods gbi) c m)"
proof (cases c)
  case (CallGetBlobId i)
  then show ?thesis by (simp add: as_result_def returns_def)
qed (auto intro!: returns_as_outcome returns_buildBlobList returns_open returns_close
    returns_path_calls returns_session_calls)

lemma returns_run:
  "run_exc (lifted gbi) cs m = map_option (apfst (map Inr)) (mgr_run (BlobManager_methods gbi) cs m)"
proof (induction cs arbitrary: m)
  case (Cons c cs)
  have step: "step_exc (lifted gbi) c m = map_option (apfst Inr) (mgr_step (BlobManager_methods gbi) c m)"
    using returns_step [of gbi c m] by (simp add: returns_def)
  show ?case
  proof (cases "mgr_step (BlobManager_methods gbi) c m")
    case (Some rm)
    then show ?thesis
      using step Cons.IH
      by (cases rm; cases "mgr_run (BlobManager_methods gbi) cs (snd rm)") auto
  qed (simp add: step)
qed simp

end
