(* ===== verification/Exceptions_Daemon.thy ===== *)
theory Exceptions_Daemon
  imports Exceptions Simulation
begin

unbundle bit_operations_syntax

text \<open>
  The daemon over handlers that throw. A command handler of \<^verbatim>\<open>ipmi.cpp\<close> calls the manager
  at most once, and nothing after that call changes the manager; so an exception out of
  the call abandons the reply and leaves the manager as the call did. \<open>Throwing_methods\<close>
  hands the command handlers a refusal together with the exception that is pending, and
  \<open>handleBlobCommand_exc\<close> lets the exception out instead of the reply.

  The manager with exceptions satisfies \<open>manager_interface\<close> as the one without does, so the
  safety of the command handlers and of the routing applies to it; over handlers that do not
  throw it is tracked by the one without, so the replies are the same.
\<close>

section \<open>The manager as an implementation of the interface\<close>

definition pending :: "'r \<Rightarrow> ('r outcome \<times> 'm) option \<Rightarrow> ('r \<times> 'm \<times> string option) option" where
  "pending d x = map_option
     (\<lambda>(r, m). case r of Inl e \<Rightarrow> (d, m, Some e) | Inr a \<Rightarrow> (a, m, None)) x"

definition Throwing_methods ::
    "'h ThrowingInterface \<Rightarrow> ('h, 'h BlobManager \<times> string option) ManagerInterface" where
  "Throwing_methods gbi =
     \<lparr>mi_registerHandler = (\<lambda>h (m, e). Some (fst (registerHandler h m), snd (registerHandler h m), None)),
      mi_buildBlobList = (\<lambda>(m, e). pending 0 (buildBlobList_exc gbi m)),
      mi_getBlobId = (\<lambda>index (m, e). Some (getBlobId index m, m, None)),
      mi_open = (\<lambda>fl p q (m, e). pending (False, None) (open_exc gbi fl p q m)),
      mi_statPath = (\<lambda>p mt (m, e). pending (False, mt) (statPath_exc gbi p mt m)),
      mi_stat = (\<lambda>s mt (m, e). pending (False, mt) (stat_exc gbi s mt m)),
      mi_commit = (\<lambda>s d (m, e). pending False (commit_exc gbi s d m)),
      mi_close = (\<lambda>s (m, e). pending False (close_exc gbi s m)),
      mi_read = (\<lambda>s off n (m, e). pending [] (read_exc gbi s off n m)),
      mi_write = (\<lambda>s off d (m, e). pending False (write_exc gbi s off d m)),
      mi_deleteBlob = (\<lambda>p (m, e). pending False (deleteBlob_exc gbi p m)),
      mi_writeMeta = (\<lambda>s off d (m, e). pending False (writeMeta_exc gbi s off d m))\<rparr>"

lemma Throwing_methods_sel [simp]:
  "mi_registerHandler (Throwing_methods gbi) h (m, e) =
     Some (fst (registerHandler h m), snd (registerHandler h m), None)"
  "mi_buildBlobList (Throwing_methods gbi) (m, e) = pending 0 (buildBlobList_exc gbi m)"
  "mi_getBlobId (Throwing_methods gbi) index (m, e) = Some (getBlobId index m, m, None)"
  "mi_open (Throwing_methods gbi) fl p q (m, e) = pending (False, None) (open_exc gbi fl p q m)"
  "mi_statPath (Throwing_methods gbi) p mt (m, e) = pending (False, mt) (statPath_exc gbi p mt m)"
  "mi_stat (Throwing_methods gbi) s mt (m, e) = pending (False, mt) (stat_exc gbi s mt m)"
  "mi_commit (Throwing_methods gbi) s d (m, e) = pending False (commit_exc gbi s d m)"
  "mi_close (Throwing_methods gbi) s (m, e) = pending False (close_exc gbi s m)"
  "mi_read (Throwing_methods gbi) s off n (m, e) = pending [] (read_exc gbi s off n m)"
  "mi_write (Throwing_methods gbi) s off d (m, e) = pending False (write_exc gbi s off d m)"
  "mi_deleteBlob (Throwing_methods gbi) p (m, e) = pending False (deleteBlob_exc gbi p m)"
  "mi_writeMeta (Throwing_methods gbi) s off d (m, e) = pending False (writeMeta_exc gbi s off d m)"
  by (simp_all add: Throwing_methods_def)

lemma ok_pending: "ok (pending d x) Q \<longleftrightarrow>
    ok x (\<lambda>(r, m). case r of Inl e \<Rightarrow> Q (d, m, Some e) | Inr a \<Rightarrow> Q (a, m, None))"
  by (cases x) (auto simp: pending_def split: sum.split)

section \<open>Requests\<close>

definition handleBlobCommand_exc ::
    "(bytes \<Rightarrow> u16) \<Rightarrow> 'h ThrowingInterface \<Rightarrow> int \<Rightarrow> (nat \<Rightarrow> time) \<Rightarrow> byte \<Rightarrow> bytes \<Rightarrow> nat
       \<Rightarrow> 'h BlobManager option \<Rightarrow> (resp outcome \<times> 'h BlobManager option) option" where
  "handleBlobCommand_exc crc gbi t clk cmd d maxSize manager =
     do { f \<leftarrow> validateBlobCommand crc cmd d;
          (r, m, e) \<leftarrow> processBlobCommand crc f (Throwing_methods gbi) d maxSize
            (getBlobManager t clk manager, None);
          Some (case e of None \<Rightarrow> Inr r | Some e \<Rightarrow> Inl e, Some m) }"

text \<open>A sequence of requests: an exception ends its request only.\<close>

fun serve_exc ::
    "(bytes \<Rightarrow> u16) \<Rightarrow> 'h ThrowingInterface \<Rightarrow> ('c \<Rightarrow> nat) \<Rightarrow> int \<Rightarrow> (nat \<Rightarrow> time) \<Rightarrow> 'c request list
       \<Rightarrow> 'h BlobManager option \<Rightarrow> (resp outcome list \<times> 'h BlobManager option) option" where
  "serve_exc crc gbi maxTransfer t clk [] manager = Some ([], manager)"
| "serve_exc crc gbi maxTransfer t clk (q # qs) manager =
     do { (r, manager) \<leftarrow> handleBlobCommand_exc crc gbi t clk (req_cmd q) (req_data q)
            (maxTransfer (req_channel q)) manager;
          (rs, manager) \<leftarrow> serve_exc crc gbi maxTransfer t clk qs manager;
          Some (r # rs, manager) }"

section \<open>Safety\<close>

definition wf_outcome :: "resp outcome \<Rightarrow> bool" where
  "wf_outcome r \<longleftrightarrow> (case r of Inl e \<Rightarrow> True | Inr r \<Rightarrow> wf_resp r)"

sublocale throwing_handler \<subseteq> throwing_manager: manager_interface
  "Throwing_methods gbi" "\<lambda>me. mgr_inv hinv live (fst me)" "\<lambda>h. hinv h \<and> live h = Map.empty"
proof unfold_locales
  fix me :: "'h BlobManager \<times> string option" and ho
  assume "minv (fst me)" and "\<And>h. ho = Some h \<Longrightarrow> hinv h \<and> live h = Map.empty"
  then show "ok (mi_registerHandler (Throwing_methods gbi) ho me)
      (\<lambda>(b, me'). minv (fst me') \<and> (b \<longleftrightarrow> ho \<noteq> None))"
    by (cases me) (auto simp: registerHandler_def registerHandler_inv split: option.split)
next
  fix me :: "'h BlobManager \<times> string option" and f p q
  assume "minv (fst me)"
  then show "ok (mi_open (Throwing_methods gbi) f p q me)
      (\<lambda>((b, s), me'). minv (fst me') \<and> (b \<longrightarrow> s \<noteq> None))"
    using open_exc_ok [of "fst me" f p q]
    by (cases me) (auto simp: ok_pending elim!: ok_mono split: sum.split)
next
  fix me :: "'h BlobManager \<times> string option" and p mt
  assume "minv (fst me)"
  then show "ok (mi_statPath (Throwing_methods gbi) p mt me)
      (\<lambda>((b, mt'), me'). minv (fst me') \<and> (b \<longrightarrow> meta_defined mt'))"
    using statPath_exc_ok [of "fst me" p mt]
    by (cases me) (auto simp: ok_pending elim!: ok_mono split: sum.split)
next
  fix me :: "'h BlobManager \<times> string option" and s mt
  assume "minv (fst me)"
  then show "ok (mi_stat (Throwing_methods gbi) s mt me)
      (\<lambda>((b, mt'), me'). minv (fst me') \<and> (b \<longrightarrow> meta_defined mt'))"
    using session_calls_exc_ok(1) [of "fst me" s mt]
    by (cases me) (auto simp: ok_pending elim!: ok_mono split: sum.split)
qed (auto simp: ok_pending split: sum.split intro!: ok_mono [OF buildBlobList_exc_ok]
    ok_mono [OF deleteBlob_exc_ok] ok_mono [OF session_calls_exc_ok(2)]
    ok_mono [OF session_calls_exc_ok(3)] ok_mono [OF session_calls_exc_ok(4)]
    ok_mono [OF session_calls_exc_ok(5)] ok_mono [OF session_calls_exc_ok(6)])

context throwing_handler
begin

lemma handleBlobCommand_exc_safe:
  assumes "static_inv hinv live g"
  shows "ok (handleBlobCommand_exc crc gbi t clk cmd d maxSize g)
    (\<lambda>(r, g'). static_inv hinv live g' \<and> wf_outcome r)"
proof -
  let ?me = "(getBlobManager t clk g, None)"
  have inv: "minv (fst ?me)"
    using getBlobManager_inv [OF assms] by simp
  obtain f where f: "validateBlobCommand crc cmd d = Some f"
    and safe: "ok (f (Throwing_methods gbi) d ?me) (\<lambda>(r, me). minv (fst me) \<and> wf_resp r)"
    using throwing_manager.validated_safe [OF inv, of crc cmd d] by (auto elim!: okE)
  show ?thesis
    using f throwing_manager.processBlobCommand_safe [of f d ?me crc maxSize, OF safe]
    by (auto simp: handleBlobCommand_exc_def wf_outcome_def wp elim!: ok_mono split: option.split)
qed

lemma serve_exc_safe:
  "static_inv hinv live g \<Longrightarrow> ok (serve_exc crc gbi maxTransfer t clk qs g)
     (\<lambda>(rs, g'). static_inv hinv live g' \<and> length rs = length qs \<and> list_all wf_outcome rs)"
proof (induction qs arbitrary: g)
  case Nil
  then show ?case by simp
next
  case (Cons q qs)
  show ?case
    using handleBlobCommand_exc_safe [OF Cons.prems] Cons.IH
    by (fastforce simp: wp elim!: ok_mono)
qed

end

section \<open>Without exceptions\<close>

lemma returns_tracks:
  "returns x y \<Longrightarrow> tracks (\<lambda>_. True) (\<lambda>m. (m, None)) y (pending d x)"
  by (cases y) (auto simp: returns_def tracks_def pending_def)

interpretation lifted_simulation: manager_simulation
  "BlobManager_methods gbi" "Throwing_methods (lifted gbi)" "\<lambda>_. True" "\<lambda>m. (m, None)" for gbi
  by unfold_locales
    (simp_all add: returns_tracks returns_buildBlobList returns_open returns_close returns_path_calls
      returns_session_calls tracks_Some)

lemma handle_lifted:
  assumes "handleBlobCommand crc gbi t clk cmd d maxSize g = Some (r, g')"
  shows "handleBlobCommand_exc crc (lifted gbi) t clk cmd d maxSize g = Some (Inr r, g')"
proof -
  obtain m' where x: "do { f \<leftarrow> validateBlobCommand crc cmd d;
      processBlobCommand crc f (BlobManager_methods gbi) d maxSize (getBlobManager t clk g) } = Some (r, m')"
    and g': "g' = Some m'"
    using assms by (auto simp: handleBlobCommand_def bind_eq_Some_conv)
  have "do { f \<leftarrow> validateBlobCommand crc cmd d;
      processBlobCommand crc f (Throwing_methods (lifted gbi)) d maxSize (getBlobManager t clk g, None) } =
      Some (r, m', None)"
    using tracks_SomeD [OF lifted_simulation.request_tracks x] by simp
  then show ?thesis
    by (cases r) (auto simp: handleBlobCommand_exc_def bind_eq_Some_conv g')
qed

lemma serve_lifted:
  "serve crc gbi maxTransfer t clk qs g = Some (rs, g') \<Longrightarrow>
   serve_exc crc (lifted gbi) maxTransfer t clk qs g = Some (map Inr rs, g')"
proof (induction qs arbitrary: g rs)
  case Nil
  then show ?case by simp
next
  case (Cons q qs)
  then show ?case
    by (fastforce simp: oem_handler_def bind_eq_Some_conv dest: handle_lifted)
qed

end
