(* ===== verification/Exceptions_Props.thy ===== *)
theory Exceptions_Props
  imports Exceptions_Daemon Manager_Props Ipmi_Props
begin

unbundle bit_operations_syntax

text \<open>
  What the manager guarantees when handlers throw: its invariant survives any sequence of
  calls with exceptions in any of them; an exception adds no session and takes none away
  but stale ones.

  The witnesses use \<open>faulty_methods\<close>, the example handler with an \<open>open\<close>, \<open>close\<close>,
  \<open>commit\<close>, \<open>expire\<close> and \<open>getBlobIds\<close> that throw.
\<close>

definition faulty_methods :: "ExampleBlobHandler ThrowingInterface" where
  "faulty_methods = (lifted ExampleBlobHandler_methods)
     \<lparr>th_getBlobIds := (\<lambda>h. Some (Inl ''ids'', h)),
      th_open := (\<lambda>s f p h. Some (Inl ''open'', h)),
      th_commit := (\<lambda>s d h. Some (Inl ''commit'', h)),
      th_close := (\<lambda>s h. Some (Inl ''close'', h)),
      th_expire := (\<lambda>s h. Some (Inl ''expire'', h))\<rparr>"

lemma tame_faulty:
  "tame faulty_methods = ExampleBlobHandler_methods
     \<lparr>gbi_getBlobIds := (\<lambda>h. Some ([], h)), gbi_open := (\<lambda>s f p h. Some (False, h)),
      gbi_commit := (\<lambda>s d h. Some (False, h)), gbi_close := (\<lambda>s h. Some (False, h)),
      gbi_expire := (\<lambda>s h. Some (False, h))\<rparr>"
  by (simp add: tame_def faulty_methods_def lifted_def ExampleBlobHandler_methods_def)

interpretation faulty: throwing_handler faulty_methods example_inv example_live example_accepts
  unfolding throwing_handler_def tame_faulty
proof unfold_locales
qed (simp_all del: ExampleBlobHandler_methods_sel add: example.canHandleBlob_law
    example.deleteBlob_law example.statPath_law example.read_law example.write_law
    example.writeMeta_law example.stat_law)

section \<open>Exception safety\<close>

text \<open>
  C11: No exception of a handler can bring the daemon down. Take any handlers that may throw in
  any of their methods, as long as one that throws has the sessions it had before the call.
  Any sequence of requests, however malformed, is served without undefined behaviour; each
  request ends in a well-formed reply or in an exception; and the invariant holds throughout,
  so the maps of the manager agree with each other and with the handlers.
\<close>

theorem daemon_survives_exceptions:
  assumes "blob_handler (tame gbi) hinv live accepts" and "static_inv hinv live g"
  shows "\<exists>rs g'. serve_exc crc gbi maxTransfer t clk qs g = Some (rs, g')
    \<and> length rs = length qs \<and> list_all wf_outcome rs \<and> static_inv hinv live g'"
  using throwing_handler.serve_exc_safe [of gbi hinv live accepts g crc maxTransfer t clk qs] assms
  by (auto simp: throwing_handler_def ok_iff)

lemma daemon_survives_exceptions_witness:
  "\<exists>rs g'. serve_exc demo_crc faulty_methods (\<lambda>c :: nat. 64) 0 (\<lambda>k. 0)
      [\<lparr>req_channel = 0, req_cmd = 6, req_data = with_crc demo_crc (le16 5)\<rparr>,
       \<lparr>req_channel = 0, req_cmd = 2, req_data = [1, 2, 3]\<rparr>] (Some demo_open) = Some (rs, g')
    \<and> static_inv example_inv example_live g'"
  using daemon_survives_exceptions [OF faulty.blob_handler_axioms, of "Some demo_open" demo_crc
      "\<lambda>c :: nat. 64" 0 "\<lambda>k. 0" "[\<lparr>req_channel = 0, req_cmd = 6, req_data = with_crc demo_crc (le16 5)\<rparr>,
       \<lparr>req_channel = 0, req_cmd = 2, req_data = [1, 2, 3]\<rparr>]"] demo_open_inv
  by auto

lemma getHandler_exc_frame:
  "getHandler_exc gbi p m = Some (r, m') \<Longrightarrow> sessions m' = sessions m \<and> ids m' = ids m"
  by (auto simp: getHandler_exc_def bind_eq_Some_conv)

lemma proceed_InlD:
  assumes "proceed x f = Some (Inl e, m')"
  shows "x = Some (Inl e, m') \<or> (\<exists>a m. x = Some (Inr a, m) \<and> f a m = Some (Inl e, m'))"
proof (cases x)
  case (Some rm)
  then show ?thesis using assms by (cases rm; cases "fst rm") auto
qed (use assms in simp)

lemma call_handler_frame:
  "call_handler i f m = Some (r, m') \<Longrightarrow> sessions m' = sessions m \<and> ids m' = ids m"
  by (auto simp: call_handler_def bind_eq_Some_conv split: if_splits)

lemma getActionHandler_ids: "getActionHandler s req m = Some (r, m') \<Longrightarrow> ids m' = ids m"
  by (auto simp: getActionHandler_def steady_now_def bind_eq_Some_conv Let_def
      split: option.splits if_splits)

lemma session_call_ids:
  assumes "do { (found, m) \<leftarrow> getActionHandler s req m;
      case found of None \<Rightarrow> Some (d, m) | Some hp \<Rightarrow> call_handler hp f m } = Some (r, m')"
  shows "ids m' = ids m"
  using assms getActionHandler_ids call_handler_frame
  by (fastforce simp: bind_eq_Some_conv split: option.splits)

lemma as_outcome_InlD: "as_outcome c x = Some (Inl e, m) \<Longrightarrow> x = Some (Inl e, m)"
  by (cases x) (auto simp: as_outcome_def map_sum_def split: sum.splits)

text \<open>An exception out of a path operation or of \<open>close\<close>.\<close>

lemma path_call_throws:
  assumes "proceed (getHandler_exc gbi p m) f = Some (Inl e, m')"
    and "\<And>a m1. sessions m1 = sessions m \<Longrightarrow> ids m1 = ids m \<Longrightarrow> f a m1 = Some (Inl e, m') \<Longrightarrow>
      sessions m' = sessions m \<and> ids m' = ids m"
  shows "sessions m' = sessions m \<and> ids m' = ids m"
  using proceed_InlD [OF assms(1)] assms(2) getHandler_exc_frame by metis

lemma close_throws:
  assumes "close_exc gbi s m = Some (Inl e, m')"
  shows "table_of m' = table_of m \<and> ids m' = ids m"
proof -
  obtain r m1 where ga: "getActionHandler s any_flags m = Some (r, m1)"
    and rest: "(case r of None \<Rightarrow> Some (Inr False, m1) | Some hp \<Rightarrow>
        proceed (call_handler hp (th_close gbi s) m1) (\<lambda>b m.
          if \<not> b then Some (Inr False, m)
          else do { m \<leftarrow> eraseSession hp s m; Some (Inr True, m) })) = Some (Inl e, m')"
    using assms by (auto simp: close_exc_def bind_eq_Some_conv)
  then obtain i where "call_handler i (th_close gbi s) m1 = Some (Inl e, m')"
    by (auto dest!: proceed_InlD split: option.splits if_splits simp: bind_eq_Some_conv)
  then show ?thesis
    using getActionHandler_table [OF ga] getActionHandler_ids [OF ga] call_handler_table
      call_handler_frame by metis
qed

lemma throws_frame:
  assumes "step_exc gbi c m = Some (Inl e, m')" and "\<forall>f p q. c \<noteq> CallOpen f p q"
  shows "table_of m' = table_of m \<and> (c \<noteq> CallBuildBlobList \<longrightarrow> ids m' = ids m)"
proof (cases c)
  case CallBuildBlobList
  then have "buildBlobList_exc gbi m = Some (Inl e, m')"
    using assms(1) by (auto dest: as_outcome_InlD)
  then obtain r :: "unit outcome" and l hs where "(case r of Inl e \<Rightarrow> Some (Inl e, m\<lparr>ids := l, handlers := hs\<rparr>)
      | Inr _ \<Rightarrow> Some (Inr (word_of_nat (length l)), m\<lparr>ids := l, handlers := hs\<rparr>)) =
      (Some (Inl e, m') :: (u32 outcome \<times> _) option)"
    by (auto simp: buildBlobList_exc_def bind_eq_Some_conv Let_def)
  then show ?thesis
    using CallBuildBlobList by (cases r) (auto simp: table_of_def fun_eq_iff)
next
  case (CallStatPath p)
  then have th: "statPath_exc gbi p uninit_meta m = Some (Inl e, m')"
    using assms(1) by (auto dest: as_outcome_InlD)
  have "sessions m' = sessions m \<and> ids m' = ids m"
    by (rule path_call_throws [OF th [unfolded statPath_exc_def]])
       (auto dest!: call_handler_frame split: option.splits)
  then show ?thesis
    by (simp add: table_of_def fun_eq_iff)
next
  case (CallDeleteBlob p)
  then have th: "deleteBlob_exc gbi p m = Some (Inl e, m')"
    using assms(1) by (auto dest: as_outcome_InlD)
  have "sessions m' = sessions m \<and> ids m' = ids m"
    by (rule path_call_throws [OF th [unfolded deleteBlob_exc_def]])
       (auto simp: Let_def dest!: call_handler_frame split: option.splits if_splits)
  then show ?thesis
    by (simp add: table_of_def fun_eq_iff)
next
  case (CallClose s)
  then show ?thesis
    using assms(1) by (auto dest!: as_outcome_InlD close_throws)
qed (use assms in \<open>auto simp: stat_exc_def commit_exc_def read_exc_def write_exc_def writeMeta_exc_def
    dest!: as_outcome_InlD dest: session_call_table session_call_ids\<close>)

text \<open>
  C18: What an exception leaves behind. A call that throws adds no session, and the sessions
  there were keep their path, handler and flags; only an \<open>open\<close> can have removed some, those
  that were stale. In particular a \<open>close\<close> whose handler throws keeps the session. The list
  of blobs is as before unless the call was to rebuild it.
\<close>

theorem exception_effects:
  assumes "blob_handler (tame gbi) hinv live accepts" and "mgr_inv hinv live m"
    and "step_exc gbi c m = Some (Inl e, m')"
  shows "(\<forall>s. table_of m' s = table_of m s
       \<or> (\<exists>f p q. c = CallOpen f p q) \<and> stale (clock m 0) m s \<and> table_of m' s = None)
    \<and> (c \<noteq> CallBuildBlobList \<longrightarrow> ids m' = ids m)"
proof (cases "\<exists>f p q. c = CallOpen f p q")
  case True
  then obtain f p q where c: "c = CallOpen f p q"
    by blast
  have "open_exc gbi f p q m = Some (Inl e, m')"
    using assms(3) c by (auto dest: as_outcome_InlD)
  then have "(\<forall>s. only_expired m m' s) \<and> ids m' = ids m"
    using throwing_handler.open_exc_ok [of gbi hinv live accepts m f p q] assms(1,2)
    by (auto simp: throwing_handler_def same_config_def)
  then show ?thesis
    using c unfolding only_expired_def table_of_def by (metis option.map_disc_iff)
next
  case False
  then show ?thesis
    using throws_frame [OF assms(3)] by simp
qed

lemma exception_effects_witness:
  "step_exc faulty_methods (CallClose 5) demo_open =
     Some (Inl ''close'', touch 5 demo_session demo_open)
   \<and> table_of (touch 5 demo_session demo_open) 5 = table_of demo_open 5"
proof -
  have c: "step_exc faulty_methods (CallClose 5) demo_open =
     Some (Inl ''close'', touch 5 demo_session demo_open)"
    by (simp add: as_outcome_def close_exc_def getActionHandler_def steady_now_def touch_def
        call_handler_def faulty_methods_def demo_defs)
  show ?thesis
    using c exception_effects [OF faulty.blob_handler_axioms demo_open_inv c] by auto
qed

end
