(* ===== verification/Service.thy ===== *)
theory Service
  imports Example_Props
begin

unbundle bit_operations_syntax

text \<open>
  The daemon as its clients see it, with the example handler as the one library: a machine
  with a table of blobs, the next session number, and nothing else. It has no checksums, no
  packed structs, no handlers, no indexes and no clock.

  \<^item> \<open>service_step\<close> is the specification: one typed request on the abstract state;
    \<open>service_answer\<close> is what the bytes of any request are answered.
  \<^item> \<open>client_view\<close> abstracts a state of the manager, and \<open>handle_refines\<close> shows that the daemon
    answers every request as the specification does, in step with it.
\<close>

section \<open>The specification\<close>

record service_blob =
  sb_flags :: u16
  sb_length :: u32
  sb_data :: "nat \<Rightarrow> byte"

record service =
  sv_blobs :: "u16 \<rightharpoonup> service_blob"
  sv_next :: u16
  sv_listed :: bool \<comment> \<open>a count request has been served\<close>
  sv_memory :: "nat \<Rightarrow> nat \<Rightarrow> byte" \<comment> \<open>what the buffers of new sessions will hold\<close>

text \<open>The session numbers in the order in which they are tried; the last one never is.\<close>

definition first_free :: "service \<Rightarrow> u16 option" where
  "first_free v = map_option (\<lambda>k. sv_next v + word_of_nat k)
     (find (\<lambda>k. sv_blobs v (sv_next v + word_of_nat k) = None) [0..<65535])"

definition blob_with :: "service \<Rightarrow> u16 \<Rightarrow> u16 \<Rightarrow> service_blob option" where
  "blob_with v s flag = (case sv_blobs v s of
       None \<Rightarrow> None
     | Some b \<Rightarrow> if has_flag (sb_flags b) flag then Some b else None)"

definition put :: "bytes \<Rightarrow> nat \<Rightarrow> service_blob \<Rightarrow> service_blob" where
  "put d off b = b\<lparr>sb_length := word_of_nat (max (off + length d) (unat (sb_length b))),
     sb_data := (\<lambda>i. if off \<le> i \<and> i < off + length d then d ! (i - off) else sb_data b i)\<rparr>"

fun service_step :: "client_request \<Rightarrow> service \<Rightarrow> reply \<times> service" where
  "service_step GetCount v = (Answer (le32 1), v\<lparr>sv_listed := True\<rparr>)"
| "service_step (Enumerate i) v =
     (if sv_listed v \<and> i = 0 then Answer (c_str_bytes supportedPath) else NoSuchEntry, v)"
| "service_step (Open f p) v =
     (if p \<noteq> supportedPath then (Refused, v)
      else case first_free v of
        None \<Rightarrow> (Refused, v\<lparr>sv_next := sv_next v - 1\<rparr>)
      | Some s \<Rightarrow>
          if \<not> has_flag f read_or_write then (Refused, v\<lparr>sv_next := s + 1\<rparr>)
          else (Answer (le16 s), v\<lparr>sv_next := s + 1,
            sv_blobs := (sv_blobs v)(s \<mapsto> \<lparr>sb_flags = f, sb_length = 0, sb_data = sv_memory v 0\<rparr>),
            sv_memory := sv_memory v \<circ> Suc\<rparr>))"
| "service_step (Read s off n) v =
     (case blob_with v s OpenFlags_read of
        None \<Rightarrow> Answer []
      | Some b \<Rightarrow> Answer (map (sb_data b) [unat off..<min 1024 (unat off + unat n)]), v)"
| "service_step (Write s off d) v =
     (case blob_with v s OpenFlags_write of
        None \<Rightarrow> (Refused, v)
      | Some b \<Rightarrow>
          if unat off < 1024 \<and> unat off + length d \<le> 1024
          then (Acknowledged, v\<lparr>sv_blobs := (sv_blobs v)(s \<mapsto> put d (unat off) b)\<rparr>)
          else (Refused, v))"
| "service_step (Close s) v =
     (if sv_blobs v s = None then (Refused, v)
      else (Acknowledged, v\<lparr>sv_blobs := (sv_blobs v)(s := None)\<rparr>))"
| "service_step (SessionStat s) v =
     (case sv_blobs v s of None \<Rightarrow> Refused | Some b \<Rightarrow> Answer (stat_body 3 (sb_length b) []), v)"
| "service_step (Commit s d) v = (Refused, v)"
| "service_step (Delete p) v = (Refused, v)"
| "service_step (Stat p) v = (Refused, v)"
| "service_step (WriteMeta s off d) v = (Refused, v)"

text \<open>On the wire, where a request can be any bytes: one that is malformed is turned away.\<close>

definition service_answer ::
    "(bytes \<Rightarrow> u16) \<Rightarrow> nat \<Rightarrow> byte \<Rightarrow> bytes \<Rightarrow> service \<Rightarrow> resp \<times> service" where
  "service_answer crc maxSize cmd d v = (case decode crc cmd d of
       Inl r \<Rightarrow> (r, v)
     | Inr q \<Rightarrow> apfst (respond crc maxSize) (service_step q v))"

fun service_run ::
    "(bytes \<Rightarrow> u16) \<Rightarrow> ('c \<Rightarrow> nat) \<Rightarrow> 'c request list \<Rightarrow> service \<Rightarrow> resp list \<times> service" where
  "service_run crc maxTransfer [] v = ([], v)"
| "service_run crc maxTransfer (q # qs) v =
     (let (r, v) = service_answer crc (maxTransfer (req_channel q)) (req_cmd q) (req_data q) v;
          (rs, v) = service_run crc maxTransfer qs v in (r # rs, v))"

section \<open>The view of a manager\<close>

definition blob_view :: "ExampleBlob \<Rightarrow> service_blob" where
  "blob_view b = \<lparr>sb_flags = eb_flags b, sb_length = eb_length b, sb_data = eb_buffer b\<rparr>"

definition client_view :: "ExampleBlobHandler BlobManager \<Rightarrow> service" where
  "client_view m =
     \<lparr>sv_blobs = (\<lambda>s. map_option blob_view (eh_sessions (hd (handlers m)) s)),
      sv_next = next_session m, sv_listed = (ids m \<noteq> []), sv_memory = eh_uninit (hd (handlers m))\<rparr>"

definition service_inv :: "ExampleBlobHandler BlobManager \<Rightarrow> bool" where
  "service_inv m \<longleftrightarrow> ex_inv m \<and> length (handlers m) = 1 \<and> ids m \<in> {[], [supportedPath]}"

text \<open>A manager operation that takes its view through a step of the specification.\<close>

definition moves ::
    "('r \<times> ExampleBlobHandler BlobManager) option \<Rightarrow> 'r \<Rightarrow> service \<Rightarrow> bool" where
  "moves x r v \<longleftrightarrow> (\<exists>m'. x = Some (r, m') \<and> service_inv m' \<and> client_view m' = v)"

lemma service_handler:
  assumes "service_inv m"
  obtains h where "handlers m = [h]"
  using assms by (auto simp: service_inv_def length_Suc_conv)

lemma moves_keeping:
  assumes "service_inv m" and "ok x (\<lambda>(r, m'). ex_inv m' \<and> same_config m m')"
    and "x = Some (r, m')" and "client_view m' = v"
  shows "moves x r v"
  using assms by (auto simp: moves_def service_inv_def same_config_def)

lemma view_frame [simp]:
  "client_view (touch s si m) = client_view m"
  "client_view (m\<lparr>clock := c\<rparr>) = client_view m"
  "client_view (m\<lparr>cerr := l\<rparr>) = client_view m"
  "client_view (m\<lparr>next_session := n\<rparr>) = (client_view m)\<lparr>sv_next := n\<rparr>"
  "client_view (m\<lparr>openFiles := F\<rparr>) = client_view m"
  by (simp_all add: client_view_def touch_def)

lemma view_sel [simp]:
  "sv_blobs (client_view m) s = map_option blob_view (eh_sessions (hd (handlers m)) s)"
  "sv_next (client_view m) = next_session m"
  "sv_listed (client_view m) \<longleftrightarrow> ids m \<noteq> []"
  "sv_memory (client_view m) = eh_uninit (hd (handlers m))"
  by (simp_all add: client_view_def)

lemma blob_view_sel [simp]:
  "sb_flags (blob_view b) = eb_flags b" "sb_length (blob_view b) = eb_length b"
  "sb_data (blob_view b) = eb_buffer b"
  by (simp_all add: blob_view_def)

lemma view_written [simp]: "blob_view (written b off d) = put d off (blob_view b)"
  by (simp add: blob_view_def written_def put_def cong: if_cong)

text \<open>The manager and the handler have the same sessions, with the same flags.\<close>

lemma service_session:
  assumes "service_inv m"
  shows "case eh_sessions (hd (handlers m)) s of
       None \<Rightarrow> sessions m s = None
     | Some b \<Rightarrow> has_flag (eb_flags b) any_flags \<and> (\<exists>si. sessions m s = Some si
         \<and> (\<forall>req. getActionHandler s req m =
              (if has_flag (eb_flags b) req then Some (Some 0, touch s si m) else Some (None, m))))"
proof -
  obtain h where h: "handlers m = [h]"
    using assms by (rule service_handler)
  have inv: "ex_inv m"
    using assms by (simp add: service_inv_def)
  have live: "example_live h = sess_of m 0"
    using mgr_inv_live [OF inv, of 0] by (simp add: h)
  show ?thesis
  proof (cases "sessions m s")
    case None
    then have "example_live h s = None"
      by (simp add: live sess_of_def)
    then show ?thesis
      using None by (simp add: h example_live_def)
  next
    case (Some si)
    obtain i fl where i: "handler si = Some i" "i < length (handlers m)" "flags si = fl"
      "has_flag fl any_flags" and ga: "\<forall>req. getActionHandler s req m =
        (if has_flag fl req then Some (Some i, touch s si m) else Some (None, m))"
      by (rule action_dispatch [OF mgr_inv_index [OF inv] Some])
    have "example_live h s = Some (blobId si, fl)"
      using Some i by (simp add: live sess_of_def h)
    then obtain b where "eh_sessions h s = Some b" "eb_flags b = fl"
      by (auto simp: example_live_def)
    then show ?thesis
      using Some i ga by (simp add: h)
  qed
qed

lemma dispatch_view:
  assumes "service_inv m"
  shows "\<exists>si. getActionHandler s req m =
    (if blob_with (client_view m) s req = None then Some (None, m) else Some (Some 0, touch s si m))"
  using service_session [OF assms, of s]
  by (auto simp: blob_with_def getActionHandler_None split: option.splits)

lemma blob_with_any:
  assumes "service_inv m"
  shows "blob_with (client_view m) s any_flags = sv_blobs (client_view m) s"
  using service_session [OF assms, of s] by (auto simp: blob_with_def split: option.splits)

lemma blob_with_view:
  "blob_with (client_view m) s req = Some v \<Longrightarrow>
     \<exists>b. eh_sessions (hd (handlers m)) s = Some b \<and> v = blob_view b"
  by (auto simp: blob_with_def split: option.splits if_splits)

text \<open>A call of the one handler.\<close>

lemma call_view:
  assumes "handlers m = [h]" and "f h = Some (r, h')"
  shows "call_handler 0 f m = Some (r, m\<lparr>handlers := [h']\<rparr>)"
  using assms by (simp add: call_handler_def)

section \<open>The operations on a session\<close>

lemma read_moves:
  assumes m: "service_inv m"
  shows "moves (BlobManager_read ex_methods s off n m)
    (case blob_with (client_view m) s OpenFlags_read of None \<Rightarrow> []
     | Some b \<Rightarrow> map (sb_data b) [unat off..<min 1024 (unat off + unat n)]) (client_view m)"
proof -
  obtain h where h: "handlers m = [h]"
    using m by (rule service_handler)
  obtain si where ga: "getActionHandler s OpenFlags_read m =
    (if blob_with (client_view m) s OpenFlags_read = None then Some (None, m)
     else Some (Some 0, touch s si m))"
    using dispatch_view [OF m] by blast
  have ok: "ok (BlobManager_read ex_methods s off n m) (\<lambda>(r, m'). ex_inv m' \<and> same_config m m')"
    using m by (auto simp: service_inv_def intro: ok_mono [OF example.BlobManager_read_ok])
  show ?thesis
  proof (cases "blob_with (client_view m) s OpenFlags_read")
    case None
    then show ?thesis
      using ga by (intro moves_keeping [OF m ok, of _ m]) (simp_all add: BlobManager_read_def)
  next
    case (Some v)
    then obtain b where b: "eh_sessions h s = Some b" "v = blob_view b"
      using blob_with_view [OF Some] by (auto simp: h)
    show ?thesis
      using ga Some b h
      by (intro moves_keeping [OF m ok, of _ "(touch s si m)\<lparr>handlers := [h]\<rparr>"])
         (simp_all add: BlobManager_read_def call_handler_def Example_read_eq kBufferSize_def
           client_view_def touch_def)
  qed
qed

lemma write_moves:
  assumes m: "service_inv m"
  shows "case service_step (Write s off d) (client_view m) of (r, v) \<Rightarrow>
    moves (BlobManager_write ex_methods s off d m) (r = Acknowledged) v \<and> r \<in> {Refused, Acknowledged}"
proof -
  obtain h where h: "handlers m = [h]"
    using m by (rule service_handler)
  obtain si where ga: "getActionHandler s OpenFlags_write m =
    (if blob_with (client_view m) s OpenFlags_write = None then Some (None, m)
     else Some (Some 0, touch s si m))"
    using dispatch_view [OF m] by blast
  have ok: "ok (BlobManager_write ex_methods s off d m) (\<lambda>(r, m'). ex_inv m' \<and> same_config m m')"
    using m by (auto simp: service_inv_def intro: ok_mono [OF example.BlobManager_write_ok])
  show ?thesis
  proof (cases "blob_with (client_view m) s OpenFlags_write")
    case None
    then show ?thesis
      using ga moves_keeping [OF m ok, of False m] by (simp add: BlobManager_write_def)
  next
    case (Some v)
    then obtain b where b: "eh_sessions h s = Some b" "v = blob_view b"
      using blob_with_view [OF Some] by (auto simp: h)
    show ?thesis
    proof (cases "unat off < 1024 \<and> unat off + length d \<le> 1024")
      case True
      let ?h = "h\<lparr>eh_sessions := (eh_sessions h)(s \<mapsto> written b (unat off) d)\<rparr>"
      have "moves (BlobManager_write ex_methods s off d m) True
          ((client_view m)\<lparr>sv_blobs := (sv_blobs (client_view m))(s \<mapsto> put d (unat off) v)\<rparr>)"
        using ga Some b h True
        by (intro moves_keeping [OF m ok, of _ "(touch s si m)\<lparr>handlers := [?h]\<rparr>"])
           (auto simp: BlobManager_write_def call_handler_def Example_write_eq kBufferSize_def
             client_view_def touch_def fun_eq_iff)
      then show ?thesis
        using Some True by simp
    next
      case False
      have "moves (BlobManager_write ex_methods s off d m) False (client_view m)"
        using ga Some b h False
        by (intro moves_keeping [OF m ok, of _ "(touch s si m)\<lparr>handlers := [h]\<rparr>"])
           (auto simp: BlobManager_write_def call_handler_def Example_write_eq kBufferSize_def
             client_view_def touch_def fun_eq_iff)
      then show ?thesis
        using Some False by auto
    qed
  qed
qed

lemma close_moves:
  assumes m: "service_inv m"
  shows "case service_step (Close s) (client_view m) of (r, v) \<Rightarrow>
    moves (BlobManager_close ex_methods s m) (r = Acknowledged) v \<and> r \<in> {Refused, Acknowledged}"
proof -
  obtain h where h: "handlers m = [h]"
    using m by (rule service_handler)
  obtain si where ga: "getActionHandler s any_flags m =
    (if sv_blobs (client_view m) s = None then Some (None, m) else Some (Some 0, touch s si m))"
    using dispatch_view [OF m, of s any_flags] blob_with_any [OF m, of s] by auto
  have ok: "ok (BlobManager_close ex_methods s m) (\<lambda>(r, m'). ex_inv m' \<and> same_config m m')"
    using m by (auto simp: service_inv_def intro: ok_mono [OF example.BlobManager_close_ok])
  show ?thesis
  proof (cases "eh_sessions h s")
    case None
    then show ?thesis
      using ga h moves_keeping [OF m ok, of False m] by (simp add: BlobManager_close_def)
  next
    case (Some b)
    let ?h = "h\<lparr>eh_sessions := (eh_sessions h)(s := None)\<rparr>"
    let ?m1 = "(touch s si m)\<lparr>handlers := [?h]\<rparr>"
    have eq: "BlobManager_close ex_methods s m = do { m' \<leftarrow> eraseSession 0 s ?m1; Some (True, m') }"
      using ga h Some by (simp add: BlobManager_close_def call_handler_def Example_close_def
          Example_getSession_def)
    then obtain m' where e: "eraseSession 0 s ?m1 = Some m'"
      using ok by (auto simp: ok_iff bind_eq_Some_conv)
    have "handlers m' = handlers ?m1" "next_session m' = next_session ?m1" "ids m' = ids ?m1"
      using eraseSession_frame [OF e] by simp_all
    then have "client_view m' = (client_view m)\<lparr>sv_blobs := (sv_blobs (client_view m))(s := None)\<rparr>"
      using h by (auto simp: client_view_def touch_def fun_eq_iff)
    then have "moves (BlobManager_close ex_methods s m) True
        ((client_view m)\<lparr>sv_blobs := (sv_blobs (client_view m))(s := None)\<rparr>)"
      using eq e by (intro moves_keeping [OF m ok, of _ m']) simp_all
    then show ?thesis
      using h Some by simp
  qed
qed

lemma stat_moves:
  assumes m: "service_inv m"
  shows "case sv_blobs (client_view m) s of
      None \<Rightarrow> moves (BlobManager_stat ex_methods s uninit_meta m) (False, uninit_meta) (client_view m)
    | Some b \<Rightarrow> moves (BlobManager_stat ex_methods s uninit_meta m)
        (True, \<lparr>blobState = Some 3, blobSize = Some (sb_length b), metadata = []\<rparr>) (client_view m)"
proof -
  obtain h where h: "handlers m = [h]"
    using m by (rule service_handler)
  obtain si where ga: "getActionHandler s any_flags m =
    (if sv_blobs (client_view m) s = None then Some (None, m) else Some (Some 0, touch s si m))"
    using dispatch_view [OF m, of s any_flags] blob_with_any [OF m, of s] by auto
  have ok: "ok (BlobManager_stat ex_methods s uninit_meta m) (\<lambda>(r, m'). ex_inv m' \<and> same_config m m')"
    using m by (auto simp: service_inv_def intro!: ok_mono [OF example.BlobManager_stat_ok])
  show ?thesis
  proof (cases "eh_sessions h s")
    case None
    then show ?thesis
      using ga h moves_keeping [OF m ok, of "(False, uninit_meta)" m] by (simp add: BlobManager_stat_def)
  next
    case (Some b)
    have "example_inv h"
      using m h mgr_inv_hinv [of example_inv example_live m 0] by (simp add: service_inv_def)
    then have "eb_state b = 3"
      using Some by (simp add: example_inv_def flag_defs)
    then have "moves (BlobManager_stat ex_methods s uninit_meta m)
        (True, \<lparr>blobState = Some 3, blobSize = Some (eb_length b), metadata = []\<rparr>) (client_view m)"
      using ga h Some
      by (intro moves_keeping [OF m ok, of _ "(touch s si m)\<lparr>handlers := [h]\<rparr>"])
         (simp_all add: BlobManager_stat_def call_handler_def Example_stat_def Example_getSession_def
           uninit_meta_def client_view_def touch_def)
    then show ?thesis
      using h Some by simp
  qed
qed

text \<open>The example handler commits nothing and keeps no metadata.\<close>

lemma refused_moves:
  assumes m: "service_inv m"
  shows "moves (BlobManager_commit ex_methods s d m) False (client_view m)"
    and "moves (BlobManager_writeMeta ex_methods s off d m) False (client_view m)"
proof -
  obtain h where h: "handlers m = [h]"
    using m by (rule service_handler)
  obtain si where ga: "getActionHandler s any_flags m =
    (if sv_blobs (client_view m) s = None then Some (None, m) else Some (Some 0, touch s si m))"
    using dispatch_view [OF m, of s any_flags] blob_with_any [OF m, of s] by auto
  let ?m' = "if sv_blobs (client_view m) s = None then m else (touch s si m)\<lparr>handlers := [h]\<rparr>"
  have view: "client_view ?m' = client_view m"
    using h by (simp add: client_view_def touch_def)
  have "ok (BlobManager_commit ex_methods s d m) (\<lambda>(r, m'). ex_inv m' \<and> same_config m m')"
    using m by (auto simp: service_inv_def intro: ok_mono [OF example.BlobManager_commit_ok])
  then show "moves (BlobManager_commit ex_methods s d m) False (client_view m)"
    by (rule moves_keeping [OF m _ _ view])
       (use ga h in \<open>auto simp: BlobManager_commit_def call_handler_def Example_commit_def
          Example_getSession_def split: option.split\<close>)
  have "ok (BlobManager_writeMeta ex_methods s off d m) (\<lambda>(r, m'). ex_inv m' \<and> same_config m m')"
    using m by (auto simp: service_inv_def intro: ok_mono [OF example.BlobManager_writeMeta_ok])
  then show "moves (BlobManager_writeMeta ex_methods s off d m) False (client_view m)"
    by (rule moves_keeping [OF m _ _ view])
       (use ga h in \<open>auto simp: BlobManager_writeMeta_def call_handler_def Example_writeMeta_def\<close>)
qed

section \<open>The operations on a path, and the list\<close>

lemma getHandler_view:
  assumes "handlers m = [h]"
  shows "getHandler ex_methods p m = Some (if p = supportedPath then Some 0 else None, m)"
  using assms by (simp add: getHandler_def Example_canHandleBlob_def)

lemma getSession_view:
  assumes m: "service_inv m"
  shows "getSession out_param m = (case first_free (client_view m) of
       None \<Rightarrow> (None, m\<lparr>next_session := next_session m - 1\<rparr>)
     | Some s \<Rightarrow> (Some s, m\<lparr>next_session := s + 1\<rparr>))"
proof -
  have free: "eh_sessions (hd (handlers m)) s = None \<longleftrightarrow> sessions m s = None" for s
    using service_session [OF m, of s] by (auto split: option.splits)
  have "(65535 :: u16) = - 1"
    by simp
  then have last: "next_session m + 65535 = next_session m - 1"
    by (metis add_uminus_conv_diff)
  show ?thesis
    unfolding getSession_find first_free_def view_sel map_option_is_None free last
    by (simp split: option.split)
qed

lemma open_moves:
  assumes m: "service_inv m"
  shows "case service_step (Open f p) (client_view m) of (r, v) \<Rightarrow>
      r = Refused \<and> (\<exists>so. moves (BlobManager_open ex_methods f p out_param m) (False, so) v)
    \<or> (\<exists>s. r = Answer (le16 s) \<and> moves (BlobManager_open ex_methods f p out_param m) (True, Some s) v)"
proof -
  obtain h where h: "handlers m = [h]"
    using m by (rule service_handler)
  note gh = getHandler_view [OF h]
  note gs = getSession_view [OF m]
  have inv: "ex_inv m"
    using m by (simp add: service_inv_def)
  have ok: "ok (BlobManager_open ex_methods f p out_param m) (\<lambda>(r, m'). ex_inv m' \<and> same_config m m')"
    using inv by (auto intro!: ok_mono [OF example.BlobManager_open_ok])
  show ?thesis
  proof (cases "p = supportedPath")
    case False
    then show ?thesis
      using moves_keeping [OF m ok, of "(False, None)" m] gh by (auto simp: BlobManager_open_def)
  next
    case p: True
    show ?thesis
    proof (cases "first_free (client_view m)")
      case None
      then show ?thesis
        using moves_keeping [OF m ok, of "(False, None)" "m\<lparr>next_session := next_session m - 1\<rparr>"] gh gs p
        by (auto simp: BlobManager_open_def)
    next
      case (Some s)
      let ?m1 = "m\<lparr>next_session := s + 1\<rparr>"
      have gs': "getSession out_param m = (Some s, ?m1)"
        using gs Some by simp
      have fresh: "eh_sessions h s = None"
        using getSession_fresh [OF gs'] service_session [OF m, of s] by (auto simp: h split: option.splits)
      show ?thesis
      proof (cases "has_flag f read_or_write")
        case False
        then show ?thesis
          using moves_keeping [OF m ok, of "(False, Some s)" ?m1] gh gs' p Some
          by (auto simp: BlobManager_open_def)
      next
        case True
        have "ex_inv ?m1"
          by (rule example.minv_cong [OF inv]) simp_all
        then obtain c l
          where cu: "cleanUpStaleSessions ex_methods 0 ?m1 = Some (?m1\<lparr>clock := c, cerr := l\<rparr>)"
          using example_cleanup [of ?m1 0] h by auto
        let ?h = "h\<lparr>eh_sessions := (eh_sessions h)(s \<mapsto> new_ExampleBlob s f (eh_uninit h 0)),
          eh_uninit := eh_uninit h \<circ> Suc\<rparr>"
        let ?m2 = "?m1\<lparr>clock := c, cerr := l, handlers := [?h]\<rparr>"
        have eq: "BlobManager_open ex_methods f p out_param m =
            do { m \<leftarrow> record_session 0 s f p ?m2; Some ((True, Some s), m) }"
          using gh gs' cu h p True fresh
          by (simp add: BlobManager_open_def call_handler_def Example_open_def Example_canHandleBlob_def)
        then obtain m' where rec: "record_session 0 s f p ?m2 = Some m'"
          using ok by (auto simp: ok_iff bind_eq_Some_conv)
        have "handlers m' = [?h]" "next_session m' = s + 1" "ids m' = ids m"
          using record_session_frame [OF rec] by simp_all
        then have "client_view m' = snd (service_step (Open f p) (client_view m))"
          using h p True Some
          by (auto simp: client_view_def fun_eq_iff blob_view_def new_ExampleBlob_def)
        then have "moves (BlobManager_open ex_methods f p out_param m) (True, Some s)
            (snd (service_step (Open f p) (client_view m)))"
          using eq rec by (intro moves_keeping [OF m ok, of _ m']) simp_all
        then show ?thesis
          using p True Some by (auto intro!: exI [where x = s])
      qed
    qed
  qed
qed

lemma path_moves:
  assumes m: "service_inv m"
  shows "moves (BlobManager_statPath ex_methods p uninit_meta m) (False, uninit_meta) (client_view m)"
    and "moves (BlobManager_deleteBlob ex_methods p m) False (client_view m)"
proof -
  obtain h where h: "handlers m = [h]"
    using m by (rule service_handler)
  note gh = getHandler_view [OF h]
  have ok: "ok (BlobManager_statPath ex_methods p uninit_meta m) (\<lambda>(r, m'). ex_inv m' \<and> same_config m m')"
    using m by (auto simp: service_inv_def intro!: ok_mono [OF example.BlobManager_statPath_ok])
  let ?m1 = "if p = supportedPath then m\<lparr>handlers := [h]\<rparr> else m"
  have "BlobManager_statPath ex_methods p uninit_meta m = Some ((False, uninit_meta), ?m1)"
    using gh h by (auto simp: BlobManager_statPath_def call_handler_def Example_statPath_def)
  then show "moves (BlobManager_statPath ex_methods p uninit_meta m) (False, uninit_meta) (client_view m)"
    using h by (intro moves_keeping [OF m ok, of _ ?m1]) (simp_all add: client_view_def)
  have ok: "ok (BlobManager_deleteBlob ex_methods p m) (\<lambda>(r, m'). ex_inv m' \<and> same_config m m')"
    using m by (auto simp: service_inv_def intro!: ok_mono [OF example.BlobManager_deleteBlob_ok])
  let ?m' = "if p = supportedPath then m\<lparr>openFiles := (openFiles m)(p \<mapsto> file_count m p), handlers := [h]\<rparr> else m"
  have "BlobManager_deleteBlob ex_methods p m = Some (False, ?m')"
    using gh h by (auto simp: BlobManager_deleteBlob_def call_handler_def Example_deleteBlob_def Let_def)
  then show "moves (BlobManager_deleteBlob ex_methods p m) False (client_view m)"
    using h by (intro moves_keeping [OF m ok, of _ ?m']) (simp_all add: client_view_def)
qed

lemma count_moves:
  assumes m: "service_inv m"
  shows "moves (buildBlobList ex_methods m) 1 ((client_view m)\<lparr>sv_listed := True\<rparr>)"
proof -
  obtain h where h: "handlers m = [h]"
    using m by (rule service_handler)
  have eq: "buildBlobList ex_methods m = Some (1, m\<lparr>ids := [supportedPath], handlers := [h]\<rparr>)"
    using h by (simp add: buildBlobList_def Example_getBlobIds_def)
  have "service_inv (m\<lparr>ids := [supportedPath], handlers := [h]\<rparr>)"
    using m h example.minv_cong [of m "m\<lparr>ids := [supportedPath], handlers := [h]\<rparr>"]
    by (simp add: service_inv_def)
  then show ?thesis
    using eq h by (simp add: moves_def client_view_def)
qed

lemma enumerate_view:
  assumes "service_inv m"
  shows "getBlobId i m = (if sv_listed (client_view m) \<and> i = 0 then supportedPath else [])"
proof -
  have "1 \<le> unat i \<longleftrightarrow> i \<noteq> 0"
    by (simp add: Suc_le_eq unat_gt_0)
  then show ?thesis
    using assms by (auto simp: service_inv_def getBlobId_def)
qed

section \<open>The refinement\<close>

lemma moves_SomeE:
  assumes "moves x r v"
  obtains m' where "x = Some (r, m')" and "service_inv m'" and "client_view m' = v"
  using assms by (auto simp: moves_def)

lemma perform_refines:
  assumes m: "service_inv m"
  shows "moves (perform (BlobManager_methods ex_methods) q m)
    (fst (service_step q (client_view m))) (snd (service_step q (client_view m)))"
proof (cases q)
  case GetCount
  then show ?thesis
    using count_moves [OF m] by (auto simp: moves_def)
next
  case (Enumerate i)
  then show ?thesis
    using m enumerate_view [OF m, of i] by (auto simp: moves_def Let_def supportedPath_def)
next
  case (Open f p)
  then show ?thesis
    using open_moves [OF m, of f p]
    by (auto simp: moves_def split: prod.splits simp del: service_step.simps)
next
  case (Read s off n)
  then show ?thesis
    using read_moves [OF m, of s off n] by (auto simp: moves_def split: option.split)
next
  case (Write s off d)
  then show ?thesis
    using write_moves [OF m, of s off d]
    by (auto simp: moves_def acknowledge_def split: prod.splits simp del: service_step.simps)
next
  case (Commit s d)
  then show ?thesis
    using refused_moves(1) [OF m, of s d] by (auto simp: moves_def acknowledge_def)
next
  case (Close s)
  then show ?thesis
    using close_moves [OF m, of s]
    by (auto simp: moves_def acknowledge_def split: prod.splits simp del: service_step.simps)
next
  case (Delete p)
  then show ?thesis
    using path_moves(2) [OF m, of p] by (auto simp: moves_def acknowledge_def)
next
  case (Stat p)
  then show ?thesis
    using path_moves(1) [OF m, of p] by (auto simp: moves_def describe_def)
next
  case (SessionStat s)
  then show ?thesis
    using stat_moves [OF m, of s] by (auto simp: moves_def describe_def split: option.splits)
next
  case (WriteMeta s off d)
  then show ?thesis
    using refused_moves(2) [OF m, of s off d] by (auto simp: moves_def acknowledge_def)
qed

lemma handle_refines:
  assumes m: "service_inv m"
  shows "\<exists>m'. handleBlobCommand crc ex_methods t clk cmd d maxSize (Some m) =
      Some (fst (service_answer crc maxSize cmd d (client_view m)), Some m')
    \<and> service_inv m' \<and> client_view m' = snd (service_answer crc maxSize cmd d (client_view m))"
proof (cases "decode crc cmd d")
  case (Inl r)
  then show ?thesis
    using m by (simp add: handle_meaning getBlobManager_def service_answer_def)
next
  case (Inr q)
  show ?thesis
    using perform_refines [OF m, of q]
    by (rule moves_SomeE) (simp add: Inr handle_meaning getBlobManager_def service_answer_def)
qed

lemma serve_refines:
  "service_inv m \<Longrightarrow>
   \<exists>m'. serve crc ex_methods maxTransfer t clk qs (Some m) =
      Some (fst (service_run crc maxTransfer qs (client_view m)), Some m')
    \<and> service_inv m' \<and> client_view m' = snd (service_run crc maxTransfer qs (client_view m))"
proof (induction qs arbitrary: m)
  case Nil
  then show ?case by simp
next
  case (Cons q qs)
  let ?max = "maxTransfer (req_channel q)"
  obtain m1 where h: "handleBlobCommand crc ex_methods t clk (req_cmd q) (req_data q) ?max (Some m) =
      Some (fst (service_answer crc ?max (req_cmd q) (req_data q) (client_view m)), Some m1)"
    and m1: "service_inv m1" "client_view m1 = snd (service_answer crc ?max (req_cmd q) (req_data q) (client_view m))"
    using handle_refines [OF Cons.prems] by blast
  obtain m2 where s: "serve crc ex_methods maxTransfer t clk qs (Some m1) =
      Some (fst (service_run crc maxTransfer qs (client_view m1)), Some m2)"
    and m2: "service_inv m2" "client_view m2 = snd (service_run crc maxTransfer qs (client_view m1))"
    using Cons.IH [OF m1(1)] by blast
  show ?case
    using h s m1 m2 by (simp add: oem_handler_def split_def Let_def)
qed

text \<open>A request that can change what session \<open>s\<close> holds.\<close>

fun changes :: "u16 \<Rightarrow> client_request \<Rightarrow> bool" where
  "changes s (Write s' off d) \<longleftrightarrow> s' = s"
| "changes s (Close s') \<longleftrightarrow> s' = s"
| "changes s _ \<longleftrightarrow> False"

lemma first_free_free: "first_free v = Some s \<Longrightarrow> sv_blobs v s = None"
  by (auto simp: first_free_def find_Some_iff)

lemma step_keeps_blob:
  assumes "sv_blobs v s \<noteq> None" and "\<not> changes s q"
  shows "sv_blobs (snd (service_step q v)) s = sv_blobs v s"
  using assms first_free_free [of v s]
  by (cases q) (auto simp: blob_with_def split: option.splits)

text \<open>The request is one of those, or malformed.\<close>

definition leaves :: "(bytes \<Rightarrow> u16) \<Rightarrow> u16 \<Rightarrow> 'c request \<Rightarrow> bool" where
  "leaves crc s q \<longleftrightarrow> (case decode crc (req_cmd q) (req_data q) of
       Inl r \<Rightarrow> True
     | Inr c \<Rightarrow> \<not> changes s c)"

lemma run_keeps_blob:
  "sv_blobs v s \<noteq> None \<Longrightarrow> list_all (leaves crc s) qs \<Longrightarrow>
   sv_blobs (snd (service_run crc maxTransfer qs v)) s = sv_blobs v s"
proof (induction qs arbitrary: v)
  case (Cons q qs)
  let ?v = "snd (service_answer crc (maxTransfer (req_channel q)) (req_cmd q) (req_data q) v)"
  have "sv_blobs ?v s = sv_blobs v s"
    using Cons.prems step_keeps_blob
    by (auto simp: service_answer_def leaves_def split: sum.splits)
  then show ?case
    using Cons.IH [of ?v] Cons.prems by (simp add: split_def Let_def)
qed simp

section \<open>Properties\<close>

text \<open>The state after start-up with the example library, and with one session open.\<close>

lemma demo_start_service: "service_inv demo_start"
  using demo_start_inv by (simp add: service_inv_def demo_start_def new_BlobManager_def)

lemma demo_open_service: "service_inv demo_open"
  using demo_open_inv by (simp add: service_inv_def demo_open_def)

text \<open>
  C3: The daemon implements its specification. With the example handler, in every state with
  the invariant and for every sequence of requests on whatever channels, well formed or not,
  the replies on the wire are those of the abstract service, and the state reached is one
  whose view is the abstract state reached. So the clock, the session records, the indexes
  and the expiry of sessions are invisible to clients.
\<close>

theorem daemon_refines_service:
  assumes "service_inv m"
  shows "\<exists>m'. serve crc ExampleBlobHandler_methods maxTransfer t clk qs (Some m) =
      Some (fst (service_run crc maxTransfer qs (client_view m)), Some m')
    \<and> service_inv m' \<and> client_view m' = snd (service_run crc maxTransfer qs (client_view m))"
  by (rule serve_refines [OF assms])

text \<open>A request on channel \<open>c\<close>, as a client lays it out.\<close>

definition wire :: "(bytes \<Rightarrow> u16) \<Rightarrow> 'c \<Rightarrow> client_request \<Rightarrow> 'c request" where
  "wire crc c q = \<lparr>req_channel = c, req_cmd = fst (encode crc q), req_data = snd (encode crc q)\<rparr>"

lemma wire_sel [simp]:
  "req_channel (wire crc c q) = c"
  "expressible q \<Longrightarrow> decode crc (req_cmd (wire crc c q)) (req_data (wire crc c q)) = Inr q"
  by (simp_all add: wire_def decode_encoded)

lemma daemon_refines_service_witness:
  "\<exists>m'. serve demo_crc ExampleBlobHandler_methods (\<lambda>c. 64) 0 (\<lambda>k. 0)
      [wire demo_crc (0 :: nat) (Open 3 supportedPath), wire demo_crc 0 (Write 5 0 [7]),
       \<lparr>req_channel = 1, req_cmd = 77, req_data = [1]\<rparr>, wire demo_crc 1 (Read 5 0 1)]
      (Some demo_start) =
    Some ([framed demo_crc 64 (le16 5), responseSuccess [], responseInvalidFieldRequest,
      framed demo_crc 64 [7]], Some m')"
proof -
  let ?qs = "[wire demo_crc (0 :: nat) (Open 3 supportedPath), wire demo_crc 0 (Write 5 0 [7]),
    \<lparr>req_channel = 1, req_cmd = 77, req_data = [1]\<rparr>, wire demo_crc 1 (Read 5 0 1)]"
  have "find (\<lambda>k. sv_blobs (client_view demo_start) (sv_next (client_view demo_start) + word_of_nat k) = None)
      [0..<65535] = Some 0"
    by (simp only: find_upt_Some) (simp add: client_view_def demo_defs)
  then have "first_free (client_view demo_start) = Some 5"
    unfolding first_free_def by (simp only: option.map) (simp add: client_view_def demo_defs)
  moreover have "decode demo_crc 77 [1] = Inl responseInvalidFieldRequest"
    by (simp add: decode_def command_of_def)
  ultimately have "fst (service_run demo_crc (\<lambda>c. 64) ?qs (client_view demo_start)) =
      [framed demo_crc 64 (le16 5), responseSuccess [], responseInvalidFieldRequest, framed demo_crc 64 [7]]"
    by (simp add: service_answer_def blob_with_def put_def)
  then show ?thesis
    using daemon_refines_service [OF demo_start_service, of demo_crc "\<lambda>c. 64" 0 "\<lambda>k. 0" ?qs] by auto
qed

text \<open>
  C19: Sessions of the example handler are isolated from each other. Let this handler be the only
  one registered. While a session is open, no sequence of requests other than well-formed writes
  to it and a well-formed close of it, from whatever clients, changes what a read of it is
  answered. (It never lets a session expire; other handlers may, and may share data between
  sessions.)
\<close>

theorem sessions_isolated:
  assumes "service_inv m" and "sessions m s \<noteq> None" and "list_all (leaves crc s) qs"
  shows "\<exists>rs m'. serve crc ExampleBlobHandler_methods maxTransfer t clk qs (Some m) = Some (rs, Some m')
    \<and> (\<exists>r m1 m2. handleBlobCommand crc ExampleBlobHandler_methods t clk 3
          (with_crc crc (read_body s off n)) maxSize (Some m) = Some (r, Some m1)
      \<and> handleBlobCommand crc ExampleBlobHandler_methods t clk 3
          (with_crc crc (read_body s off n)) maxSize (Some m') = Some (r, Some m2))"
proof -
  obtain m' where sv: "serve crc ExampleBlobHandler_methods maxTransfer t clk qs (Some m) =
      Some (fst (service_run crc maxTransfer qs (client_view m)), Some m')"
    and m': "service_inv m'" "client_view m' = snd (service_run crc maxTransfer qs (client_view m))"
    using serve_refines [OF assms(1)] by blast
  have "sv_blobs (client_view m) s \<noteq> None"
    using service_session [OF assms(1), of s] assms(2) by (auto split: option.splits)
  then have same: "sv_blobs (client_view m') s = sv_blobs (client_view m) s"
    unfolding m'(2) using assms(3) by (rule run_keeps_blob)
  have dec: "decode crc 3 (with_crc crc (read_body s off n)) = Inr (Read s off n)"
    using decode_encoded [of "Read s off n" crc] by simp
  have "fst (service_answer crc maxSize 3 (with_crc crc (read_body s off n)) (client_view m')) =
      fst (service_answer crc maxSize 3 (with_crc crc (read_body s off n)) (client_view m))"
    unfolding service_answer_def dec by (simp add: blob_with_def same del: view_sel)
  then show ?thesis
    using sv handle_refines [OF assms(1), of crc t clk 3 "with_crc crc (read_body s off n)" maxSize]
      handle_refines [OF m'(1), of crc t clk 3 "with_crc crc (read_body s off n)" maxSize]
    by auto
qed

lemma sessions_isolated_witness:
  "\<exists>rs m'. serve demo_crc ExampleBlobHandler_methods (\<lambda>c. 64) 0 (\<lambda>k. 0)
      [wire demo_crc (0 :: nat) (Open 3 supportedPath), wire demo_crc 0 (Write 6 0 [7])] (Some demo_open) =
      Some (rs, Some m')
    \<and> (\<exists>r m1 m2. handleBlobCommand demo_crc ExampleBlobHandler_methods 0 (\<lambda>k. 0) 3
          (with_crc demo_crc (read_body 5 0 4)) 64 (Some demo_open) = Some (r, Some m1)
      \<and> handleBlobCommand demo_crc ExampleBlobHandler_methods 0 (\<lambda>k. 0) 3
          (with_crc demo_crc (read_body 5 0 4)) 64 (Some m') = Some (r, Some m2))"
  by (rule sessions_isolated [OF demo_open_service]) (simp_all add: demo_open_def leaves_def)

end
