(* ===== verification/Timing.thy ===== *)
theory Timing
  imports Manager_Props Ipmi_Props
begin

unbundle bit_operations_syntax

text \<open>
  Sessions over time. Every operation of the manager reads the clock a number of times and
  leaves the readings after those (\<open>advances\<close>); a request makes at most one call of the
  manager. With a clock that does not go back, a session is safe until the timeout has
  passed since its last use, whatever clients do in the meantime, other than closing it.
\<close>

section \<open>The clock\<close>

text \<open>
  \<open>advances m m'\<close>: from \<open>m\<close> to \<open>m'\<close> a number of readings have been taken, and the time of each
  session in \<open>m'\<close> is one it had in \<open>m\<close> or one of these readings.
\<close>

definition stamped :: "nat \<Rightarrow> 'h BlobManager \<Rightarrow> 'h BlobManager \<Rightarrow> bool" where
  "stamped n m m' \<longleftrightarrow> (\<forall>s si'. sessions m' s = Some si' \<longrightarrow>
     (\<exists>si. sessions m s = Some si \<and> lastActionTime si' = lastActionTime si)
     \<or> (\<exists>j < n. lastActionTime si' = clock m j))"

definition advances :: "'h BlobManager \<Rightarrow> 'h BlobManager \<Rightarrow> bool" where
  "advances m m' \<longleftrightarrow> sessionTimeout m' = sessionTimeout m
     \<and> (\<exists>n. (\<forall>k. clock m' k = clock m (n + k)) \<and> stamped n m m')"

lemma stamped_sub: "sessions m' \<subseteq>\<^sub>m sessions m \<Longrightarrow> stamped n m m'"
  unfolding stamped_def by (metis domI map_le_def)

lemma advances_sub:
  "sessionTimeout m' = sessionTimeout m \<Longrightarrow> clock m' = clock m \<Longrightarrow> sessions m' \<subseteq>\<^sub>m sessions m \<Longrightarrow> advances m m'"
  unfolding advances_def using stamped_sub by (metis add_0)

lemma advances_same:
  "sessionTimeout m' = sessionTimeout m \<Longrightarrow> clock m' = clock m \<Longrightarrow> sessions m' = sessions m \<Longrightarrow> advances m m'"
  by (simp add: advances_sub)

lemma advances_refl [simp]: "advances m m"
  by (simp add: advances_same)

lemma stamped_trans:
  assumes "stamped n a b" and "stamped k b c" and "\<forall>i. clock b i = clock a (n + i)"
  shows "stamped (n + k) a c"
  unfolding stamped_def
proof (intro allI impI)
  fix s sc
  assume "sessions c s = Some sc"
  then consider sb where "sessions b s = Some sb" "lastActionTime sc = lastActionTime sb"
    | j where "j < k" "lastActionTime sc = clock b j"
    using assms(2) unfolding stamped_def by blast
  then show "(\<exists>sa. sessions a s = Some sa \<and> lastActionTime sc = lastActionTime sa)
      \<or> (\<exists>j < n + k. lastActionTime sc = clock a j)"
  proof cases
    case 1
    then show ?thesis
      using assms(1) trans_less_add1 unfolding stamped_def by metis
  next
    case 2
    then show ?thesis
      using assms(3) by (metis nat_add_left_cancel_less)
  qed
qed

lemma advances_trans: "advances a b \<Longrightarrow> advances b c \<Longrightarrow> advances a c"
  unfolding advances_def using stamped_trans by (metis add.assoc)

text \<open>A reading for session \<open>s\<close>, and one for nothing.\<close>

lemma advances_reading:
  "clock m' = clock m \<circ> Suc \<Longrightarrow> sessionTimeout m' = sessionTimeout m \<Longrightarrow>
   (\<And>s' si'. sessions m' s' = Some si' \<Longrightarrow> sessions m s' = Some si' \<or> lastActionTime si' = clock m 0) \<Longrightarrow>
   advances m m'"
  unfolding advances_def stamped_def by (intro conjI exI [of _ "Suc 0"]) (simp_all, blast)

lemma advances_steady: "steady_now m = (t, m') \<Longrightarrow> advances m m'"
  by (auto simp: steady_now_def intro!: advances_reading)

lemma advances_frame [simp]:
  "advances m (m'\<lparr>handlers := hs\<rparr>) \<longleftrightarrow> advances m m'"
  "advances m (m'\<lparr>openFiles := F\<rparr>) \<longleftrightarrow> advances m m'"
  "advances m (m'\<lparr>openSessions := P\<rparr>) \<longleftrightarrow> advances m m'"
  "advances m (m'\<lparr>next_session := x\<rparr>) \<longleftrightarrow> advances m m'"
  "advances m (m'\<lparr>ids := l\<rparr>) \<longleftrightarrow> advances m m'"
  "advances m (report e m') \<longleftrightarrow> advances m m'"
  "advances (report e m) m' \<longleftrightarrow> advances m m'"
  "advances (m\<lparr>openFiles := F\<rparr>) m' \<longleftrightarrow> advances m m'"
  by (simp_all add: advances_def stamped_def)

lemma advances_sessions_at: "sessions_at s m = (si, m') \<Longrightarrow> advances m m'"
  by (auto simp: sessions_at_def default_SessionInfo_def steady_now_def Let_def
      intro!: advances_reading split: option.splits if_splits)

lemma advances_collect: "collect_stale t ss m = (S, m') \<Longrightarrow> advances m m'"
proof (induction ss arbitrary: m S m')
  case (Cons s ss)
  obtain si m1 where at: "sessions_at s m = (si, m1)"
    by fastforce
  obtain S1 m2 where c: "collect_stale t ss m1 = (S1, m2)"
    by fastforce
  show ?case
    using Cons.prems at c advances_trans [OF advances_sessions_at [OF at] Cons.IH [OF c]] by simp
qed simp

lemma advances_erase: "eraseSession i s m = Some m' \<Longrightarrow> advances m m'"
  by (auto simp: eraseSession_def Let_def bind_eq_Some_conv intro!: advances_sub
      split: option.splits if_splits)

lemma advances_call: "call_handler i f m = Some (r, m') \<Longrightarrow> advances m m'"
  by (auto simp: call_handler_def bind_eq_Some_conv split: if_splits)

lemma advances_expire: "expire_sessions gbi i ss m = Some m' \<Longrightarrow> advances m m'"
proof (induction ss arbitrary: m)
  case (Cons s ss)
  obtain b m1 m2 where "call_handler i (gbi_expire gbi s) (report (ExpiringStaleSession s) m) = Some (b, m1)"
    and "(if b then eraseSession i s m1 else Some (report (FailedToExpireSession s) m1)) = Some m2"
    and "expire_sessions gbi i ss m2 = Some m'"
    using Cons.prems by (auto simp: bind_eq_Some_conv)
  moreover from this(1) have "advances m m1"
    using advances_call by fastforce
  moreover from calculation(2) have "advances m1 m2"
    by (auto split: if_splits intro: advances_erase)
  ultimately show ?case
    using Cons.IH advances_trans by metis
qed simp

lemma advances_cleanUp: "cleanUpStaleSessions gbi i m = Some m' \<Longrightarrow> advances m m'"
  by (auto simp: cleanUpStaleSessions_def split: option.splits prod.splits
      dest!: advances_steady advances_collect advances_expire intro: advances_trans)

lemma advances_getActionHandler: "getActionHandler s req m = Some (r, m') \<Longrightarrow> advances m m'"
  by (auto simp: getActionHandler_def steady_now_def Let_def intro!: advances_reading
      split: option.splits if_splits)

lemma advances_getHandler: "getHandler gbi p m = Some (r, m') \<Longrightarrow> advances m m'"
  by (auto simp: getHandler_def bind_eq_Some_conv)

lemma advances_getSession: "getSession q m = (r, m') \<Longrightarrow> advances m m'"
  using getSession_frame [of q m r m'] by auto

lemma advances_record:
  assumes "record_session i s f p m = Some m'"
  shows "advances m m'"
proof -
  obtain info m1 where n: "new_SessionInfo p i f m = (info, m1)"
    by fastforce
  obtain old m2 where at: "sessions_at s m1 = (old, m2)"
    by fastforce
  have m1: "m1 = m\<lparr>clock := clock m \<circ> Suc\<rparr>" and info: "lastActionTime info = clock m 0"
    using n by (auto simp: new_SessionInfo_def steady_now_def)
  have m': "sessions m' = (sessions m2)(s \<mapsto> info)" "clock m' = clock m2"
    "sessionTimeout m' = sessionTimeout m2"
    using assms n at by (auto simp: record_session_def bind_eq_Some_conv)
  obtain k where k: "sessionTimeout m2 = sessionTimeout m1" "\<forall>i. clock m2 i = clock m1 (k + i)"
    "stamped k m1 m2"
    using advances_sessions_at [OF at] by (auto simp: advances_def)
  have "stamped (Suc k) m m2"
    using stamped_trans [of "Suc 0" m m1 k m2] k(3) by (auto simp: m1 stamped_def)
  then have "stamped (Suc k) m m'"
    using info by (auto simp: stamped_def m'(1))
  then show ?thesis
    unfolding advances_def using k m' by (intro conjI exI [of _ "Suc k"]) (auto simp: m1)
qed

lemmas advances_intros = advances_getHandler advances_getSession advances_cleanUp advances_call
  advances_record advances_erase advances_getActionHandler

lemma advances_open:
  assumes "BlobManager_open gbi f p q m = Some (r, m')"
  shows "advances m m'"
proof -
  obtain found m1 where gh: "getHandler gbi p m = Some (found, m1)"
    using assms by (auto simp: BlobManager_open_def bind_eq_Some_conv)
  obtain so m2 where gs: "getSession q m1 = (so, m2)"
    by fastforce
  have m2: "advances m m2"
    by (rule advances_trans [OF advances_getHandler [OF gh] advances_getSession [OF gs]])
  show ?thesis
  proof (cases "\<exists>i s. found = Some i \<and> so = Some s \<and> has_flag f read_or_write")
    case False
    then show ?thesis
      using assms gh gs m2 advances_getHandler [OF gh]
      by (auto simp: BlobManager_open_def split: option.splits)
  next
    case True
    then obtain i s m3 b m4 where "cleanUpStaleSessions gbi i m2 = Some m3"
      and "call_handler i (gbi_open gbi s f p) m3 = Some (b, m4)"
      and rest: "if b then record_session i s f p m4 = Some m' else m' = m4"
      using assms gh gs by (auto simp: BlobManager_open_def bind_eq_Some_conv split: if_splits)
    then have "advances m m4"
      using m2 advances_cleanUp advances_call advances_trans by metis
    then show ?thesis
      using rest by (auto split: if_splits intro: advances_trans dest!: advances_record)
  qed
qed

lemma advances_session_call:
  assumes "do { (found, m) \<leftarrow> getActionHandler s req m;
      case found of None \<Rightarrow> Some (d, m) | Some hp \<Rightarrow> call_handler hp f m } = Some (r, m')"
  shows "advances m m'"
  using assms advances_getActionHandler advances_call advances_trans
  by (fastforce simp: bind_eq_Some_conv split: option.splits)

lemma advances_close: "BlobManager_close gbi s m = Some (r, m') \<Longrightarrow> advances m m'"
  by (auto simp: BlobManager_close_def bind_eq_Some_conv split: option.splits if_splits
      dest!: advances_getActionHandler advances_call advances_erase intro: advances_trans)

lemma advances_statPath: "BlobManager_statPath gbi p mt m = Some (r, m') \<Longrightarrow> advances m m'"
  by (auto simp: BlobManager_statPath_def bind_eq_Some_conv split: option.splits
      dest!: advances_getHandler advances_call intro: advances_trans)

lemma advances_deleteBlob:
  assumes "BlobManager_deleteBlob gbi p m = Some (r, m')"
  shows "advances m m'"
proof -
  obtain found m1 where gh: "getHandler gbi p m = Some (found, m1)"
    using assms by (auto simp: BlobManager_deleteBlob_def bind_eq_Some_conv)
  have "advances m1 m'"
    using assms gh by (auto simp: BlobManager_deleteBlob_def Let_def split: option.splits if_splits
        dest!: advances_call)
  then show ?thesis
    using advances_getHandler [OF gh] by (rule advances_trans [rotated])
qed

lemma advances_step: "mgr_step (BlobManager_methods gbi) c m = Some (r, m') \<Longrightarrow> advances m m'"
proof (cases c)
  case CallBuildBlobList
  then show "mgr_step (BlobManager_methods gbi) c m = Some (r, m') \<Longrightarrow> ?thesis"
    by (auto simp: as_result_def buildBlobList_def bind_eq_Some_conv)
qed (auto simp: as_result_def BlobManager_stat_def BlobManager_commit_def BlobManager_read_def
    BlobManager_write_def BlobManager_writeMeta_def dest: advances_open advances_close
    advances_statPath advances_deleteBlob advances_session_call)

section \<open>One call for each request\<close>

fun call_of :: "client_request \<Rightarrow> mgr_call" where
  "call_of GetCount = CallBuildBlobList"
| "call_of (Enumerate i) = CallGetBlobId i"
| "call_of (Open f p) = CallOpen f p out_param"
| "call_of (Read s off n) = CallRead s off n"
| "call_of (Write s off d) = CallWrite s off d"
| "call_of (Commit s d) = CallCommit s d"
| "call_of (Close s) = CallClose s"
| "call_of (Delete p) = CallDeleteBlob p"
| "call_of (Stat p) = CallStatPath p"
| "call_of (SessionStat s) = CallStat s"
| "call_of (WriteMeta s off d) = CallWriteMeta s off d"

lemma perform_step:
  "perform mgr q m = Some (rp, m') \<Longrightarrow> \<exists>res. mgr_step mgr (call_of q) m = Some (res, m')"
  by (cases q) (auto simp: as_result_def acknowledge_def describe_def bind_eq_Some_conv split: if_splits)

lemma call_of_Close: "call_of q = CallClose s \<longleftrightarrow> q = Close s"
  by (cases q) simp_all

text \<open>A request that is turned away makes no call, one that is served the call it stands for.\<close>

lemma request_calls:
  assumes "handleBlobCommand crc gbi t clk cmd d maxSize (Some m) = Some (r, g')"
  shows "\<exists>m'. g' = Some m' \<and> (m' = m \<or> (\<exists>q res. decode crc cmd d = Inr q
    \<and> mgr_step (BlobManager_methods gbi) (call_of q) m = Some (res, m')))"
proof (cases "decode crc cmd d")
  case (Inr q)
  then show ?thesis
    using assms by (auto simp: handle_meaning getBlobManager_def bind_eq_Some_conv dest!: perform_step)
qed (use assms in \<open>simp add: handle_meaning getBlobManager_def\<close>)

section \<open>A session and its time\<close>

text \<open>The session is still there, and the time of its last use has not gone back.\<close>

definition still_open :: "SessionInfo \<Rightarrow> 'h BlobManager \<Rightarrow> u16 \<Rightarrow> bool" where
  "still_open si m s \<longleftrightarrow> (\<exists>si'. sessions m s = Some si' \<and> blobId si' = blobId si
     \<and> handler si' = handler si \<and> flags si' = flags si
     \<and> lastActionTime si \<le> lastActionTime si' \<and> lastActionTime si' \<le> clock m 0)"

lemma action_touches:
  assumes "getActionHandler s req m = Some (r, m')"
  shows "sessions m' s' = sessions m s' \<or>
    (\<exists>si. sessions m s' = Some si \<and> sessions m' s' = Some (si\<lparr>lastActionTime := clock m 0\<rparr>))"
  using assms by (auto simp: getActionHandler_def steady_now_def Let_def split: option.splits if_splits)

definition touched :: "'h BlobManager \<Rightarrow> 'h BlobManager \<Rightarrow> u16 \<Rightarrow> bool" where
  "touched m m' s \<longleftrightarrow> sessions m' s = sessions m s \<or>
     (\<exists>si. sessions m s = Some si \<and> sessions m' s = Some (si\<lparr>lastActionTime := clock m 0\<rparr>))"

lemma session_call_touches:
  assumes "do { (found, m) \<leftarrow> getActionHandler s req m;
      case found of None \<Rightarrow> Some (d, m) | Some hp \<Rightarrow> call_handler hp f m } = Some (r, m')"
  shows "touched m m' s'"
proof -
  obtain q m1 where ga: "getActionHandler s req m = Some (q, m1)"
    and m': "(case q of None \<Rightarrow> Some (d, m1) | Some hp \<Rightarrow> call_handler hp f m1) = Some (r, m')"
    using assms by (auto simp: bind_eq_Some_conv)
  have "sessions m' = sessions m1"
    using m' by (auto dest: call_handler_sessions split: option.splits)
  then show ?thesis
    using action_touches [OF ga, of s'] by (simp add: touched_def)
qed

lemma step_touches:
  assumes "mgr_step (BlobManager_methods gbi) c m = Some (r, m')"
    and "\<forall>f p q. c \<noteq> CallOpen f p q" and "c \<noteq> CallClose s"
  shows "touched m m' s"
proof (cases c)
  case CallBuildBlobList
  then show ?thesis
    using assms(1) by (auto simp: as_result_def buildBlobList_def bind_eq_Some_conv touched_def)
next
  case (CallStatPath p)
  then show ?thesis
    using assms(1) by (auto simp: as_result_def touched_def dest: path_call_sessions)
next
  case (CallDeleteBlob p)
  then show ?thesis
    using assms(1) by (auto simp: as_result_def touched_def dest: path_call_sessions)
next
  case (CallClose s')
  then show ?thesis
    using assms by (auto simp: as_result_def touched_def dest: close_frame)
qed (use assms in \<open>auto simp: as_result_def touched_def BlobManager_stat_def BlobManager_commit_def
    BlobManager_read_def BlobManager_write_def BlobManager_writeMeta_def
    dest!: session_call_touches [where s' = s]\<close>)

lemma advances_clock:
  assumes "advances m m'" and "mono (clock m)"
  shows "mono (clock m')" and "clock m 0 \<le> clock m' 0"
  using assms by (auto simp: advances_def mono_def)

lemma step_keeps_open:
  assumes "blob_handler gbi hinv live accepts" and "mgr_inv hinv live m"
    and step: "mgr_step (BlobManager_methods gbi) c m = Some (r, m')" and c: "c \<noteq> CallClose s"
    and s: "still_open si m s" and mono: "mono (clock m)"
    and recent: "clock m' 0 - lastActionTime si < nanoseconds (sessionTimeout m)"
  shows "still_open si m' s"
proof -
  have now: "clock m 0 \<le> clock m' 0"
    by (rule advances_clock [OF advances_step [OF step] mono])
  obtain si' where si': "sessions m s = Some si'" "blobId si' = blobId si" "handler si' = handler si"
    "flags si' = flags si" "lastActionTime si \<le> lastActionTime si'" "lastActionTime si' \<le> clock m 0"
    using s by (auto simp: still_open_def)
  show ?thesis
  proof (cases "\<exists>f p q. c = CallOpen f p q")
    case True
    then obtain f p q b so where "BlobManager_open gbi f p q m = Some ((b, so), m')"
      using step by (auto simp: as_result_def)
    then have "sessions m' s = Some si'"
      using open_keeps_recent [OF assms(1,2) si'(1)] si'(5) now recent by auto
    then show ?thesis
      using si' now by (auto simp: still_open_def)
  next
    case False
    then have "touched m m' s"
      using step_touches [OF step _ c] by blast
    then show ?thesis
      using si' now by (auto simp: still_open_def touched_def)
  qed
qed

lemma request_advances:
  assumes "handleBlobCommand crc gbi t clk cmd d maxSize (Some m) = Some (r, g')"
  obtains m' where "g' = Some m'" and "advances m m'"
  using request_calls [OF assms] advances_step advances_refl by metis

lemma serve_advances:
  "serve crc gbi maxTransfer t clk qs (Some m) = Some (rs, Some m') \<Longrightarrow> advances m m'"
proof (induction qs arbitrary: m rs)
  case (Cons q qs)
  obtain r g1 rs1 where h: "handleBlobCommand crc gbi t clk (req_cmd q) (req_data q)
      (maxTransfer (req_channel q)) (Some m) = Some (r, g1)"
    and rest: "serve crc gbi maxTransfer t clk qs g1 = Some (rs1, Some m')"
    using Cons.prems by (auto simp: oem_handler_def bind_eq_Some_conv)
  then show ?case
    using request_advances [OF h] Cons.IH advances_trans by metis
qed simp

text \<open>A close request for session \<open>s\<close>.\<close>

definition closes :: "(bytes \<Rightarrow> u16) \<Rightarrow> u16 \<Rightarrow> 'c request \<Rightarrow> bool" where
  "closes crc s q \<longleftrightarrow> decode crc (req_cmd q) (req_data q) = Inr (Close s)"

lemma request_keeps_open:
  assumes h: "blob_handler gbi hinv live accepts" "mgr_inv hinv live m"
    and r: "handleBlobCommand crc gbi t clk (req_cmd q) (req_data q) maxSize (Some m) = Some (r, Some m')"
    and q: "\<not> closes crc s q"
    and s: "still_open si m s" and mono: "mono (clock m)"
    and recent: "clock m' 0 - lastActionTime si < nanoseconds (sessionTimeout m)"
  shows "still_open si m' s"
proof -
  have "m' = m \<or> (\<exists>c res. mgr_step (BlobManager_methods gbi) c m = Some (res, m') \<and> c \<noteq> CallClose s)"
    using request_calls [OF r] q by (auto simp: closes_def call_of_Close)
  then show ?thesis
    using step_keeps_open [OF h _ _ s mono recent] s by blast
qed

lemma serve_keeps_open:
  assumes h: "blob_handler gbi hinv live accepts"
    and "mgr_inv hinv live m" and "serve crc gbi maxTransfer t clk qs (Some m) = Some (rs, Some m')"
    and "list_all (\<lambda>q. \<not> closes crc s q) qs" and "still_open si m s" and "mono (clock m)"
    and "clock m' 0 - lastActionTime si < nanoseconds (sessionTimeout m)"
  shows "still_open si m' s"
  using assms(2-)
proof (induction qs arbitrary: m rs)
  case (Cons q qs)
  let ?max = "maxTransfer (req_channel q)"
  obtain r g1 rs1 where r: "handleBlobCommand crc gbi t clk (req_cmd q) (req_data q) ?max (Some m) = Some (r, g1)"
    and rest: "serve crc gbi maxTransfer t clk qs g1 = Some (rs1, Some m')"
    using Cons.prems(2) by (auto simp: oem_handler_def bind_eq_Some_conv)
  obtain m1 where g1: "g1 = Some m1" and adv: "advances m m1"
    using request_advances [OF r] by blast
  have m1: "mgr_inv hinv live m1"
    using blob_handler.handleBlobCommand_safe [OF h, of "Some m" crc t clk "req_cmd q" "req_data q" ?max]
      Cons.prems(1) r g1 by simp
  have mono: "mono (clock m1)"
    by (rule advances_clock [OF adv Cons.prems(5)])
  have timeout: "sessionTimeout m1 = sessionTimeout m"
    using adv by (simp add: advances_def)
  have le: "clock m1 0 \<le> clock m' 0"
    by (rule advances_clock(2) [OF serve_advances [OF rest [unfolded g1]] mono])
  have q: "\<not> closes crc s q" and qs: "list_all (\<lambda>q. \<not> closes crc s q) qs"
    using Cons.prems(3) by simp_all
  have "clock m1 0 - lastActionTime si < nanoseconds (sessionTimeout m)"
    using Cons.prems(6) le by linarith
  then have s1: "still_open si m1 s"
    by (rule request_keeps_open [OF h Cons.prems(1) r [unfolded g1] q Cons.prems(4,5)])
  show ?case
    by (rule Cons.IH [OF m1 rest [unfolded g1] qs s1 mono]) (simp only: timeout Cons.prems(6))
qed simp

text \<open>
  C22: A session in use is not taken away. With a clock that does not go back: from the last
  use of a session until the timeout has passed, no sequence of requests from whatever
  clients, malformed ones included, ends it or changes its path, handler or flags, unless one
  of them is a close request for it.
\<close>

theorem recent_session_survives:
  assumes "blob_handler gbi hinv live accepts" and "mgr_inv hinv live m"
    and "sessions m s = Some si" and "mono (clock m)" and "lastActionTime si \<le> clock m 0"
    and "serve crc gbi maxTransfer t clk qs (Some m) = Some (rs, Some m')"
    and "list_all (\<lambda>q. \<not> closes crc s q) qs"
    and "clock m' 0 - lastActionTime si < nanoseconds (sessionTimeout m)"
  shows "\<exists>si'. sessions m' s = Some si' \<and> blobId si' = blobId si \<and> handler si' = handler si
    \<and> flags si' = flags si"
proof -
  have "still_open si m s"
    using assms(3,5) by (simp add: still_open_def)
  then have "still_open si m' s"
    using serve_keeps_open [OF assms(1,2,6,7) _ assms(4,8)] by blast
  then show ?thesis
    by (auto simp: still_open_def)
qed

lemma recent_session_survives_witness:
  "\<exists>rs m'. serve demo_crc expiring_methods (\<lambda>c :: nat. 64) 0 (\<lambda>k. 0)
      [\<lparr>req_channel = 0, req_cmd = 2, req_data = with_crc demo_crc (open_body 3 supportedPath)\<rparr>]
      (Some demo_open) = Some (rs, Some m')
    \<and> (\<exists>si'. sessions m' 5 = Some si' \<and> blobId si' = supportedPath \<and> flags si' = 3)"
proof -
  let ?qs = "[\<lparr>req_channel = 0 :: nat, req_cmd = 2, req_data = with_crc demo_crc (open_body 3 supportedPath)\<rparr>]"
  obtain rs g' where sv: "serve demo_crc expiring_methods (\<lambda>c :: nat. 64) 0 (\<lambda>k. 0) ?qs (Some demo_open) = Some (rs, g')"
    using blob_handler.serve_safe [OF expiring.blob_handler_axioms, of "Some demo_open" demo_crc
        "\<lambda>c :: nat. 64" 0 "\<lambda>k. 0" ?qs] demo_open_inv by (auto simp: ok_iff)
  obtain m' where g': "g' = Some m'"
    using sv by (auto simp: oem_handler_def bind_eq_Some_conv dest!: request_calls)
  have "advances demo_open m'"
    using sv g' serve_advances by blast
  then have "clock m' 0 = 0"
    by (auto simp: advances_def demo_open_def)
  then have recent: "clock m' 0 - lastActionTime demo_session < nanoseconds (sessionTimeout demo_open)"
    by (simp add: demo_session_def demo_open_def nanoseconds_def)
  have at: "sessions demo_open 5 = Some demo_session" "mono (clock demo_open)"
    "lastActionTime demo_session \<le> clock demo_open 0"
    by (simp_all add: demo_session_def demo_open_def mono_def)
  have "list_all (\<lambda>q. \<not> closes demo_crc 5 q) ?qs"
    using decode_encoded [of "Open 3 supportedPath" demo_crc] by (simp add: closes_def)
  from recent_session_survives [OF expiring.blob_handler_axioms demo_open_inv at sv [unfolded g'] this recent]
  show ?thesis
    using sv g' by (auto simp: demo_session_def)
qed

end
