(* ===== verification/Protocol.thy ===== *)
theory Protocol
  imports Manager_Props Ipmi_Props
begin

unbundle bit_operations_syntax

text \<open>
  The daemon as its clients see it, whatever handlers are loaded: a table of open sessions,
  each with its path and flags, and for every request the replies that are possible.

  \<^item> \<open>permits T q r T'\<close> is the specification, a step relation: on the table \<open>T\<close> the request
    \<open>q\<close> may be answered \<open>r\<close>, and then the table is \<open>T'\<close>. What handlers decide is left open.
  \<^item> \<open>runs\<close> is the closure of a step relation over sequences of requests on the wire, and
    \<open>conforms\<close> that of \<open>permits\<close>.
  \<^item> \<open>daemon_conforms\<close> shows that every run of the daemon over well-behaved handlers is one of
    the specification. What clients can rely on then follows from \<open>conforms\<close> alone, by rule
    induction.
\<close>

section \<open>The specification\<close>

type_synonym table = "u16 \<rightharpoonup> string \<times> u16"

definition granted :: "table \<Rightarrow> u16 \<Rightarrow> u16 \<Rightarrow> bool" where
  "granted T s flag = (case T s of None \<Rightarrow> False | Some (p, f) \<Rightarrow> has_flag f flag)"

text \<open>
  An \<open>open\<close> may end stale sessions, successful or not: \<open>T0\<close> is what is left of the table. It does
  not if the flags are for neither reading nor writing, or no session number is free.
\<close>

inductive permits :: "table \<Rightarrow> client_request \<Rightarrow> reply \<Rightarrow> table \<Rightarrow> bool" where
  counted: "permits T GetCount (Answer (le32 n)) T"
| listed: "p \<noteq> [] \<Longrightarrow> permits T (Enumerate i) (Answer (c_str_bytes p)) T"
| not_listed: "permits T (Enumerate i) NoSuchEntry T"
| opened: "T s = None \<Longrightarrow> has_flag f read_or_write \<Longrightarrow> T0 \<subseteq>\<^sub>m T \<Longrightarrow>
    permits T (Open f p) (Answer (le16 s)) (T0(s \<mapsto> (p, f)))"
| not_opened: "T0 \<subseteq>\<^sub>m T \<Longrightarrow> T0 = T \<or> has_flag f read_or_write \<and> (\<exists>s. T s = None) \<Longrightarrow>
    permits T (Open f p) Refused T0"
| read: "granted T s OpenFlags_read \<Longrightarrow> permits T (Read s off n) (Answer d) T"
| not_read: "permits T (Read s off n) (Answer []) T"
| written: "granted T s OpenFlags_write \<Longrightarrow> permits T (Write s off d) Acknowledged T"
| not_written: "permits T (Write s off d) Refused T"
| committed: "T s \<noteq> None \<Longrightarrow> permits T (Commit s d) Acknowledged T"
| not_committed: "permits T (Commit s d) Refused T"
| closed: "T s \<noteq> None \<Longrightarrow> permits T (Close s) Acknowledged (T(s := None))"
| not_closed: "permits T (Close s) Refused T"
| deleted: "p \<notin> fst ` ran T \<Longrightarrow> permits T (Delete p) Acknowledged T"
| not_deleted: "permits T (Delete p) Refused T"
| path_described: "permits T (Stat p) (Answer (stat_body st sz md)) T"
| path_not_described: "permits T (Stat p) Refused T"
| described: "T s \<noteq> None \<Longrightarrow> permits T (SessionStat s) (Answer (stat_body st sz md)) T"
| not_described: "permits T (SessionStat s) Refused T"
| meta_written: "T s \<noteq> None \<Longrightarrow> permits T (WriteMeta s off d) Acknowledged T"
| meta_not_written: "permits T (WriteMeta s off d) Refused T"

inductive_cases permitsE: "permits T q r T'"

inductive_simps permits_simps:
  "permits T (Open f p) r T'" "permits T (Read s off n) r T'" "permits T (Write s off d) r T'"
  "permits T (Commit s d) r T'" "permits T (Close s) r T'" "permits T (Delete p) r T'"
  "permits T (SessionStat s) r T'" "permits T (WriteMeta s off d) r T'"

text \<open>
  Runs on the wire, for any such step relation: the requests can be any bytes, on any channels,
  and one that does not decode is turned away.
\<close>

inductive runs ::
    "(bytes \<Rightarrow> u16) \<Rightarrow> ('c \<Rightarrow> nat) \<Rightarrow> ('v \<Rightarrow> client_request \<Rightarrow> reply \<Rightarrow> 'v \<Rightarrow> bool)
       \<Rightarrow> 'v \<Rightarrow> 'c request list \<Rightarrow> resp list \<Rightarrow> 'v \<Rightarrow> bool"
  for crc :: "bytes \<Rightarrow> u16" and maxTransfer :: "'c \<Rightarrow> nat"
    and step :: "'v \<Rightarrow> client_request \<Rightarrow> reply \<Rightarrow> 'v \<Rightarrow> bool" where
  no_request: "runs crc maxTransfer step V [] [] V"
| turned_away: "decode crc (req_cmd q) (req_data q) = Inl r \<Longrightarrow>
    runs crc maxTransfer step V qs rs V' \<Longrightarrow> runs crc maxTransfer step V (q # qs) (r # rs) V'"
| served: "decode crc (req_cmd q) (req_data q) = Inr c \<Longrightarrow> step V c rp V1 \<Longrightarrow>
    runs crc maxTransfer step V1 qs rs V' \<Longrightarrow>
    runs crc maxTransfer step V (q # qs) (respond crc (maxTransfer (req_channel q)) rp # rs) V'"

abbreviation conforms ::
    "(bytes \<Rightarrow> u16) \<Rightarrow> ('c \<Rightarrow> nat) \<Rightarrow> table \<Rightarrow> 'c request list \<Rightarrow> resp list \<Rightarrow> table \<Rightarrow> bool" where
  "conforms crc maxTransfer \<equiv> runs crc maxTransfer permits"

text \<open>A served request whose reply is given by an equation.\<close>

lemma served_reply:
  "decode crc (req_cmd q) (req_data q) = Inr c \<Longrightarrow> step V c rp V1 \<Longrightarrow>
   runs crc maxTransfer step V1 qs rs V' \<Longrightarrow> r = respond crc (maxTransfer (req_channel q)) rp \<Longrightarrow>
   runs crc maxTransfer step V (q # qs) (r # rs) V'"
  by (simp add: served)

text \<open>A manager whose calls are steps under a view of its state gives runs.\<close>

lemma serve_runs:
  assumes h: "blob_handler gbi hinv live accepts"
    and step: "\<And>m q r m'. mgr_inv hinv live m \<Longrightarrow> perform (BlobManager_methods gbi) q m = Some (r, m') \<Longrightarrow>
      step (view m) q r (view m')"
  shows "mgr_inv hinv live m \<Longrightarrow> \<exists>rs m'. serve crc gbi maxTransfer t clk qs (Some m) = Some (rs, Some m')
    \<and> mgr_inv hinv live m' \<and> runs crc maxTransfer step (view m) qs rs (view m')"
proof (induction qs arbitrary: m)
  case Nil
  then show ?case by (simp add: no_request)
next
  case (Cons q qs)
  let ?max = "maxTransfer (req_channel q)" and ?dec = "decode crc (req_cmd q) (req_data q)"
  obtain r m1 where hd: "handleBlobCommand crc gbi t clk (req_cmd q) (req_data q) ?max (Some m) = Some (r, Some m1)"
    and m1: "mgr_inv hinv live m1"
    using blob_handler.handleBlobCommand_safe [OF h, of "Some m" crc t clk "req_cmd q" "req_data q" ?max]
      Cons.prems by (auto elim!: ok_pairE)
  obtain rs m' where tl: "serve crc gbi maxTransfer t clk qs (Some m1) = Some (rs, Some m')"
    and m': "mgr_inv hinv live m'" "runs crc maxTransfer step (view m1) qs rs (view m')"
    using Cons.IH [OF m1] by blast
  have "runs crc maxTransfer step (view m) (q # qs) (r # rs) (view m')"
  proof (cases ?dec)
    case (Inl r')
    then show ?thesis
      using hd m'(2) by (auto simp: handle_meaning getBlobManager_def intro: turned_away)
  next
    case (Inr c)
    then obtain rp where p: "perform (BlobManager_methods gbi) c m = Some (rp, m1)"
      and r: "r = respond crc ?max rp"
      using hd by (auto simp: handle_meaning getBlobManager_def bind_eq_Some_conv)
    show ?thesis
      unfolding r by (rule served [OF Inr step [OF Cons.prems p] m'(2)])
  qed
  then show ?case
    using hd tl m'(1) by (simp add: oem_handler_def)
qed

section \<open>The refinement\<close>

definition open_table :: "'h BlobManager \<Rightarrow> table" where
  "open_table m s = map_option (\<lambda>si. (blobId si, flags si)) (sessions m s)"

lemma open_table_cong: "sessions m' = sessions m \<Longrightarrow> open_table m' = open_table m"
  by (simp add: open_table_def fun_eq_iff)

lemma open_table_None [simp]: "open_table m s = None \<longleftrightarrow> sessions m s = None"
  by (simp add: open_table_def)

lemma open_table_paths: "p \<in> fst ` ran (open_table m) \<longleftrightarrow> sessions_on m p \<noteq> {}"
  by (force simp: open_table_def ran_def sessions_on_def)

lemma session_call_granted:
  assumes "index_inv m" and "do { (found, m) \<leftarrow> getActionHandler s req m;
      case found of None \<Rightarrow> Some (d, m) | Some hp \<Rightarrow> call_handler hp f m } = Some (r, m')"
  shows "open_table m' = open_table m \<and> (granted (open_table m) s req \<or> r = d)"
proof (cases "sessions m s")
  case None
  then show ?thesis
    using assms(2) by (simp add: getActionHandler_None)
next
  case (Some si)
  obtain i fl where fl: "flags si = fl" and ga: "getActionHandler s req m =
      (if has_flag fl req then Some (Some i, touch s si m) else Some (None, m))"
    by (rule action_dispatch [OF assms(1) Some]) metis
  have touched: "open_table (touch s si m) = open_table m"
    using Some by (auto simp: open_table_def touch_def fun_eq_iff)
  show ?thesis
  proof (cases "has_flag fl req")
    case True
    then have "sessions m' = sessions (touch s si m)"
      using assms(2) ga by (auto dest: call_handler_sessions)
    then show ?thesis
      using True Some fl touched open_table_cong [of m' "touch s si m"]
      by (simp add: granted_def) (simp add: open_table_def)
  next
    case False
    then show ?thesis
      using assms(2) ga by simp
  qed
qed

lemmas session_call_defs = BlobManager_stat_def BlobManager_commit_def BlobManager_read_def
  BlobManager_write_def BlobManager_writeMeta_def

lemma close_fails_table:
  "BlobManager_close gbi s m = Some (False, m') \<Longrightarrow> table_of m' = table_of m"
  by (auto simp: BlobManager_close_def bind_eq_Some_conv split: option.splits if_splits
      dest!: getActionHandler_table call_handler_table)

lemma open_table_table: "open_table m s = map_option (\<lambda>si. (blobId si, flags si)) (table_of m s)"
  by (simp add: open_table_def table_of_def option.map_comp comp_def)

lemma open_table_of: "table_of m' = table_of m \<Longrightarrow> open_table m' = open_table m"
  by (simp add: open_table_table fun_eq_iff)

lemma granted_open: "granted T s req \<Longrightarrow> T s \<noteq> None"
  by (auto simp: granted_def split: option.splits)

lemma expired_table:
  "only_expired m m' s \<Longrightarrow> open_table m' s = open_table m s \<or> open_table m' s = None"
  by (auto simp: only_expired_def open_table_def)

lemma shrunk_le: "(\<And>s. T' s = T s \<or> T' s = None) \<Longrightarrow> T' \<subseteq>\<^sub>m T"
  by (metis domIff map_le_def)

text \<open>What an \<open>open\<close> has done: \<open>so\<close> is the session it handed out, if any.\<close>

lemma open_effect_permits:
  assumes eff: "\<And>s. if so = Some s
      then sessions m s = None \<and> has_flag f read_or_write \<and> (\<exists>i t. sessions m' s =
        Some \<lparr>blobId = p, handler = Some i, flags = f, lastActionTime = t\<rparr>)
      else only_expired m m' s"
    and same: "sessions m' = sessions m \<or> has_flag f read_or_write \<and> (\<exists>s. sessions m s = None)"
  shows "permits (open_table m) (Open f p) (case so of None \<Rightarrow> Refused | Some s \<Rightarrow> Answer (le16 s))
    (open_table m')"
proof (cases so)
  case None
  then have "open_table m' s' = open_table m s' \<or> open_table m' s' = None" for s'
    using eff [of s'] by (intro expired_table) simp
  then have "open_table m' \<subseteq>\<^sub>m open_table m"
    by (rule shrunk_le)
  then show ?thesis
    using None same open_table_cong [of m' m] by (auto intro!: not_opened)
next
  case (Some s)
  let ?T0 = "(open_table m')(s := None)"
  have fresh: "sessions m s = None" and f: "has_flag f read_or_write"
    and at: "open_table m' s = Some (p, f)"
    using eff [of s] Some by (auto simp: open_table_def)
  have "?T0 s' = open_table m s' \<or> ?T0 s' = None" for s'
    using eff [of s'] Some expired_table [of m m' s'] by (cases "s' = s") simp_all
  then have "?T0 \<subseteq>\<^sub>m open_table m"
    by (rule shrunk_le)
  then have "permits (open_table m) (Open f p) (Answer (le16 s)) (?T0(s \<mapsto> (p, f)))"
    using fresh f by (intro opened) simp_all
  moreover have "?T0(s \<mapsto> (p, f)) = open_table m'"
    using at by (simp add: fun_eq_iff)
  ultimately show ?thesis
    using Some by simp
qed

text \<open>Without the flags or a free number \<open>open\<close> does not get as far as the stale sessions.\<close>

lemma open_without_number:
  assumes "BlobManager_open gbi f p q m = Some (r, m')"
    and "\<not> (has_flag f read_or_write \<and> (\<exists>s. sessions m s = None))"
  shows "sessions m' = sessions m"
proof -
  obtain found m1 where gh: "getHandler gbi p m = Some (found, m1)" and m1: "sessions m1 = sessions m"
    using assms(1) by (auto simp: BlobManager_open_def bind_eq_Some_conv dest: getHandler_sessions)
  obtain so m2 where gs: "getSession q m1 = (so, m2)" and m2: "sessions m2 = sessions m1"
    using getSession_frame [of q m1] by (cases "getSession q m1") auto
  have "\<not> has_flag f read_or_write" if "so \<noteq> None"
    using that getSession_fresh [of q m1] gs m1 assms(2) by (metis option.exhaust)
  then show ?thesis
    using assms(1) gh gs m1 m2 by (auto simp: BlobManager_open_def split: option.splits if_splits)
qed

lemma open_permits:
  assumes "blob_handler gbi hinv live accepts" and "mgr_inv hinv live m"
    and eq: "BlobManager_open gbi f p q m = Some ((b, so), m')" and s: "b \<longrightarrow> so = Some s"
  shows "permits (open_table m) (Open f p) (if b then Answer (le16 s) else Refused) (open_table m')"
proof -
  note o = ok_SomeD [OF blob_handler.BlobManager_open_ok [OF assms(1,2)] eq, simplified]
  have "if (if b then so else None) = Some s'
      then sessions m s' = None \<and> has_flag f read_or_write \<and> (\<exists>i t. sessions m' s' =
        Some \<lparr>blobId = p, handler = Some i, flags = f, lastActionTime = t\<rparr>)
      else only_expired m m' s'" for s'
    using o s by (cases b; cases "so = Some s'") (simp_all, metis+)
  moreover have "sessions m' = sessions m \<or> has_flag f read_or_write \<and> (\<exists>s. sessions m s = None)"
    using open_without_number [OF eq] by blast
  ultimately have "permits (open_table m) (Open f p)
      (case if b then so else None of None \<Rightarrow> Refused | Some s \<Rightarrow> Answer (le16 s)) (open_table m')"
    by (rule open_effect_permits)
  then show ?thesis
    using s by (cases b) simp_all
qed

lemma close_permits:
  assumes "blob_handler gbi hinv live accepts" and "mgr_inv hinv live m"
    and eq: "BlobManager_close gbi s m = Some (b, m')"
  shows "permits (open_table m) (Close s) (if b then Acknowledged else Refused) (open_table m')"
proof -
  note c = ok_SomeD [OF blob_handler.BlobManager_close_ok [OF assms(1,2)] eq, simplified]
  have other: "open_table m' s' = open_table m s'" if "s' \<noteq> s" for s'
    using close_frame [OF eq that] by (simp add: open_table_def)
  show ?thesis
  proof (cases b)
    case True
    then have "s \<notin> dom (sessions m')" and s: "s \<in> dom (sessions m)"
      using c by auto
    then have "open_table m' = (open_table m)(s := None)"
      using other by (intro ext) (simp add: domIff)
    then show ?thesis
      using True s by (simp add: closed domIff)
  next
    case False
    have "open_table m' = open_table m"
      using eq False by (intro open_table_of close_fails_table [of gbi s]) simp
    then show ?thesis
      using False by (simp add: not_closed)
  qed
qed

lemma perform_permits:
  assumes h: "blob_handler gbi hinv live accepts" and m: "mgr_inv hinv live m"
    and eq: "perform (BlobManager_methods gbi) q m = Some (rp, m')"
  shows "permits (open_table m) q rp (open_table m')"
proof (cases q)
  case GetCount
  then have "open_table m' = open_table m"
    using eq by (intro open_table_cong) (auto simp: buildBlobList_def bind_eq_Some_conv)
  then show ?thesis
    using eq GetCount by (auto simp: bind_eq_Some_conv intro: counted)
next
  case (Enumerate i)
  then show ?thesis
    using eq by (auto intro: listed not_listed)
next
  case (Open f p)
  then obtain b so where o: "BlobManager_open gbi f p out_param m = Some ((b, so), m')"
    and rp: "if b then \<exists>s. so = Some s \<and> rp = Answer (le16 s) else rp = Refused"
    using eq by (auto simp: bind_eq_Some_conv split: if_splits)
  then show ?thesis
    using open_permits [OF h m o] Open by (cases b) auto
next
  case (Close s)
  then show ?thesis
    using eq close_permits [OF h m, of s] by (fastforce simp: acknowledge_def bind_eq_Some_conv)
next
  case (Delete p)
  then obtain b where d: "BlobManager_deleteBlob gbi p m = Some (b, m')"
    and rp: "rp = (if b then Acknowledged else Refused)"
    using eq by (auto simp: acknowledge_def bind_eq_Some_conv)
  have "open_table m' = open_table m"
    using path_call_sessions(2) [OF d] by (rule open_table_cong)
  moreover have "p \<notin> fst ` ran (open_table m)" if b
    using ok_SomeD [OF blob_handler.BlobManager_deleteBlob_ok [OF h m] d] that
    by (simp add: open_table_paths)
  ultimately show ?thesis
    using rp Delete by (cases b) (auto intro: deleted not_deleted)
next
  case (Stat p)
  then show ?thesis
    using eq path_call_sessions(1) [of gbi p uninit_meta m _ m'] open_table_cong [of m' m]
    by (fastforce simp: describe_def bind_eq_Some_conv intro: path_described path_not_described
        split: if_splits)
qed (use eq session_call_granted [OF mgr_inv_index [OF m]] granted_open in
  \<open>fastforce simp: session_call_defs acknowledge_def describe_def bind_eq_Some_conv
     intro: permits.intros split: if_splits\<close>)+

lemma serve_conforms:
  assumes "blob_handler gbi hinv live accepts" and "mgr_inv hinv live m"
  shows "\<exists>rs m'. serve crc gbi maxTransfer t clk qs (Some m) = Some (rs, Some m')
    \<and> mgr_inv hinv live m' \<and> conforms crc maxTransfer (open_table m) qs rs (open_table m')"
  by (rule serve_runs [where step = permits and view = open_table, OF assms(1) perform_permits [OF assms(1)] assms(2)])

section \<open>What the specification guarantees\<close>

text \<open>The reply \<open>r\<close> to the request \<open>q\<close> hands out the session \<open>s\<close>, or ends it.\<close>

definition hands_out :: "(bytes \<Rightarrow> u16) \<Rightarrow> ('c \<Rightarrow> nat) \<Rightarrow> u16 \<Rightarrow> 'c request \<times> resp \<Rightarrow> bool" where
  "hands_out crc maxTransfer s = (\<lambda>(q, r).
     (case decode crc (req_cmd q) (req_data q) of
        Inr (Open f p) \<Rightarrow> r = framed crc (maxTransfer (req_channel q)) (le16 s)
      | _ \<Rightarrow> False))"

definition opens :: "(bytes \<Rightarrow> u16) \<Rightarrow> 'c request \<Rightarrow> bool" where
  "opens crc q = (case decode crc (req_cmd q) (req_data q) of Inr (Open f p) \<Rightarrow> True | _ \<Rightarrow> False)"

definition ends :: "(bytes \<Rightarrow> u16) \<Rightarrow> u16 \<Rightarrow> 'c request \<times> resp \<Rightarrow> bool" where
  "ends crc s = (\<lambda>(q, r).
     decode crc (req_cmd q) (req_data q) = Inr (Close s) \<and> r = responseSuccess [])"

lemma map_le_None: "T0 \<subseteq>\<^sub>m T \<Longrightarrow> T s = None \<Longrightarrow> T0 s = None"
  by (metis domIff map_le_def)

lemma map_le_or_None: "T0 \<subseteq>\<^sub>m T \<Longrightarrow> T0 s = T s \<or> T0 s = None"
  by (metis domIff map_le_def)

lemma permits_free:
  "permits T c r T' \<Longrightarrow> T s = None \<Longrightarrow> \<not> (\<exists>f p. c = Open f p \<and> r = Answer (le16 s)) \<Longrightarrow> T' s = None"
proof (induction rule: permits.induct)
  case (opened T s' f T0 p)
  then show ?case
    using map_le_None [of T0 T s] by (cases "s' = s") simp_all
qed (simp_all add: map_le_None)

lemma permits_kept:
  "permits T c r T' \<Longrightarrow> \<not> (\<exists>f p. c = Open f p) \<Longrightarrow> \<not> (c = Close s \<and> r = Acknowledged) \<Longrightarrow> T' s = T s"
  by (induction rule: permits.induct) auto

lemma conforms_free:
  "conforms crc maxTransfer T qs rs T' \<Longrightarrow> T s = None \<Longrightarrow>
   list_all (\<lambda>qr. \<not> hands_out crc maxTransfer s qr) (zip qs rs) \<Longrightarrow> T' s = None"
proof (induction rule: runs.induct)
  case (served q c T rp T1 qs rs T')
  have "T1 s = None"
    using served.prems by (intro permits_free [OF served.hyps(2)]) (auto simp: hands_out_def served.hyps(1))
  then show ?case
    using served by simp
qed simp_all

text \<open>The session a request names.\<close>

fun session_of :: "client_request \<Rightarrow> u16 option" where
  "session_of (Read s off n) = Some s"
| "session_of (Write s off d) = Some s"
| "session_of (Commit s d) = Some s"
| "session_of (Close s) = Some s"
| "session_of (SessionStat s) = Some s"
| "session_of (WriteMeta s off d) = Some s"
| "session_of _ = None"

definition denial :: "client_request \<Rightarrow> reply" where
  "denial q = (case q of GetCount \<Rightarrow> Answer (le32 0) | Read s off n \<Rightarrow> Answer [] | _ \<Rightarrow> Refused)"

lemma perform_unknown:
  "session_of q = Some s \<Longrightarrow> sessions m s = None \<Longrightarrow>
   perform (BlobManager_methods gbi) q m = Some (denial q, m)"
  by (cases q) (auto simp: denial_def session_call_defs BlobManager_close_def getActionHandler_None
      acknowledge_def describe_def)

lemma framed_session:
  assumes "framed crc maxSize (le16 s) = framed crc maxSize (le16 s')" and "4 \<le> maxSize"
  shows "s = s'"
proof -
  have "drop 2 (with_crc crc (le16 s)) = drop 2 (with_crc crc (le16 s'))"
    using assms by (simp add: framed_def)
  then have "u16_at (le16 s) 0 = u16_at (le16 s') 0"
    by (simp add: with_crc_def)
  then show ?thesis
    by (simp only: at_le)
qed

section \<open>Properties\<close>

text \<open>
  C4: The daemon follows its protocol, whatever handlers are loaded, as long as they keep
  their contract. From every state with the invariant, every sequence of requests, well formed
  or not, is served without undefined behaviour, and the replies together with the table of
  open sessions are a run of the specification \<open>permits\<close>.
\<close>

theorem daemon_conforms:
  assumes "blob_handler gbi hinv live accepts" and "mgr_inv hinv live m"
  shows "\<exists>rs m'. serve crc gbi maxTransfer t clk qs (Some m) = Some (rs, Some m')
    \<and> mgr_inv hinv live m' \<and> conforms crc maxTransfer (open_table m) qs rs (open_table m')"
  by (rule serve_conforms [OF assms])

lemma daemon_conforms_witness:
  "\<exists>rs m'. serve demo_crc expiring_methods (\<lambda>c :: nat. 64) 0 (\<lambda>k. 0)
      [\<lparr>req_channel = 0, req_cmd = 2, req_data = with_crc demo_crc (open_body 3 supportedPath)\<rparr>]
      (Some demo_old) = Some (rs, Some m')
    \<and> conforms demo_crc (\<lambda>c :: nat. 64) (open_table demo_old)
        [\<lparr>req_channel = 0, req_cmd = 2, req_data = with_crc demo_crc (open_body 3 supportedPath)\<rparr>]
        rs (open_table m')"
  using daemon_conforms [OF expiring.blob_handler_axioms demo_old_inv, of demo_crc "\<lambda>c :: nat. 64" 0 "\<lambda>k. 0"
      "[\<lparr>req_channel = 0, req_cmd = 2, req_data = with_crc demo_crc (open_body 3 supportedPath)\<rparr>]"]
  by blast

text \<open>
  C7: Nobody can use a session that is not open. As long as no open request has been answered
  with its number, whatever else was requested, every request that names the session is
  refused, a read with no data, without a call of any handler and without any effect.
\<close>

theorem closed_session_refused:
  assumes "blob_handler gbi hinv live accepts" and "mgr_inv hinv live m" and "sessions m s = None"
    and "serve crc gbi maxTransfer t clk qs (Some m) = Some (rs, Some m')"
    and "list_all (\<lambda>qr. \<not> hands_out crc maxTransfer s qr) (zip qs rs)"
    and "decode crc cmd d = Inr q" and "session_of q = Some s"
  shows "handleBlobCommand crc gbi t' clk' cmd d maxSize (Some m') =
    Some (respond crc maxSize (denial q), Some m')"
proof -
  have "conforms crc maxTransfer (open_table m) qs rs (open_table m')"
    using serve_conforms [OF assms(1,2), of crc maxTransfer t clk qs] assms(4) by simp
  then have "open_table m' s = None"
    by (rule conforms_free) (simp add: assms(3), rule assms(5))
  then have "perform (BlobManager_methods gbi) q m' = Some (denial q, m')"
    by (intro perform_unknown [OF assms(7)]) simp
  then show ?thesis
    by (simp only: handle_meaning getBlobManager_def assms(6) Let_def option.case sum.case
        Option.bind.bind_lunit prod.case)
qed

lemma closed_session_refused_witness:
  "handleBlobCommand demo_crc ExampleBlobHandler_methods 0 (\<lambda>k. 0) 4
     (with_crc demo_crc (write_body 5 0 [1])) 64
     (Some (demo_start\<lparr>next_session := 6, openSessions := [0 \<mapsto> {}]\<rparr>)) =
   Some (responseUnspecifiedError, Some (demo_start\<lparr>next_session := 6, openSessions := [0 \<mapsto> {}]\<rparr>))"
proof -
  let ?m = "demo_start\<lparr>next_session := 6, openSessions := [0 \<mapsto> {}]\<rparr>"
  have "mgr_inv example_inv example_live ?m"
    using ok_SomeD [OF example.BlobManager_close_ok [OF demo_open_inv] demo_close] by simp
  moreover have "decode demo_crc 4 (with_crc demo_crc (write_body 5 0 [1])) = Inr (Write 5 0 [1])"
    using decode_encoded [of "Write 5 0 [1]" demo_crc] by simp
  moreover have "sessions ?m 5 = None"
    by (simp add: demo_start_def new_BlobManager_def)
  ultimately show ?thesis
    using closed_session_refused [OF example.blob_handler_axioms, of ?m 5 demo_crc "\<lambda>c :: nat. 64" 0
        "\<lambda>k. 0" "[]" "[]" ?m 4 "with_crc demo_crc (write_body 5 0 [1])" "Write 5 0 [1]" 0 "\<lambda>k. 0" 64]
    by (simp add: denial_def)
qed

text \<open>A request, while the session \<open>s\<close> is open and the request is not an acknowledged close of it.\<close>

lemma request_and_session:
  assumes "blob_handler gbi hinv live accepts" and "mgr_inv hinv live m" and "sessions m s \<noteq> None"
    and eq: "serve crc gbi maxTransfer t clk [q] (Some m) = Some ([r], Some m1)"
    and "\<not> ends crc s (q, r)" and "4 \<le> maxTransfer (req_channel q)"
  shows "\<not> hands_out crc maxTransfer s (q, r)
    \<and> (open_table m1 s = open_table m s \<or> opens crc q \<and> open_table m1 s = None)"
proof -
  let ?max = "maxTransfer (req_channel q)"
  have hd: "handleBlobCommand crc gbi t clk (req_cmd q) (req_data q) ?max (Some m) = Some (r, Some m1)"
    using eq by (auto simp: oem_handler_def bind_eq_Some_conv)
  show ?thesis
  proof (cases "decode crc (req_cmd q) (req_data q)")
    case (Inl r')
    then show ?thesis
      using hd by (simp add: handle_meaning getBlobManager_def hands_out_def)
  next
    case (Inr c)
    then obtain rp where p: "perform (BlobManager_methods gbi) c m = Some (rp, m1)" and r: "r = respond crc ?max rp"
      using hd by (auto simp: handle_meaning getBlobManager_def bind_eq_Some_conv)
    have perm: "permits (open_table m) c rp (open_table m1)"
      by (rule perform_permits [OF assms(1,2) p])
    show ?thesis
    proof (cases "\<exists>f p. c = Open f p")
      case False
      then have "\<not> (c = Close s \<and> rp = Acknowledged)"
        using assms(5) Inr r by (auto simp: ends_def)
      then have "open_table m1 s = open_table m s"
        by (rule permits_kept [OF perm False])
      then show ?thesis
        using Inr False by (cases c) (auto simp: hands_out_def)
    next
      case True
      then obtain f p where c: "c = Open f p"
        by blast
      consider s' T0 where "rp = Answer (le16 s')" "open_table m s' = None" "T0 \<subseteq>\<^sub>m open_table m"
          "open_table m1 = T0(s' \<mapsto> (p, f))"
        | "rp = Refused" "open_table m1 \<subseteq>\<^sub>m open_table m"
        using perm by (auto simp: c permits_simps)
      then show ?thesis
      proof cases
        case 1
        then have other: "s' \<noteq> s"
          using assms(3) by auto
        then have "r \<noteq> framed crc ?max (le16 s)"
          using 1(1) framed_session [OF _ assms(6), of crc s' s] by (auto simp: r)
        moreover have "T0 s = open_table m s \<or> T0 s = None"
          using 1(3) by (rule map_le_or_None)
        ultimately show ?thesis
          using Inr 1(4) other by (auto simp: hands_out_def opens_def c)
      next
        case 2
        have "r \<noteq> framed crc ?max (le16 s)"
          using 2(1) assms(6) by (simp add: r framed_def)
        moreover have "open_table m1 s = open_table m s \<or> open_table m1 s = None"
          using 2(2) by (rule map_le_or_None)
        ultimately show ?thesis
          using Inr by (auto simp: hands_out_def opens_def c)
      qed
    qed
  qed
qed

text \<open>
  C8: The number of an open session is not handed out again. Serve any requests, opens included,
  none of which is an acknowledged close of the session, on channels that can carry the reply to
  an open. Either the session keeps its path and flags to the end and none of the opens is
  answered with its number; or that holds up to an open request that ends the session, and this
  one is not answered with its number either.
\<close>

theorem open_number_not_reused:
  assumes "blob_handler gbi hinv live accepts" and "mgr_inv hinv live m" and "sessions m s \<noteq> None"
    and "serve crc gbi maxTransfer t clk qs (Some m) = Some (rs, Some m')"
    and "list_all (\<lambda>qr. \<not> ends crc s qr) (zip qs rs)"
    and "list_all (\<lambda>q. 4 \<le> maxTransfer (req_channel q)) qs"
  shows "\<exists>qs1 qs2 rs1 m1. qs = qs1 @ qs2
    \<and> serve crc gbi maxTransfer t clk qs1 (Some m) = Some (rs1, Some m1)
    \<and> open_table m1 s = open_table m s
    \<and> list_all (\<lambda>qr. \<not> hands_out crc maxTransfer s qr) (zip qs1 rs1)
    \<and> (qs2 = [] \<or> (\<exists>q qs3 r m2. qs2 = q # qs3 \<and> opens crc q
         \<and> serve crc gbi maxTransfer t clk [q] (Some m1) = Some ([r], Some m2)
         \<and> open_table m2 s = None \<and> \<not> hands_out crc maxTransfer s (q, r)))"
  using assms(2-)
proof (induction qs arbitrary: m rs)
  case Nil
  then show ?case by simp
next
  case (Cons q qs)
  obtain r rs' g where one: "serve crc gbi maxTransfer t clk [q] (Some m) = Some ([r], g)"
    and rest: "serve crc gbi maxTransfer t clk qs g = Some (rs', Some m')" and rs: "rs = r # rs'"
    using Cons.prems(3) by (auto simp: bind_eq_Some_conv)
  have "ok (serve crc gbi maxTransfer t clk [q] (Some m)) (\<lambda>(rs, g). static_inv hinv live g)"
    using blob_handler.serve_safe [OF assms(1), of "Some m" crc maxTransfer t clk "[q]"] Cons.prems(1)
    by (auto elim!: ok_mono)
  moreover have "g \<noteq> None"
    using blob_handler.handleBlobCommand_safe [OF assms(1), of "Some m" crc t clk "req_cmd q" "req_data q"
        "maxTransfer (req_channel q)"] one Cons.prems(1)
    by (auto simp: oem_handler_def bind_eq_Some_conv ok_iff)
  ultimately obtain m1 where g: "g = Some m1" and m1: "mgr_inv hinv live m1"
    using one by auto
  have step: "\<not> hands_out crc maxTransfer s (q, r)"
    "open_table m1 s = open_table m s \<or> opens crc q \<and> open_table m1 s = None"
    using request_and_session [OF assms(1) Cons.prems(1,2) one [unfolded g]] Cons.prems(4,5) by (simp_all add: rs)
  show ?case
  proof (cases "open_table m1 s = open_table m s")
    case False
    then have "opens crc q" and "open_table m1 s = None"
      using step(2) by blast+
    then have "\<exists>q' qs3 r m2. q # qs = q' # qs3 \<and> opens crc q'
         \<and> serve crc gbi maxTransfer t clk [q'] (Some m) = Some ([r], Some m2)
         \<and> open_table m2 s = None \<and> \<not> hands_out crc maxTransfer s (q', r)"
      using one [unfolded g] step(1) by blast
    then show ?thesis
      by (intro exI [of _ "[]"] exI [of _ "q # qs"] exI [of _ m]) simp
  next
    case True
    then have "sessions m1 s \<noteq> None"
      using Cons.prems(2) by (metis open_table_None)
    from Cons.IH [OF m1 this rest [unfolded g]] obtain qs1 qs2 rs1 m2 where ih: "qs = qs1 @ qs2"
      "serve crc gbi maxTransfer t clk qs1 (Some m1) = Some (rs1, Some m2)" "open_table m2 s = open_table m1 s"
      "list_all (\<lambda>qr. \<not> hands_out crc maxTransfer s qr) (zip qs1 rs1)"
      "qs2 = [] \<or> (\<exists>q qs3 r m3. qs2 = q # qs3 \<and> opens crc q
         \<and> serve crc gbi maxTransfer t clk [q] (Some m2) = Some ([r], Some m3)
         \<and> open_table m3 s = None \<and> \<not> hands_out crc maxTransfer s (q, r))"
      using Cons.prems(4,5) by (auto simp: rs)
    have "serve crc gbi maxTransfer t clk (q # qs1) (Some m) = Some (r # rs1, Some m2)"
      using one g ih(2) by (auto simp: bind_eq_Some_conv)
    moreover have "q # qs = (q # qs1) @ qs2" "open_table m2 s = open_table m s"
      "list_all (\<lambda>qr. \<not> hands_out crc maxTransfer s qr) (zip (q # qs1) (r # rs1))"
      using ih True step(1) by simp_all
    ultimately show ?thesis
      using ih(5) by blast
  qed
qed

lemma open_number_not_reused_witness:
  "\<exists>r m2. serve demo_crc ExampleBlobHandler_methods (\<lambda>c :: nat. 64) 0 (\<lambda>k. 0)
     [\<lparr>req_channel = 0, req_cmd = 2, req_data = with_crc demo_crc (open_body 3 supportedPath)\<rparr>] (Some demo_open) =
     Some ([r], Some m2) \<and> r \<noteq> framed demo_crc 64 (le16 5)"
proof -
  let ?q = "\<lparr>req_channel = 0 :: nat, req_cmd = 2, req_data = with_crc demo_crc (open_body 3 supportedPath)\<rparr>"
  have dec: "decode demo_crc 2 (with_crc demo_crc (open_body 3 supportedPath)) = Inr (Open 3 supportedPath)"
    using decode_encoded [of "Open 3 supportedPath" demo_crc] by simp
  obtain rs m' where sv: "serve demo_crc ExampleBlobHandler_methods (\<lambda>c :: nat. 64) 0 (\<lambda>k. 0) [?q] (Some demo_open) =
      Some (rs, Some m')"
    using serve_conforms [OF example.blob_handler_axioms demo_open_inv] by blast
  have "sessions demo_open 5 \<noteq> None" and "list_all (\<lambda>qr. \<not> ends demo_crc 5 qr) (zip [?q] rs)"
    by (cases rs; simp add: demo_open_def ends_def dec)+
  from open_number_not_reused [OF example.blob_handler_axioms demo_open_inv this(1) sv this(2)]
  obtain qs1 qs2 rs1 m1 where n: "[?q] = qs1 @ qs2"
    "serve demo_crc ExampleBlobHandler_methods (\<lambda>c :: nat. 64) 0 (\<lambda>k. 0) qs1 (Some demo_open) = Some (rs1, Some m1)"
    "list_all (\<lambda>qr. \<not> hands_out demo_crc (\<lambda>c :: nat. 64) 5 qr) (zip qs1 rs1)"
    "qs2 = [] \<or> (\<exists>q qs3 r m2. qs2 = q # qs3
         \<and> serve demo_crc ExampleBlobHandler_methods (\<lambda>c :: nat. 64) 0 (\<lambda>k. 0) [q] (Some m1) = Some ([r], Some m2)
         \<and> \<not> hands_out demo_crc (\<lambda>c :: nat. 64) 5 (q, r))"
    by auto
  obtain r where r: "rs = [r]"
    using sv by (auto simp: bind_eq_Some_conv)
  have "\<not> hands_out demo_crc (\<lambda>c :: nat. 64) 5 (?q, r)"
  proof (cases qs1)
    case Nil
    then show ?thesis
      using n sv r by auto
  next
    case (Cons q qs)
    then have "qs1 = [?q]"
      using n(1) by simp
    then show ?thesis
      using n(2,3) sv r by simp
  qed
  then show ?thesis
    using sv r dec by (auto simp: hands_out_def)
qed

text \<open>
  C27: What an error reply tells. Whatever the request and the handlers, after a reply with an
  error code on a channel that can carry the reply to an open, no session has been opened; only
  an open request can have ended sessions, and no other request has changed the table; and if the
  error is one of length or of a field, the manager has not been called or has not changed at all.
\<close>

theorem error_reply_effects:
  assumes "blob_handler gbi hinv live accepts" and "mgr_inv hinv live m"
    and eq: "handleBlobCommand crc gbi t clk cmd d maxSize (Some m) = Some ((cc, p), Some m')"
    and "cc \<noteq> ccSuccess" and "4 \<le> maxSize"
  shows "open_table m' \<subseteq>\<^sub>m open_table m
    \<and> ((\<nexists>f path. decode crc cmd d = Inr (Open f path)) \<longrightarrow> open_table m' = open_table m)
    \<and> (cc = ccReqDataLenInvalid \<or> cc = ccInvalidFieldRequest \<longrightarrow> m' = m)"
proof (cases "decode crc cmd d")
  case (Inl r)
  then show ?thesis
    using eq by (simp add: handle_meaning getBlobManager_def)
next
  case (Inr q)
  then obtain rp where p: "perform (BlobManager_methods gbi) q m = Some (rp, m')"
    and r: "(cc, p) = respond crc maxSize rp"
    using eq by (auto simp: handle_meaning getBlobManager_def bind_eq_Some_conv)
  have perm: "permits (open_table m) q rp (open_table m')"
    by (rule perform_permits [OF assms(1,2) p])
  have rp: "rp \<noteq> Acknowledged" "rp \<noteq> Answer (le16 s)" for s
    using r assms(4,5) by (auto simp: framed_def)
  have same: "open_table m' = open_table m" if "\<nexists>f path. q = Open f path"
    using perm that rp by (auto elim!: permitsE)
  moreover have "open_table m' \<subseteq>\<^sub>m open_table m"
  proof (cases "\<exists>f path. q = Open f path")
    case True
    then show ?thesis
      using perm rp by (auto simp: permits_simps)
  qed (use same in simp)
  moreover have "m' = m" if "cc = ccReqDataLenInvalid \<or> cc = ccInvalidFieldRequest"
  proof -
    have "rp = NoSuchEntry"
      using r that by (cases rp) (auto simp: framed_def split: if_splits)
    then show ?thesis
      using p by (cases q) (auto simp: acknowledge_def describe_def bind_eq_Some_conv split: if_splits)
  qed
  ultimately show ?thesis
    using Inr by auto
qed

text \<open>A close request with a wrong checksum.\<close>

lemma error_reply_effects_witness:
  "handleBlobCommand demo_crc ExampleBlobHandler_methods 0 (\<lambda>k. 0) 6 [9, 9, 5, 0] 64 (Some demo_open) =
     Some (responseUnspecifiedError, Some demo_open)
   \<and> open_table demo_open \<subseteq>\<^sub>m open_table demo_open"
proof -
  have "decode demo_crc 6 [9, 9, 5, 0] = Inl responseUnspecifiedError"
    by (simp add: decode_def command_of_def u16_at_def of_le16_def demo_crc_def)
  then have eq: "handleBlobCommand demo_crc ExampleBlobHandler_methods 0 (\<lambda>k. 0) 6 [9, 9, 5, 0] 64 (Some demo_open) =
      Some (responseUnspecifiedError, Some demo_open)"
    by (simp add: handle_meaning getBlobManager_def)
  then show ?thesis
    using error_reply_effects [OF example.blob_handler_axioms demo_open_inv eq] by simp
qed

end
