(* ===== verification/Protocol_Exceptions.thy ===== *)
theory Protocol_Exceptions
  imports Protocol Exceptions_Props
begin

unbundle bit_operations_syntax

text \<open>
  The protocol of the daemon over handlers that throw. To the table of open sessions an
  exception is a refusal: \<open>endures\<close> extends the runs of \<open>conforms\<close> by requests that end in an
  exception and leave the table as a request that has been denied. Every run of the daemon
  over handlers that may throw anywhere is one of these.
\<close>

section \<open>The specification\<close>

inductive endures ::
    "(bytes \<Rightarrow> u16) \<Rightarrow> ('c \<Rightarrow> nat) \<Rightarrow> table \<Rightarrow> 'c request list \<Rightarrow> resp outcome list \<Rightarrow> table \<Rightarrow> bool"
  for crc :: "bytes \<Rightarrow> u16" and maxTransfer :: "'c \<Rightarrow> nat" where
  no_request: "endures crc maxTransfer T [] [] T"
| turned_away: "decode crc (req_cmd q) (req_data q) = Inl r \<Longrightarrow>
    endures crc maxTransfer T qs rs T' \<Longrightarrow> endures crc maxTransfer T (q # qs) (Inr r # rs) T'"
| served: "decode crc (req_cmd q) (req_data q) = Inr c \<Longrightarrow> permits T c rp T1 \<Longrightarrow>
    endures crc maxTransfer T1 qs rs T' \<Longrightarrow>
    endures crc maxTransfer T (q # qs) (Inr (respond crc (maxTransfer (req_channel q)) rp) # rs) T'"
| thrown: "decode crc (req_cmd q) (req_data q) = Inr c \<Longrightarrow> permits T c (denial c) T1 \<Longrightarrow>
    endures crc maxTransfer T1 qs rs T' \<Longrightarrow> endures crc maxTransfer T (q # qs) (Inl e # rs) T'"

inductive_cases endures_replyE: "endures crc maxTransfer T qs (Inr r # rs) T'"

text \<open>Without exceptions it is the protocol as before.\<close>

lemma endures_conforms:
  "endures crc maxTransfer T qs (map Inr rs) T' \<longleftrightarrow> conforms crc maxTransfer T qs rs T'"
proof
  assume "endures crc maxTransfer T qs (map Inr rs) T'"
  then show "conforms crc maxTransfer T qs rs T'"
    by (induction T qs "map Inr rs :: resp outcome list" T' arbitrary: rs rule: endures.induct)
       (auto intro: runs.intros served_reply)
next
  assume "conforms crc maxTransfer T qs rs T'"
  then show "endures crc maxTransfer T qs (map Inr rs) T'"
    by (induction rule: runs.induct) (auto intro: endures.intros)
qed

section \<open>The refinement\<close>

lemma pendingD:
  "pending d x = Some (a, m', e) \<Longrightarrow>
   calm d x = Some (a, m') \<and> (case e of None \<Rightarrow> x = Some (Inr a, m') | Some e \<Rightarrow> x = Some (Inl e, m') \<and> a = d)"
  by (cases x rule: option.exhaust, simp add: pending_def)
     (auto simp: pending_def split: sum.split_asm)

lemma acknowledge_pending:
  "acknowledge (pending False x) = Some (rp, m', e) \<Longrightarrow>
   acknowledge (calm False x) = Some (rp, m') \<and> (e \<noteq> None \<longrightarrow> rp = Refused)"
  by (cases x) (auto simp: acknowledge_def pending_def calm_def split: sum.splits)

lemma describe_pending:
  assumes "describe (pending (False, mt) x) = Some (rp, m', e)"
  shows "describe (calm (False, mt) x) = Some (rp, m') \<and> (e \<noteq> None \<longrightarrow> rp = Refused)"
proof (cases x)
  case (Some rm)
  then show ?thesis
    using assms by (cases rm; cases "fst rm") (auto simp: describe_def pending_def bind_eq_Some_conv split: if_splits)
qed (use assms in \<open>simp add: describe_def pending_def\<close>)

text \<open>A session operation does what it does over the handlers that refuse instead.\<close>

lemma perform_calm:
  assumes "perform (Throwing_methods gbi) q (m, e0) = Some (rp, m', e)" and "session_of q = Some s"
  shows "perform (BlobManager_methods (tame gbi)) q m = Some (rp, m') \<and> (e \<noteq> None \<longrightarrow> rp = denial q)"
  using assms
  by (cases q) (auto simp: session_calls_calm close_calm denial_def bind_eq_Some_conv
      dest!: acknowledge_pending describe_pending pendingD)

lemma buildBlobList_exc_sessions:
  assumes "buildBlobList_exc gbi m = Some (r, m')"
  shows "sessions m' = sessions m"
proof -
  obtain o1 l hs where "collect_ids_exc gbi (handlers m) = Some (o1, l, hs)"
    using assms by (auto simp: buildBlobList_exc_def bind_eq_Some_conv)
  then show ?thesis
    using assms by (cases o1) (auto simp: buildBlobList_exc_def)
qed

lemma describe_result:
  "describe x = Some (rp, m') \<Longrightarrow> \<exists>b mt. x = Some ((b, mt), m')
     \<and> (if b then \<exists>st sz. rp = Answer (stat_body st sz (metadata mt)) else rp = Refused)"
  by (auto simp: describe_def bind_eq_Some_conv split: if_splits)

lemma open_exc_without_number:
  assumes "open_exc gbi f p q m = Some (r, m')"
    and "\<not> (has_flag f read_or_write \<and> (\<exists>s. sessions m s = None))"
  shows "sessions m' = sessions m"
proof -
  obtain found m1 where gh: "getHandler_exc gbi p m = Some (found, m1)"
    using assms(1) by (cases "getHandler_exc gbi p m") (auto simp: open_exc_def)
  have m1: "sessions m1 = sessions m"
    using getHandler_exc_frame [OF gh] by simp
  obtain so m2 where gs: "getSession q m1 = (so, m2)" and m2: "sessions m2 = sessions m1"
    using getSession_frame [of q m1] by (cases "getSession q m1") auto
  have "\<not> has_flag f read_or_write" if "so \<noteq> None"
    using that getSession_fresh [of q m1] gs m1 assms(2) by (metis option.exhaust)
  then show ?thesis
    using assms(1) gh gs m1 m2
    by (cases found) (auto simp: open_exc_def split: option.splits if_splits)
qed

context throwing_handler
begin

lemma open_exc_permits:
  assumes m: "minv m" and eq: "open_exc gbi f p q m = Some (r, m')"
  shows "permits (open_table m) (Open f p)
    (case r of Inr (True, Some s) \<Rightarrow> Answer (le16 s) | _ \<Rightarrow> Refused) (open_table m')"
proof -
  let ?so = "case r of Inr (True, so) \<Rightarrow> so | _ \<Rightarrow> None"
  have "if ?so = Some s then sessions m s = None \<and> has_flag f read_or_write \<and> (\<exists>i t. sessions m' s =
        Some \<lparr>blobId = p, handler = Some i, flags = f, lastActionTime = t\<rparr>)
      else only_expired m m' s" for s
    using spec [OF conjunct2 [OF conjunct2 [OF conjunct2 [OF ok_SomeD [OF open_exc_ok [OF m] eq, simplified]]]], of s]
    by (auto split: sum.splits bool.splits if_splits)
  moreover have "sessions m' = sessions m \<or> has_flag f read_or_write \<and> (\<exists>s. sessions m s = None)"
    using open_exc_without_number [OF eq] by blast
  ultimately have "permits (open_table m) (Open f p)
      (case ?so of None \<Rightarrow> Refused | Some s \<Rightarrow> Answer (le16 s)) (open_table m')"
    by (rule open_effect_permits)
  then show ?thesis
    by (auto split: sum.splits bool.splits option.splits)
qed

lemma perform_exc_permits:
  assumes m: "minv m" and eq: "perform (Throwing_methods gbi) q (m, e0) = Some (rp, m', e)"
  shows "permits (open_table m) q rp (open_table m') \<and> (e \<noteq> None \<longrightarrow> rp = denial q)"
proof (cases "session_of q")
  case (Some s)
  then show ?thesis
    using perform_calm [OF eq Some] perform_permits [OF blob_handler_axioms m, of q rp m'] by simp
next
  case None
  then show ?thesis
  proof (cases q)
    case GetCount
    then have "open_table m' = open_table m"
      using eq by (intro open_table_cong)
        (auto simp: bind_eq_Some_conv dest!: pendingD buildBlobList_exc_sessions split: option.splits)
    then show ?thesis
      using eq GetCount by (auto simp: bind_eq_Some_conv denial_def dest!: pendingD intro: counted)
  next
    case (Enumerate i)
    then show ?thesis
      using eq by (auto intro: listed not_listed)
  next
    case (Open f p)
    then obtain b so where o: "pending (False, None) (open_exc gbi f p out_param m) = Some ((b, so), m', e)"
      and rp: "if b then \<exists>s. so = Some s \<and> rp = Answer (le16 s) else rp = Refused"
      using eq by (auto simp: bind_eq_Some_conv split: if_splits)
    show ?thesis
      using pendingD [OF o] rp open_exc_permits [OF m] Open
      by (cases e; cases b) (fastforce simp: denial_def)+
  next
    case (Delete p)
    then obtain b where d: "pending False (deleteBlob_exc gbi p m) = Some (b, m', e)"
      and rp: "rp = (if b then Acknowledged else Refused)"
      using eq by (auto simp: acknowledge_def bind_eq_Some_conv)
    then have "open_table m' = open_table m \<and> (b \<longrightarrow> p \<notin> fst ` ran (open_table m))"
      using deleteBlob_exc_ok [OF m, of p] pendingD [OF d] open_table_cong [of m' m]
      by (auto simp: ok_iff open_table_paths split: option.splits)
    then show ?thesis
      using rp Delete pendingD [OF d]
      by (cases b) (auto simp: denial_def intro: deleted not_deleted split: option.splits)
  next
    case (Stat p)
    then obtain b mt where d: "pending (False, uninit_meta) (statPath_exc gbi p uninit_meta m) = Some ((b, mt), m', e)"
      and rp: "if b then \<exists>st sz. rp = Answer (stat_body st sz (metadata mt)) else rp = Refused"
      using eq by (auto dest!: describe_result)
    then have "open_table m' = open_table m"
      using statPath_exc_ok [OF m, of p uninit_meta] pendingD [OF d] open_table_cong [of m' m]
      by (auto simp: ok_iff split: option.splits)
    then show ?thesis
      using rp Stat pendingD [OF d]
      by (cases b) (auto simp: denial_def intro: path_described path_not_described split: option.splits)
  qed simp_all
qed

lemma handle_exc_endures:
  assumes m: "minv m"
    and eq: "handleBlobCommand_exc crc gbi t clk cmd d maxSize (Some m) = Some (r, Some m')"
  shows "case decode crc cmd d of
      Inl r' \<Rightarrow> r = Inr r' \<and> m' = m
    | Inr c \<Rightarrow> (\<exists>rp. permits (open_table m) c rp (open_table m')
         \<and> (case r of Inl e \<Rightarrow> rp = denial c | Inr r' \<Rightarrow> r' = respond crc maxSize rp))"
proof -
  let ?mgr = "Throwing_methods gbi"
  obtain r' e where "do { f \<leftarrow> validateBlobCommand crc cmd d;
      processBlobCommand crc f ?mgr d maxSize (m, None) } = Some (r', m', e)"
    and r: "r = (case e of None \<Rightarrow> Inr r' | Some e \<Rightarrow> Inl e)"
    using eq by (auto simp: handleBlobCommand_exc_def getBlobManager_def bind_eq_Some_conv)
  then have meaning: "(case decode crc cmd d of Inl r \<Rightarrow> Some (r, m, None)
      | Inr q \<Rightarrow> do { (rp, m) \<leftarrow> perform ?mgr q (m, None); Some (respond crc maxSize rp, m) }) =
      Some (r', m', e)"
    by (simp only: routing_meaning)
  show ?thesis
  proof (cases "decode crc cmd d")
    case (Inl x)
    then show ?thesis
      using meaning r by auto
  next
    case (Inr c)
    then obtain rp where p: "perform ?mgr c (m, None) = Some (rp, m', e)"
      and r': "r' = respond crc maxSize rp"
      using meaning by (auto simp: bind_eq_Some_conv)
    show ?thesis
      using perform_exc_permits [OF m p] r r' Inr by (auto split: option.splits)
  qed
qed

lemma serve_exc_endures:
  "minv m \<Longrightarrow> \<exists>rs m'. serve_exc crc gbi maxTransfer t clk qs (Some m) = Some (rs, Some m')
    \<and> minv m' \<and> endures crc maxTransfer (open_table m) qs rs (open_table m')"
proof (induction qs arbitrary: m)
  case Nil
  then show ?case by (simp add: no_request)
next
  case (Cons q qs)
  let ?max = "maxTransfer (req_channel q)"
  obtain r m1 where hd: "handleBlobCommand_exc crc gbi t clk (req_cmd q) (req_data q) ?max (Some m) =
      Some (r, Some m1)" and m1: "minv m1"
    using handleBlobCommand_exc_safe [of "Some m" crc t clk "req_cmd q" "req_data q" ?max] Cons.prems
    by (auto simp: handleBlobCommand_exc_def bind_eq_Some_conv elim!: ok_pairE)
  obtain rs m' where tl: "serve_exc crc gbi maxTransfer t clk qs (Some m1) = Some (rs, Some m')"
    and m': "minv m'" "endures crc maxTransfer (open_table m1) qs rs (open_table m')"
    using Cons.IH [OF m1] by blast
  have "endures crc maxTransfer (open_table m) (q # qs) (r # rs) (open_table m')"
    using handle_exc_endures [OF Cons.prems hd] m'(2)
    by (cases r) (auto intro: turned_away served thrown split: sum.splits)
  then show ?case
    using hd tl m'(1) by simp
qed

end

lemma denial_keeps:
  "permits T c (denial c) T1 \<Longrightarrow> \<not> (\<exists>f p. c = Open f p) \<Longrightarrow> T1 = T"
  by (cases c) (auto simp: denial_def elim: permits.cases)

lemma endures_kept:
  "endures crc maxTransfer T qs rs T' \<Longrightarrow> list_all (\<lambda>q. \<not> opens crc q) qs \<Longrightarrow>
   list_all (\<lambda>(q, r). case r of Inl e \<Rightarrow> True | Inr r \<Rightarrow> \<not> ends crc s (q, r)) (zip qs rs) \<Longrightarrow> T' s = T s"
proof (induction rule: endures.induct)
  case (served q c T rp T1 qs rs T')
  have "T1 s = T s"
    using served.prems
    by (intro permits_kept [OF served.hyps(2)]) (auto simp: opens_def ends_def served.hyps(1))
  then show ?case
    using served by simp
next
  case (thrown q c T T1 qs rs T' e)
  have "T1 = T"
    using thrown.prems by (intro denial_keeps [OF thrown.hyps(2)]) (auto simp: opens_def thrown.hyps(1))
  then show ?case
    using thrown by simp
qed simp_all

section \<open>Properties\<close>

text \<open>
  C12: The protocol survives exceptions. Take handlers that may throw in any of their methods,
  as long as one that throws has the sessions it had before the call. Whatever requests
  arrive, the outcomes, replies and exceptions, together with the table of open sessions are
  a run of the protocol in which an exception has the effect of a refusal; and when nothing
  has been thrown, the run is one of the protocol without exceptions.
\<close>

theorem protocol_survives_exceptions:
  assumes "blob_handler (tame gbi) hinv live accepts" and "mgr_inv hinv live m"
  shows "\<exists>rs m'. serve_exc crc gbi maxTransfer t clk qs (Some m) = Some (rs, Some m')
    \<and> mgr_inv hinv live m' \<and> endures crc maxTransfer (open_table m) qs rs (open_table m')
    \<and> (\<forall>rs'. rs = map Inr rs' \<longrightarrow> conforms crc maxTransfer (open_table m) qs rs' (open_table m'))"
  using throwing_handler.serve_exc_endures [OF throwing_handler.intro [OF assms(1)] assms(2),
      of crc maxTransfer t clk qs]
  by (auto simp: endures_conforms)

lemma protocol_survives_exceptions_witness:
  "\<exists>rs m'. serve_exc demo_crc faulty_methods (\<lambda>c :: nat. 64) 0 (\<lambda>k. 0)
      [\<lparr>req_channel = 0, req_cmd = 6, req_data = with_crc demo_crc (le16 5)\<rparr>] (Some demo_open) = Some (rs, Some m')
    \<and> endures demo_crc (\<lambda>c :: nat. 64) (open_table demo_open)
        [\<lparr>req_channel = 0, req_cmd = 6, req_data = with_crc demo_crc (le16 5)\<rparr>] rs (open_table m')"
  using protocol_survives_exceptions [OF faulty.blob_handler_axioms demo_open_inv, of demo_crc "\<lambda>c :: nat. 64"
      0 "\<lambda>k. 0" "[\<lparr>req_channel = 0, req_cmd = 6, req_data = with_crc demo_crc (le16 5)\<rparr>]"]
  by blast

text \<open>
  C13: Exceptions cost nobody a session. Through any requests other than open requests, over
  handlers that may throw at any point, a session keeps its path and flags until a close of
  it is acknowledged; a close that ends in an exception leaves it open, for another attempt.
  Nor does a session appear.
\<close>

theorem exceptions_lose_no_session:
  assumes "blob_handler (tame gbi) hinv live accepts" and "mgr_inv hinv live m"
    and "serve_exc crc gbi maxTransfer t clk qs (Some m) = Some (rs, Some m')"
    and "list_all (\<lambda>q. \<not> opens crc q) qs"
    and "list_all (\<lambda>(q, r). case r of Inl e \<Rightarrow> True | Inr r \<Rightarrow> \<not> ends crc s (q, r)) (zip qs rs)"
  shows "open_table m' s = open_table m s"
proof -
  have "endures crc maxTransfer (open_table m) qs rs (open_table m')"
    using throwing_handler.serve_exc_endures [OF throwing_handler.intro [OF assms(1)] assms(2),
        of crc maxTransfer t clk qs] assms(3)
    by simp
  then show ?thesis
    using assms(4,5) by (rule endures_kept)
qed

lemma faulty_close:
  "serve_exc demo_crc faulty_methods (\<lambda>c :: nat. 64) 0 (\<lambda>k. 0)
     [\<lparr>req_channel = 0, req_cmd = 6, req_data = with_crc demo_crc (le16 5)\<rparr>] (Some demo_open) =
   Some ([Inl ''close''], Some (touch 5 demo_session demo_open))"
proof -
  let ?d = "with_crc demo_crc (le16 5)"
  have dec: "decode demo_crc 6 ?d = Inr (Close 5)"
    using decode_encoded [of "Close 5" demo_crc] by simp
  have "close_exc faulty_methods 5 demo_open = Some (Inl ''close'', touch 5 demo_session demo_open)"
    by (simp add: close_exc_def getActionHandler_def steady_now_def touch_def
        call_handler_def faulty_methods_def demo_defs)
  then have "perform (Throwing_methods faulty_methods) (Close 5) (demo_open, None) =
      Some (Refused, touch 5 demo_session demo_open, Some ''close'')"
    by (simp add: pending_def acknowledge_def)
  then have "do { f \<leftarrow> validateBlobCommand demo_crc 6 ?d;
      processBlobCommand demo_crc f (Throwing_methods faulty_methods) ?d 64 (demo_open, None) } =
      Some (respond demo_crc 64 Refused, touch 5 demo_session demo_open, Some ''close'')"
    by (simp only: routing_meaning dec) simp
  then show ?thesis
    by (auto simp: handleBlobCommand_exc_def getBlobManager_def bind_eq_Some_conv)
qed

lemma exceptions_lose_no_session_witness:
  "open_table (touch 5 demo_session demo_open) 5 = open_table demo_open 5"
  by (rule exceptions_lose_no_session [OF faulty.blob_handler_axioms demo_open_inv faulty_close])
     (use decode_encoded [of "Close 5" demo_crc] in \<open>simp_all add: opens_def\<close>)

end
