(* ===== verification/Protocol_Runs.thy ===== *)
theory Protocol_Runs
  imports Protocol Timing
begin

unbundle bit_operations_syntax

text \<open>
  The protocol with all that determines a reply: besides the table of open sessions the next
  session number and the list of blobs of the last count request.

  \<^item> \<open>allows\<close> is the step relation; a request for an open session or a path is left to \<open>permits\<close>.
  \<^item> \<open>delivers\<close> are its runs over requests on the wire.
  \<^item> \<open>serve_delivers\<close>: every run of the daemon is one of these. The converse is in
    \<open>Protocol_Tight\<close>.
\<close>

section \<open>The specification\<close>

record proto =
  pt_table :: table
  pt_next :: u16
  pt_ids :: "string list"

text \<open>The first free number from \<open>n\<close> on; the last of the 65536 is not tried.\<close>

definition next_free :: "table \<Rightarrow> u16 \<Rightarrow> u16 option" where
  "next_free T n = map_option (\<lambda>k. n + word_of_nat k)
     (find (\<lambda>k. T (n + word_of_nat k) = None) [0..<65535])"

definition entry_at :: "string list \<Rightarrow> u32 \<Rightarrow> reply" where
  "entry_at l i = (if unat i < length l \<and> l ! unat i \<noteq> []
     then Answer (c_str_bytes (l ! unat i)) else NoSuchEntry)"

fun about_open :: "client_request \<Rightarrow> bool" where
  "about_open GetCount = False"
| "about_open (Enumerate i) = False"
| "about_open (Open f p) = False"
| "about_open _ = True"

text \<open>
  An \<open>open\<close> can be refused because no handler wants the path, because no number is free, for
  its flags, or by the handler; in all but the first case a number has been used up.
\<close>

inductive allows :: "proto \<Rightarrow> client_request \<Rightarrow> reply \<Rightarrow> proto \<Rightarrow> bool" where
  counted: "allows V GetCount (Answer (le32 (word_of_nat (length l)))) (V\<lparr>pt_ids := l\<rparr>)"
| listed: "allows V (Enumerate i) (entry_at (pt_ids V) i) V"
| nobody: "allows V (Open f p) Refused V"
| no_number: "next_free (pt_table V) (pt_next V) = None \<Longrightarrow>
    allows V (Open f p) Refused (V\<lparr>pt_next := pt_next V - 1\<rparr>)"
| no_flags: "next_free (pt_table V) (pt_next V) = Some s \<Longrightarrow> \<not> has_flag f read_or_write \<Longrightarrow>
    allows V (Open f p) Refused (V\<lparr>pt_next := s + 1\<rparr>)"
| turned_down: "next_free (pt_table V) (pt_next V) = Some s \<Longrightarrow> has_flag f read_or_write \<Longrightarrow>
    T0 \<subseteq>\<^sub>m pt_table V \<Longrightarrow> allows V (Open f p) Refused (V\<lparr>pt_table := T0, pt_next := s + 1\<rparr>)"
| opened: "next_free (pt_table V) (pt_next V) = Some s \<Longrightarrow> has_flag f read_or_write \<Longrightarrow>
    T0 \<subseteq>\<^sub>m pt_table V \<Longrightarrow>
    allows V (Open f p) (Answer (le16 s)) (V\<lparr>pt_table := T0(s \<mapsto> (p, f)), pt_next := s + 1\<rparr>)"
| others: "about_open q \<Longrightarrow> permits (pt_table V) q r T' \<Longrightarrow> allows V q r (V\<lparr>pt_table := T'\<rparr>)"

inductive_cases allowsE: "allows V q r V'"

abbreviation delivers ::
    "(bytes \<Rightarrow> u16) \<Rightarrow> ('c \<Rightarrow> nat) \<Rightarrow> proto \<Rightarrow> 'c request list \<Rightarrow> resp list \<Rightarrow> proto \<Rightarrow> bool" where
  "delivers crc maxTransfer \<equiv> runs crc maxTransfer allows"

section \<open>Every run of the daemon is one of the protocol\<close>

definition proto_of :: "'h BlobManager \<Rightarrow> proto" where
  "proto_of m = \<lparr>pt_table = open_table m, pt_next = next_session m, pt_ids = ids m\<rparr>"

lemma proto_of_sel [simp]:
  "pt_table (proto_of m) = open_table m" "pt_next (proto_of m) = next_session m"
  "pt_ids (proto_of m) = ids m"
  by (simp_all add: proto_of_def)

lemma proto_of_eqI:
  "open_table m = T \<Longrightarrow> next_session m = n \<Longrightarrow> ids m = l \<Longrightarrow>
   proto_of m = V\<lparr>pt_table := T, pt_next := n, pt_ids := l\<rparr>"
  by (simp add: proto_of_def)

lemma next_free_eq:
  "getSession out_param m = (case next_free (open_table m) (next_session m) of
       None \<Rightarrow> (None, m\<lparr>next_session := next_session m - 1\<rparr>)
     | Some s \<Rightarrow> (Some s, m\<lparr>next_session := s + 1\<rparr>))"
proof -
  have "(65535 :: u16) = - 1"
    by simp
  then have last: "next_session m + 65535 = next_session m - 1"
    by (metis add_uminus_conv_diff)
  show ?thesis
    unfolding getSession_find next_free_def open_table_None last by (simp split: option.split)
qed

lemma next_free_None: "next_free T n = Some s \<Longrightarrow> T s = None"
  by (auto simp: next_free_def find_Some_iff)

text \<open>What an operation leaves alone: \<open>next\<close> and \<open>ids\<close>.\<close>

definition same_lists :: "'h BlobManager \<Rightarrow> 'h BlobManager \<Rightarrow> bool" where
  "same_lists m m' \<longleftrightarrow> next_session m' = next_session m \<and> ids m' = ids m"

lemma same_lists_refl [simp]: "same_lists m m"
  by (simp add: same_lists_def)

lemma same_lists_trans: "same_lists a b \<Longrightarrow> same_lists b c \<Longrightarrow> same_lists a c"
  by (simp add: same_lists_def)

lemma same_lists_call: "call_handler i f m = Some (r, m') \<Longrightarrow> same_lists m m'"
  by (auto simp: call_handler_def same_lists_def bind_eq_Some_conv split: if_splits)

lemma same_lists_erase: "eraseSession i s m = Some m' \<Longrightarrow> same_lists m m'"
  by (simp add: same_lists_def eraseSession_frame)

lemma same_lists_action: "getActionHandler s req m = Some (r, m') \<Longrightarrow> same_lists m m'"
  by (auto simp: getActionHandler_def steady_now_def same_lists_def Let_def split: option.splits if_splits)

lemma same_lists_record: "record_session i s f p m = Some m' \<Longrightarrow> same_lists m m'"
  by (simp add: same_lists_def record_session_frame)

lemma same_lists_session_call:
  assumes "do { (found, m) \<leftarrow> getActionHandler s req m;
      case found of None \<Rightarrow> Some (d, m) | Some hp \<Rightarrow> call_handler hp f m } = Some (r, m')"
  shows "same_lists m m'"
  using assms same_lists_action same_lists_call same_lists_trans
  by (fastforce simp: bind_eq_Some_conv split: option.splits)

lemma same_lists_close:
  assumes "BlobManager_close gbi s m = Some (r, m')"
  shows "same_lists m m'"
proof -
  obtain q m1 where ga: "getActionHandler s any_flags m = Some (q, m1)"
    using assms by (auto simp: BlobManager_close_def bind_eq_Some_conv)
  show ?thesis
  proof (cases q)
    case (Some i)
    then obtain b m2 where "call_handler i (gbi_close gbi s) m1 = Some (b, m2)"
      and "if b then eraseSession i s m2 = Some m' else m' = m2"
      using assms ga by (auto simp: BlobManager_close_def bind_eq_Some_conv split: if_splits)
    then have "same_lists m1 m'"
      using same_lists_call same_lists_erase same_lists_trans by metis
    then show ?thesis
      using same_lists_action [OF ga] same_lists_trans by blast
  qed (use assms ga same_lists_action [OF ga] in \<open>simp add: BlobManager_close_def\<close>)
qed

lemma same_lists_handler: "getHandler gbi p m = Some (r, m') \<Longrightarrow> same_lists m m'"
  by (auto simp: getHandler_def same_lists_def bind_eq_Some_conv)

lemma same_lists_paths:
  "BlobManager_statPath gbi p mt m = Some (r, m') \<Longrightarrow> same_lists m m'"
  "BlobManager_deleteBlob gbi p m = Some (b, m') \<Longrightarrow> same_lists m m'"
  by (auto simp: BlobManager_statPath_def BlobManager_deleteBlob_def bind_eq_Some_conv Let_def same_lists_def
      split: option.splits if_splits dest!: same_lists_handler same_lists_call)

lemma le16_inj: "le16 s = le16 s' \<longleftrightarrow> s = s'"
  by (metis at_le(1))

lemma open_numbers:
  assumes "blob_handler gbi hinv live accepts" and "mgr_inv hinv live m"
    and eq: "BlobManager_open gbi f p out_param m = Some ((b, so), m')"
  shows "ids m' = ids m \<and>
    (next_session m' = next_session m \<and> \<not> b \<and> sessions m' = sessions m
     \<or> (case next_free (open_table m) (next_session m) of
          None \<Rightarrow> next_session m' = next_session m - 1 \<and> \<not> b \<and> sessions m' = sessions m
        | Some s \<Rightarrow> next_session m' = s + 1 \<and> (b \<longrightarrow> so = Some s)
            \<and> (\<not> has_flag f read_or_write \<longrightarrow> \<not> b \<and> sessions m' = sessions m)))"
proof -
  obtain r m1 hs where gh: "getHandler gbi p m = Some (r, m1)" and m1: "mgr_inv hinv live m1"
    "m1 = m\<lparr>handlers := hs\<rparr>"
    and r: "\<And>i. r = Some i \<Longrightarrow> i < length (handlers m1)"
    using blob_handler.getHandler_ok [OF assms(1,2), of p] by (fastforce elim!: ok_pairE)
  have same: "open_table m1 = open_table m" "next_session m1 = next_session m" "ids m1 = ids m"
    "sessions m1 = sessions m"
    using open_table_cong [of m1 m] by (simp_all add: m1(2))
  note gs = next_free_eq [of m1, unfolded same]
  show ?thesis
  proof (cases "\<exists>i s. r = Some i \<and> next_free (open_table m) (next_session m) = Some s
      \<and> has_flag f read_or_write")
    case False
    then show ?thesis
      using eq gh gs same by (auto simp: BlobManager_open_def split: option.splits)
  next
    case True
    then obtain i s where c: "r = Some i" "next_free (open_table m) (next_session m) = Some s"
      "has_flag f read_or_write"
      by blast
    let ?m2 = "m1\<lparr>next_session := s + 1\<rparr>"
    obtain m3 m4 where cu: "cleanUpStaleSessions gbi i ?m2 = Some m3"
      and call: "call_handler i (gbi_open gbi s f p) m3 = Some (b, m4)"
      and rest: "if b then record_session i s f p m4 = Some m' else m' = m4" "so = Some s"
      using eq gh gs c by (auto simp: BlobManager_open_def bind_eq_Some_conv split: if_splits)
    have "mgr_inv hinv live ?m2"
      using m1(1) by (rule blob_handler.minv_cong [OF assms(1)]) simp_all
    then have "same_lists ?m2 m3"
      using blob_handler.cleanUpStaleSessions_ok [OF assms(1), of ?m2 i] r [OF c(1)] cu
      by (auto simp: same_lists_def same_config_def)
    moreover have "same_lists m4 m'"
      using rest(1) by (auto split: if_splits dest: same_lists_record)
    ultimately have "same_lists ?m2 m'"
      using same_lists_call [OF call] same_lists_trans by blast
    then show ?thesis
      using c(2,3) rest(2) same(3) by (simp add: same_lists_def)
  qed
qed

lemma open_allows:
  assumes "blob_handler gbi hinv live accepts" and "mgr_inv hinv live m"
    and eq: "BlobManager_open gbi f p out_param m = Some ((b, so), m')" and s: "b \<longrightarrow> so = Some s"
  shows "allows (proto_of m) (Open f p) (if b then Answer (le16 s) else Refused) (proto_of m')"
proof -
  let ?V = "proto_of m" and ?F = "next_free (open_table m) (next_session m)"
  note n = open_numbers [OF assms(1,2) eq]
  have V': "proto_of m' = ?V\<lparr>pt_table := open_table m', pt_next := next_session m'\<rparr>"
    using n by (simp add: proto_of_def)
  note perm = open_permits [OF assms(1,2) eq s]
  show ?thesis
  proof (cases b)
    case True
    then obtain T0 where T0: "T0 \<subseteq>\<^sub>m open_table m" "open_table m' = T0(s \<mapsto> (p, f))" "has_flag f read_or_write"
      using perm by (auto simp: permits_simps le16_inj)
    moreover have "?F = Some s" and "next_session m' = s + 1"
      using n True s by (auto split: option.splits)
    ultimately show ?thesis
      using True V' opened [of ?V s f T0 p] by simp
  next
    case False
    have T': "open_table m' \<subseteq>\<^sub>m open_table m"
      using perm False by (auto simp: permits_simps)
    consider "next_session m' = next_session m" "open_table m' = open_table m"
      | "?F = None" "next_session m' = next_session m - 1" "open_table m' = open_table m"
      | k where "?F = Some k" "next_session m' = k + 1" "\<not> has_flag f read_or_write" "open_table m' = open_table m"
      | k where "?F = Some k" "next_session m' = k + 1" "has_flag f read_or_write"
      using n open_table_cong [of m' m] by (auto split: option.splits)
    then have "allows ?V (Open f p) Refused (proto_of m')"
    proof cases
      case 1
      then show ?thesis
        using nobody [of ?V f p] V' by (simp add: proto_of_def)
    next
      case 2
      then show ?thesis
        using no_number [of ?V f p] V' by (simp add: proto_of_def)
    next
      case 3
      then show ?thesis
        using no_flags [of ?V k f p] V' by (simp add: proto_of_def)
    next
      case 4
      then show ?thesis
        using turned_down [of ?V k f "open_table m'" p] V' T' by simp
    qed
    then show ?thesis
      using False by simp
  qed
qed

lemma same_lists_calls:
  "BlobManager_stat gbi s mt m = Some (x, m') \<Longrightarrow> same_lists m m'"
  "BlobManager_commit gbi s d m = Some (b, m') \<Longrightarrow> same_lists m m'"
  "BlobManager_read gbi s off n m = Some (e, m') \<Longrightarrow> same_lists m m'"
  "BlobManager_write gbi s off d m = Some (b, m') \<Longrightarrow> same_lists m m'"
  "BlobManager_writeMeta gbi s off d m = Some (b, m') \<Longrightarrow> same_lists m m'"
  unfolding session_call_defs by (rule same_lists_session_call, assumption)+

lemma perform_same_lists:
  assumes "perform (BlobManager_methods gbi) q m = Some (r, m')" and "about_open q"
  shows "same_lists m m'"
  using assms
  by (cases q) (auto simp: acknowledge_def describe_def bind_eq_Some_conv
      dest: same_lists_calls same_lists_close same_lists_paths split: if_splits)

lemma perform_allows:
  assumes h: "blob_handler gbi hinv live accepts" and m: "mgr_inv hinv live m"
    and eq: "perform (BlobManager_methods gbi) q m = Some (r, m')"
  shows "allows (proto_of m) q r (proto_of m')"
proof (cases "about_open q")
  case True
  then have "same_lists m m'"
    by (rule perform_same_lists [OF eq])
  then show ?thesis
    using others [OF True, of "proto_of m"] perform_permits [OF h m eq]
    by (simp add: proto_of_def same_lists_def)
next
  case False
  then consider "q = GetCount" | i where "q = Enumerate i" | f p where "q = Open f p"
    by (cases q) simp_all
  then show ?thesis
  proof cases
    case 1
    then obtain l hs where "r = Answer (le32 (word_of_nat (length l)))" "m' = m\<lparr>ids := l, handlers := hs\<rparr>"
      using eq by (auto simp: buildBlobList_def bind_eq_Some_conv)
    then show ?thesis
      using counted [of "proto_of m" l] open_table_cong [of m' m] 1 by (simp add: proto_of_def)
  next
    case 2
    then show ?thesis
      using eq listed [of "proto_of m" i] by (auto simp: entry_at_def getBlobId_def)
  next
    case 3
    then obtain b so where o: "BlobManager_open gbi f p out_param m = Some ((b, so), m')"
      and rp: "if b then \<exists>s. so = Some s \<and> r = Answer (le16 s) else r = Refused"
      using eq by (auto simp: bind_eq_Some_conv split: if_splits)
    then show ?thesis
      using open_allows [OF h m o] 3 by (cases b) auto
  qed
qed

lemma serve_delivers:
  assumes "blob_handler gbi hinv live accepts" and "mgr_inv hinv live m"
  shows "\<exists>rs m'. serve crc gbi maxTransfer t clk qs (Some m) = Some (rs, Some m')
    \<and> mgr_inv hinv live m' \<and> delivers crc maxTransfer (proto_of m) qs rs (proto_of m')"
  by (rule serve_runs [where step = allows and view = proto_of, OF assms(1) perform_allows [OF assms(1)] assms(2)])

end
