(* ===== verification/Scripted_Handler.thy ===== *)
theory Scripted_Handler
  imports Protocol_Runs
begin

unbundle bit_operations_syntax

text \<open>
  A handler that can do anything its contract allows. It keeps a table of its sessions and
  otherwise answers as its script says, entry by entry.

  \<^item> \<open>scripted_methods\<close> are its operations; the interpretation shows its contract.
  \<^item> \<open>plays\<close> relates the manager over this handler to a state of \<open>Protocol_Runs\<close>.
  \<^item> \<open>session_answer\<close>, \<open>open_answer\<close> and the other lemmas give, for each kind of request, the
    reply that the next entry of the script brings about.
\<close>

section \<open>The handler\<close>

record script_entry =
  en_accept :: bool
  en_yes :: bool
  en_drop :: "u16 set" \<comment> \<open>the sessions it lets expire\<close>
  en_data :: bytes
  en_state :: u16
  en_size :: u32
  en_ids :: "string list"

definition idle :: script_entry where
  "idle = \<lparr>en_accept = False, en_yes = False, en_drop = {}, en_data = [], en_state = 0, en_size = 0,
     en_ids = []\<rparr>"

record scripted =
  sc_live :: table
  sc_now :: script_entry
  sc_script :: "script_entry list"

text \<open>
  An operation on a session and a listing take the next entry. An operation on a path begins
  with \<open>canHandleBlob\<close>, which takes the entry for what follows.
\<close>

definition next_entry :: "scripted \<Rightarrow> script_entry \<times> scripted" where
  "next_entry h = (case sc_script h of
       [] \<Rightarrow> (idle, h\<lparr>sc_now := idle\<rparr>)
     | e # es \<Rightarrow> (e, h\<lparr>sc_now := e, sc_script := es\<rparr>))"

definition entry_meta :: "script_entry \<Rightarrow> BlobMeta" where
  "entry_meta e = \<lparr>blobState = Some (en_state e), blobSize = Some (en_size e), metadata = en_data e\<rparr>"

lemma entry_meta_sel [simp]:
  "blobState (entry_meta e) = Some (en_state e)" "blobSize (entry_meta e) = Some (en_size e)"
  "metadata (entry_meta e) = en_data e" "meta_defined (entry_meta e)"
  by (simp_all add: entry_meta_def meta_defined_def)

definition says :: "(script_entry \<Rightarrow> 'r) \<Rightarrow> scripted \<Rightarrow> ('r \<times> scripted) option" where
  "says f h = Some (apfst f (next_entry h))"

definition scripted_methods :: "scripted GenericBlobInterface" where
  "scripted_methods =
     \<lparr>gbi_canHandleBlob = (\<lambda>p. says en_accept),
      gbi_getBlobIds = says en_ids,
      gbi_deleteBlob = (\<lambda>p h. Some (en_yes (sc_now h), h)),
      gbi_statPath = (\<lambda>p mt h. Some ((en_yes (sc_now h), entry_meta (sc_now h)), h)),
      gbi_open = (\<lambda>s f p h. Some (en_yes (sc_now h),
        if en_yes (sc_now h) then h\<lparr>sc_live := (sc_live h)(s \<mapsto> (p, f))\<rparr> else h)),
      gbi_read = (\<lambda>s off n. says en_data),
      gbi_write = (\<lambda>s off d. says en_yes),
      gbi_writeMeta = (\<lambda>s off d. says en_yes),
      gbi_commit = (\<lambda>s d. says en_yes),
      gbi_close = (\<lambda>s h. (let (e, h) = next_entry h in
        Some (en_yes e, if en_yes e then h\<lparr>sc_live := (sc_live h)(s := None)\<rparr> else h))),
      gbi_stat = (\<lambda>s mt. says (\<lambda>e. (en_yes e, entry_meta e))),
      gbi_expire = (\<lambda>s h. Some (s \<in> en_drop (sc_now h),
        if s \<in> en_drop (sc_now h) then h\<lparr>sc_live := (sc_live h)(s := None)\<rparr> else h))\<rparr>"

lemma scripted_methods_sel [simp]:
  "gbi_canHandleBlob scripted_methods p = says en_accept"
  "gbi_getBlobIds scripted_methods = says en_ids"
  "gbi_deleteBlob scripted_methods p h = Some (en_yes (sc_now h), h)"
  "gbi_statPath scripted_methods p mt h = Some ((en_yes (sc_now h), entry_meta (sc_now h)), h)"
  "gbi_open scripted_methods s f p h = Some (en_yes (sc_now h),
     if en_yes (sc_now h) then h\<lparr>sc_live := (sc_live h)(s \<mapsto> (p, f))\<rparr> else h)"
  "gbi_read scripted_methods s off n = says en_data"
  "gbi_write scripted_methods s off d = says en_yes"
  "gbi_writeMeta scripted_methods s off d = says en_yes"
  "gbi_commit scripted_methods s d = says en_yes"
  "gbi_close scripted_methods s h = (let (e, h) = next_entry h in
     Some (en_yes e, if en_yes e then h\<lparr>sc_live := (sc_live h)(s := None)\<rparr> else h))"
  "gbi_stat scripted_methods s mt = says (\<lambda>e. (en_yes e, entry_meta e))"
  "gbi_expire scripted_methods s h = Some (s \<in> en_drop (sc_now h),
     if s \<in> en_drop (sc_now h) then h\<lparr>sc_live := (sc_live h)(s := None)\<rparr> else h)"
  by (simp_all add: scripted_methods_def)

lemma next_entry_live: "next_entry h = (e, h') \<Longrightarrow> sc_live h' = sc_live h"
  by (auto simp: next_entry_def split: list.splits)

lemma next_entry_Cons: "sc_script h = e # es \<Longrightarrow> next_entry h = (e, h\<lparr>sc_now := e, sc_script := es\<rparr>)"
  by (simp add: next_entry_def)

lemma says_ok [simp]: "ok (says f h) Q \<longleftrightarrow> (case next_entry h of (e, h') \<Rightarrow> Q (f e, h'))"
  by (simp add: says_def apfst_def map_prod_def split: prod.split)

lemma says_Cons: "sc_script h = e # es \<Longrightarrow> says f h = Some (f e, h\<lparr>sc_now := e, sc_script := es\<rparr>)"
  by (simp add: says_def next_entry_Cons)

text \<open>Whatever the script, the handler keeps its side of the contract.\<close>

interpretation scripted: blob_handler scripted_methods "\<lambda>_. True" sc_live "\<lambda>_ _. True"
  by unfold_locales (auto simp: Let_def dest: next_entry_live split: prod.split)

section \<open>The state\<close>

text \<open>
  A clock that takes such strides that every session is stale whenever an \<open>open\<close> looks. Which
  of them go is then up to the script.
\<close>

definition strides :: "'h BlobManager \<Rightarrow> bool" where
  "strides m \<longleftrightarrow> 0 \<le> sessionTimeout m
     \<and> (\<forall>k. nanoseconds (sessionTimeout m) \<le> clock m (Suc k) - clock m k)
     \<and> (\<forall>s si. sessions m s = Some si \<longrightarrow> nanoseconds (sessionTimeout m) \<le> clock m 0 - lastActionTime si)"

lemma stride:
  assumes "strides m" and "j < n"
  shows "nanoseconds (sessionTimeout m) \<le> clock m n - clock m j"
  using assms(2)
proof (induction n)
  case (Suc n)
  have "nanoseconds (sessionTimeout m) \<le> clock m (Suc n) - clock m n" and "0 \<le> nanoseconds (sessionTimeout m)"
    using assms(1) by (auto simp: strides_def nanoseconds_def)
  then show ?case
    using Suc by (cases "j = n") fastforce+
qed simp

lemma strides_advances:
  assumes "strides m" and "advances m m'"
  shows "strides m'"
proof -
  obtain n where n: "sessionTimeout m' = sessionTimeout m" "\<forall>k. clock m' k = clock m (n + k)" "stamped n m m'"
    using assms(2) by (auto simp: advances_def)
  have "nanoseconds (sessionTimeout m) \<le> clock m n - lastActionTime si'" if si': "sessions m' s = Some si'" for s si'
  proof -
    consider si where "sessions m s = Some si" "lastActionTime si' = lastActionTime si"
      | j where "j < n" "lastActionTime si' = clock m j"
      using n(3) si' unfolding stamped_def by blast
    then show ?thesis
    proof cases
      case 1
      then have "nanoseconds (sessionTimeout m) \<le> clock m 0 - lastActionTime si'"
        using assms(1) by (auto simp: strides_def)
      moreover have "0 \<le> nanoseconds (sessionTimeout m)"
        using assms(1) by (simp add: strides_def nanoseconds_def)
      ultimately show ?thesis
        using stride [OF assms(1), of 0 n] by (cases "n = 0") auto
    next
      case 2
      then show ?thesis
        using stride [OF assms(1)] by simp
    qed
  qed
  then show ?thesis
    using assms(1) n(1,2) by (auto simp: strides_def)
qed

text \<open>The daemon stands at \<open>V\<close>, with the rest \<open>es\<close> of the script to come.\<close>

definition plays :: "proto \<Rightarrow> script_entry list \<Rightarrow> scripted BlobManager \<Rightarrow> bool" where
  "plays V es m \<longleftrightarrow> mgr_inv (\<lambda>_. True) sc_live m \<and> strides m \<and> proto_of m = V
     \<and> (\<exists>h. handlers m = [h] \<and> sc_script h = es)"

lemma playsE:
  assumes "plays V es m"
  obtains h where "handlers m = [h]" and "sc_script h = es" and "mgr_inv (\<lambda>_. True) sc_live m"
    and "strides m" and "open_table m = pt_table V" and "next_session m = pt_next V" and "ids m = pt_ids V"
  using assms unfolding plays_def by fastforce

abbreviation answers :: "scripted BlobManager \<Rightarrow> client_request \<Rightarrow> (reply \<times> scripted BlobManager) option" where
  "answers m q \<equiv> perform (BlobManager_methods scripted_methods) q m"

lemma answers_plays:
  assumes "plays V es m" and "answers m q = Some (r, m')" and "proto_of m' = V'"
    and "\<exists>h. handlers m' = [h] \<and> sc_script h = es'"
  shows "plays V' es' m'"
proof -
  have inv: "mgr_inv (\<lambda>_. True) sc_live m"
    using assms(1) by (simp add: plays_def)
  obtain res where step: "mgr_step (BlobManager_methods scripted_methods) (call_of q) m = Some (res, m')"
    using perform_step [OF assms(2)] by blast
  have "strides m'"
    using assms(1) advances_step [OF step] by (auto simp: plays_def intro: strides_advances)
  moreover have "mgr_inv (\<lambda>_. True) sc_live m'"
    using manager_interface.mgr_step_ok [OF blob_handler.manages [OF scripted.blob_handler_axioms] inv] step
    by (metis (no_types, lifting) case_prod_conv ok_SomeD)
  ultimately show ?thesis
    using assms(3,4) by (simp add: plays_def)
qed

section \<open>Requests on a session\<close>

definition needs :: "client_request \<Rightarrow> u16" where
  "needs q = (case q of Read s off n \<Rightarrow> OpenFlags_read | Write s off d \<Rightarrow> OpenFlags_write | _ \<Rightarrow> any_flags)"

text \<open>The answer to a request that reaches the handler, at the entry \<open>e\<close> of the script.\<close>

fun scripted_answer :: "script_entry \<Rightarrow> client_request \<Rightarrow> reply" where
  "scripted_answer e (Read s off n) = Answer (en_data e)"
| "scripted_answer e (SessionStat s) =
     (if en_yes e then Answer (stat_body (en_state e) (en_size e) (en_data e)) else Refused)"
| "scripted_answer e (Stat p) =
     (if en_yes e then Answer (stat_body (en_state e) (en_size e) (en_data e)) else Refused)"
| "scripted_answer e q = (if en_yes e then Acknowledged else Refused)"

lemma dispatch_plays:
  assumes "plays V es m"
  shows "\<exists>si. getActionHandler s req m =
    (if granted (pt_table V) s req then Some (Some 0, touch s si m) else Some (None, m))"
proof -
  obtain h where h: "handlers m = [h]" and inv: "mgr_inv (\<lambda>_. True) sc_live m"
    and T: "open_table m = pt_table V"
    using assms by (rule playsE)
  show ?thesis
  proof (cases "sessions m s")
    case None
    then have "\<not> granted (pt_table V) s req"
      by (simp add: granted_def open_table_def flip: T)
    then show ?thesis
      using None by (simp add: getActionHandler_None)
  next
    case (Some si)
    obtain i fl where i: "handler si = Some i" "i < length (handlers m)" "flags si = fl"
      and ga: "\<forall>req. getActionHandler s req m =
        (if has_flag fl req then Some (Some i, touch s si m) else Some (None, m))"
      by (rule action_dispatch [OF mgr_inv_index [OF inv] Some])
    have "granted (pt_table V) s req \<longleftrightarrow> has_flag fl req"
      using Some i(3) by (simp add: granted_def open_table_def flip: T)
    then show ?thesis
      using ga i h by auto
  qed
qed

lemma touch_handlers [simp]: "handlers (touch s si m) = handlers m"
  by (simp add: touch_def)

lemma close_answer:
  assumes "plays V (e # es) m" and "granted (pt_table V) s any_flags"
  shows "\<exists>m' h. BlobManager_close scripted_methods s m = Some (en_yes e, m') \<and> handlers m' = [h] \<and> sc_script h = es"
proof -
  obtain h where h: "handlers m = [h]" "sc_script h = e # es" and inv: "mgr_inv (\<lambda>_. True) sc_live m"
    using assms(1) by (rule playsE)
  obtain si where ga: "getActionHandler s any_flags m = Some (Some 0, touch s si m)"
    using dispatch_plays [OF assms(1), of s any_flags] assms(2) by auto
  define h' where "h' = h\<lparr>sc_now := e, sc_script := es\<rparr>"
  let ?h = "if en_yes e then h'\<lparr>sc_live := (sc_live h')(s := None)\<rparr> else h'"
  let ?m = "(touch s si m)\<lparr>handlers := [?h]\<rparr>"
  have eq: "BlobManager_close scripted_methods s m =
    (if en_yes e then do { m \<leftarrow> eraseSession 0 s ?m; Some (True, m) } else Some (False, ?m))"
    using h by (simp add: BlobManager_close_def ga call_handler_def next_entry_Cons h'_def)
  have script: "sc_script ?h = es"
    by (simp add: h'_def)
  show ?thesis
  proof (cases "en_yes e")
    case True
    obtain b m' where "BlobManager_close scripted_methods s m = Some (b, m')"
      using scripted.BlobManager_close_ok [OF inv, of s] by (auto simp: ok_iff)
    then show ?thesis
      using eq True script eraseSession_frame [of 0 s ?m m'] by (auto simp: bind_eq_Some_conv)
  next
    case False
    then show ?thesis
      using eq script by simp
  qed
qed

lemma session_answer:
  assumes "plays V (e # es) m" and "session_of q = Some s" and "granted (pt_table V) s (needs q)"
  shows "\<exists>m' h. answers m q = Some (scripted_answer e q, m') \<and> handlers m' = [h] \<and> sc_script h = es"
proof (cases "q = Close s")
  case True
  then show ?thesis
    using close_answer [OF assms(1), of s] assms(3) by (auto simp: needs_def acknowledge_def)
next
  case False
  obtain h where h: "handlers m = [h]" "sc_script h = e # es"
    using assms(1) by (rule playsE)
  obtain si where "getActionHandler s (needs q) m = Some (Some 0, touch s si m)"
    using dispatch_plays [OF assms(1), of s "needs q"] assms(3) by auto
  then show ?thesis
    using assms(2) h False
    by (cases q) (auto simp: needs_def session_call_defs call_handler_def says_Cons acknowledge_def describe_def)
qed

lemma session_denial:
  assumes "plays V es m" and "session_of q = Some s" and "\<not> granted (pt_table V) s (needs q)"
  shows "answers m q = Some (denial q, m)"
proof -
  have "getActionHandler s (needs q) m = Some (None, m)"
    using dispatch_plays [OF assms(1), of s "needs q"] assms(3) by auto
  then show ?thesis
    using assms(2)
    by (cases q) (auto simp: needs_def denial_def session_call_defs BlobManager_close_def acknowledge_def
        describe_def)
qed

section \<open>Requests on a path, and lists\<close>

lemma scripted_handler:
  "handlers m = [h] \<Longrightarrow> sc_script h = e # es \<Longrightarrow> getHandler scripted_methods p m =
     Some (if en_accept e then Some 0 else None, m\<lparr>handlers := [h\<lparr>sc_now := e, sc_script := es\<rparr>]\<rparr>)"
  by (simp add: getHandler_def says_Cons)

lemma stat_answer:
  assumes "plays V (e # es) m" and "en_accept e"
  shows "\<exists>m' h. answers m (Stat p) = Some (scripted_answer e (Stat p), m') \<and> handlers m' = [h]
    \<and> sc_script h = es"
proof -
  obtain h where h: "handlers m = [h]" "sc_script h = e # es"
    using assms(1) by (rule playsE)
  show ?thesis
    using scripted_handler [OF h] assms(2)
    by (auto simp: BlobManager_statPath_def call_handler_def describe_def)
qed

lemma delete_answer:
  assumes "plays V (e # es) m" and "en_accept e" and "en_yes e \<longrightarrow> p \<notin> fst ` ran (pt_table V)"
  shows "\<exists>m' h. answers m (Delete p) = Some (scripted_answer e (Delete p), m') \<and> handlers m' = [h]
    \<and> sc_script h = es"
proof -
  obtain h where h: "handlers m = [h]" "sc_script h = e # es" and inv: "mgr_inv (\<lambda>_. True) sc_live m"
    and T: "open_table m = pt_table V"
    using assms(1) by (rule playsE)
  have "file_count m p = 0" if "en_yes e"
    using assms(3) that mgr_inv_index [OF inv] by (auto simp: index_inv_def open_table_paths simp flip: T)
  then show ?thesis
    using scripted_handler [OF h] assms(2)
    by (auto simp: BlobManager_deleteBlob_def call_handler_def acknowledge_def file_count_def Let_def)
qed

lemma count_answer:
  assumes "plays V (e # es) m"
  shows "\<exists>m' h. answers m GetCount = Some (Answer (le32 (word_of_nat (length (en_ids e)))), m')
    \<and> handlers m' = [h] \<and> sc_script h = es \<and> proto_of m' = V\<lparr>pt_ids := en_ids e\<rparr>"
proof -
  obtain h where h: "handlers m = [h]" "sc_script h = e # es"
    using assms(1) by (rule playsE)
  have eq: "buildBlobList scripted_methods m = Some (word_of_nat (length (en_ids e)),
      m\<lparr>ids := en_ids e, handlers := [h\<lparr>sc_now := e, sc_script := es\<rparr>]\<rparr>)"
    using h by (simp add: buildBlobList_def says_Cons)
  have "proto_of (m\<lparr>ids := en_ids e, handlers := hs\<rparr>) = V\<lparr>pt_ids := en_ids e\<rparr>" for hs
    using assms open_table_cong [of "m\<lparr>ids := en_ids e, handlers := hs\<rparr>" m]
    by (simp add: plays_def proto_of_def) (metis proto.update_convs(3))
  then show ?thesis
    using eq by simp
qed

section \<open>The request \<open>open\<close>\<close>

lemma scripted_expire:
  assumes "handlers m = [h]" and "expire_sessions scripted_methods 0 ss m = Some m'"
  shows "sessions m' = sessions m |` (- (set ss \<inter> en_drop (sc_now h)))
    \<and> (\<exists>h'. handlers m' = [h'] \<and> sc_now h' = sc_now h \<and> sc_script h' = sc_script h)"
  using assms
proof (induction ss arbitrary: m h)
  case Nil
  then show ?case by (simp add: restrict_map_def)
next
  case (Cons s ss)
  show ?case
  proof (cases "s \<in> en_drop (sc_now h)")
    case True
    let ?h = "h\<lparr>sc_live := (sc_live h)(s := None)\<rparr>"
    obtain m1 where e: "eraseSession 0 s ((report (ExpiringStaleSession s) m)\<lparr>handlers := [?h]\<rparr>) = Some m1"
      and rest: "expire_sessions scripted_methods 0 ss m1 = Some m'"
      using Cons.prems True by (auto simp: call_handler_def bind_eq_Some_conv)
    have m1: "sessions m1 = (sessions m)(s := None)" "handlers m1 = [?h]"
      using eraseSession_sessions [OF e] eraseSession_frame [OF e] by simp_all
    show ?thesis
      using Cons.IH [OF m1(2) rest] True by (auto simp: m1 restrict_map_def fun_eq_iff)
  next
    case False
    let ?m = "report (FailedToExpireSession s) ((report (ExpiringStaleSession s) m)\<lparr>handlers := [h]\<rparr>)"
    have "expire_sessions scripted_methods 0 ss ?m = Some m'"
      using Cons.prems False by (auto simp: call_handler_def)
    from Cons.IH [OF _ this] show ?thesis
      using False by (auto simp: restrict_map_def fun_eq_iff)
  qed
qed

lemma scripted_cleanUp:
  assumes "mgr_inv (\<lambda>_. True) sc_live m" and h: "handlers m = [h]" and "strides m"
  shows "\<exists>m' h'. cleanUpStaleSessions scripted_methods 0 m = Some m' \<and> mgr_inv (\<lambda>_. True) sc_live m'
    \<and> handlers m' = [h'] \<and> sc_now h' = sc_now h \<and> sc_script h' = sc_script h
    \<and> open_table m' = open_table m |` (- en_drop (sc_now h)) \<and> same_lists m m'"
proof -
  obtain m' where c: "cleanUpStaleSessions scripted_methods 0 m = Some m'"
    and m': "mgr_inv (\<lambda>_. True) sc_live m'" "same_lists m m'"
    using scripted.cleanUpStaleSessions_ok [OF assms(1), of 0] h
    by (auto simp: ok_iff same_lists_def same_config_def)
  have own: "s \<in> sessions_of_handler m 0 \<and> stale (clock m 0) m s" if dom: "s \<in> dom (sessions m)" for s
  proof -
    obtain si where si: "sessions m s = Some si"
      using dom by blast
    obtain i where "handler si = Some i" "i < length (handlers m)"
      using table_invE [OF index_inv_table [OF mgr_inv_index [OF assms(1)]] si] by metis
    then show ?thesis
      using si assms(3) h by (auto simp: sessions_of_handler_def stale_def strides_def)
  qed
  show ?thesis
  proof (cases "openSessions m 0")
    case None
    then have "sessions_of_handler m 0 = {}"
      using mgr_inv_index [OF assms(1)] by (simp add: index_inv_def handler_sessions_def) (metis option.simps(4))
    then have "sessions m = Map.empty"
      using own by fastforce
    then have "open_table m = open_table m |` (- en_drop (sc_now h))"
      by (auto simp: restrict_map_def open_table_def)
    moreover have "m' = m"
      using c None by (simp add: cleanUpStaleSessions_def)
    ultimately show ?thesis
      using c m' h by auto
  next
    case (Some S)
    let ?S = "{s \<in> sessions_of_handler m 0. stale (clock m 0) m s}"
    have "expire_sessions scripted_methods 0 (sorted_list_of_set ?S) (m\<lparr>clock := clock m \<circ> Suc\<rparr>) = Some m'"
      using c Some cleanUpStaleSessions_eq [OF mgr_inv_index [OF assms(1)], of scripted_methods 0] by simp
    from scripted_expire [OF _ this, of h] h obtain h' where
      s: "sessions m' = sessions m |` (- (?S \<inter> en_drop (sc_now h)))"
      and h': "handlers m' = [h']" "sc_now h' = sc_now h" "sc_script h' = sc_script h"
      by auto
    have "open_table m' s = (open_table m |` (- en_drop (sc_now h))) s" for s
      using own [of s] s by (auto simp: open_table_def restrict_map_def)
    then have "open_table m' = open_table m |` (- en_drop (sc_now h))"
      by (rule ext)
    then show ?thesis
      using c m' h' by blast
  qed
qed

lemma record_session_table:
  "record_session i s f p m = Some m' \<Longrightarrow> open_table m' = (open_table m)(s \<mapsto> (p, f))"
  by (auto simp: record_session_def new_SessionInfo_def default_SessionInfo_def sessions_at_def
      steady_now_def open_table_def Let_def bind_eq_Some_conv fun_eq_iff split: option.splits)

lemma open_answer:
  assumes m: "plays V (e # es) m" and e: "en_accept e"
    and n: "next_free (pt_table V) (pt_next V) = Some s" and f: "has_flag f read_or_write"
  shows "\<exists>m' h. answers m (Open f p) = Some (if en_yes e then Answer (le16 s) else Refused, m')
    \<and> handlers m' = [h] \<and> sc_script h = es
    \<and> proto_of m' = V\<lparr>pt_table := (let T0 = pt_table V |` (- en_drop e) in if en_yes e then T0(s \<mapsto> (p, f)) else T0),
        pt_next := s + 1\<rparr>"
proof -
  obtain h where h: "handlers m = [h]" "sc_script h = e # es" and inv: "mgr_inv (\<lambda>_. True) sc_live m"
    and st: "strides m" and V: "open_table m = pt_table V" "next_session m = pt_next V" "ids m = pt_ids V"
    using m by (rule playsE)
  let ?h = "h\<lparr>sc_now := e, sc_script := es\<rparr>"
  let ?m1 = "m\<lparr>handlers := [?h], next_session := s + 1\<rparr>"
  have "mgr_inv (\<lambda>_. True) sc_live (m\<lparr>handlers := [?h]\<rparr>)"
    using scripted.minv_upd [OF inv, of 0 ?h] h by (simp add: scripted.keeps_def)
  then have inv1: "mgr_inv (\<lambda>_. True) sc_live ?m1"
    by (rule scripted.minv_cong) simp_all
  have st1: "strides ?m1"
    using st by (simp add: strides_def)
  obtain m2 h2 where cu: "cleanUpStaleSessions scripted_methods 0 ?m1 = Some m2" and inv2: "mgr_inv (\<lambda>_. True) sc_live m2"
    and h2: "handlers m2 = [h2]" "sc_now h2 = e" "sc_script h2 = es"
    and T2: "open_table m2 = pt_table V |` (- en_drop e)" and same: "same_lists ?m1 m2"
    using scripted_cleanUp [OF inv1 _ st1, of ?h] V(1) open_table_cong [of ?m1 m] by auto
  let ?h3 = "if en_yes e then h2\<lparr>sc_live := (sc_live h2)(s \<mapsto> (p, f))\<rparr> else h2"
  let ?m3 = "m2\<lparr>handlers := [?h3]\<rparr>"
  have "getSession out_param (m\<lparr>handlers := [?h]\<rparr>) = (Some s, ?m1)"
    using next_free_eq [of "m\<lparr>handlers := [?h]\<rparr>"] open_table_cong [of "m\<lparr>handlers := [?h]\<rparr>" m] n V by simp
  then have eq: "BlobManager_open scripted_methods f p out_param m =
    (if en_yes e then do { m \<leftarrow> record_session 0 s f p ?m3; Some ((True, Some s), m) }
     else Some ((False, Some s), ?m3))"
    using scripted_handler [OF h, of p] e f cu h2 by (simp add: BlobManager_open_def call_handler_def)
  have T3: "open_table ?m3 = pt_table V |` (- en_drop e)" "next_session ?m3 = s + 1" "ids ?m3 = pt_ids V"
    using T2 same V(3) open_table_cong [of ?m3 m2] by (simp_all add: same_lists_def)
  have P: "proto_of m' = V\<lparr>pt_table := T', pt_next := s + 1\<rparr>"
    if "open_table m' = T'" "next_session m' = s + 1" "ids m' = pt_ids V" for m' :: "scripted BlobManager" and T'
    using that by (simp add: proto_of_def)
  show ?thesis
  proof (cases "en_yes e")
    case True
    obtain r m' where "BlobManager_open scripted_methods f p out_param m = Some (r, m')"
      using scripted.BlobManager_open_ok [OF inv, of f p out_param] by (auto simp: ok_iff)
    then have rec: "record_session 0 s f p ?m3 = Some m'"
      using eq True by (auto simp: bind_eq_Some_conv)
    then show ?thesis
      using eq True T3 h2 record_session_table [OF rec] record_session_frame [OF rec]
      by (auto simp: P)
  next
    case False
    then show ?thesis
      using eq T3 h2 by (auto simp: P)
  qed
qed

lemma open_without_answer:
  assumes m: "plays V (e # es) m"
    and "\<not> en_accept e \<or> next_free (pt_table V) (pt_next V) = None \<or> \<not> has_flag f read_or_write"
  shows "\<exists>m' h. answers m (Open f p) = Some (Refused, m') \<and> handlers m' = [h] \<and> sc_script h = es
    \<and> proto_of m' = (if \<not> en_accept e then V
        else case next_free (pt_table V) (pt_next V) of
          None \<Rightarrow> V\<lparr>pt_next := pt_next V - 1\<rparr> | Some s \<Rightarrow> V\<lparr>pt_next := s + 1\<rparr>)"
proof -
  obtain h where h: "handlers m = [h]" "sc_script h = e # es"
    and V: "open_table m = pt_table V" "next_session m = pt_next V" "ids m = pt_ids V"
    using m by (rule playsE)
  let ?m1 = "m\<lparr>handlers := [h\<lparr>sc_now := e, sc_script := es\<rparr>]\<rparr>"
  have same: "open_table ?m1 = pt_table V" "open_table (?m1\<lparr>next_session := k\<rparr>) = pt_table V" for k
    using open_table_cong [of ?m1 m] open_table_cong [of "?m1\<lparr>next_session := k\<rparr>" m] V(1) by simp_all
  have P: "proto_of m' = V\<lparr>pt_next := k\<rparr>"
    if "open_table m' = pt_table V" "next_session m' = k" "ids m' = pt_ids V" for m' :: "scripted BlobManager" and k
    using that by (simp add: proto_of_def)
  show ?thesis
    using scripted_handler [OF h, of p] next_free_eq [of ?m1] assms(2) V same
    by (auto simp: BlobManager_open_def P split: option.splits)
qed

end
