(* ===== verification/Protocol_Tight.thy ===== *)
theory Protocol_Tight
  imports Scripted_Handler
begin

unbundle bit_operations_syntax

text \<open>
  The specification of \<open>Protocol_Runs\<close> allows nothing the daemon cannot do: for every run of it
  there is a script with which the daemon, over the handler of \<open>Scripted_Handler\<close>, gives the very same
  replies. With \<open>serve_delivers\<close>, the runs of the specification are exactly what clients can see
  of the daemon.
\<close>

section \<open>Every run\<close>

definition proper :: "table \<Rightarrow> bool" where
  "proper T \<longleftrightarrow> (\<forall>p f. (p, f) \<in> ran T \<longrightarrow> has_flag f read_or_write)"

lemma properD: "proper T \<Longrightarrow> T s = Some (p, f) \<Longrightarrow> has_flag f read_or_write"
  by (auto simp: proper_def ran_def)

lemma plays_proper:
  assumes "plays V es m"
  shows "proper (pt_table V)"
proof -
  have "table_inv m" and T: "open_table m = pt_table V"
    using assms index_inv_table mgr_inv_index by (auto simp: plays_def proto_of_def)
  then show ?thesis
    by (auto simp: proper_def open_table_def table_inv_def ran_def simp flip: T)
qed

lemma proper_granted: "proper T \<Longrightarrow> granted T s any_flags \<longleftrightarrow> T s \<noteq> None"
  using has_any_flag by (auto simp: granted_def proper_def ran_def split: option.split)

definition entry_with :: "bool \<Rightarrow> u16 \<Rightarrow> u32 \<Rightarrow> bytes \<Rightarrow> script_entry" where
  "entry_with yes st sz d = idle\<lparr>en_accept := True, en_yes := yes, en_state := st, en_size := sz, en_data := d\<rparr>"

lemma entry_with_sel [simp]:
  "en_accept (entry_with yes st sz d)" "en_yes (entry_with yes st sz d) = yes"
  "en_state (entry_with yes st sz d) = st" "en_size (entry_with yes st sz d) = sz"
  "en_data (entry_with yes st sz d) = d"
  by (simp_all add: entry_with_def)

text \<open>Every answer the specification permits is one the handler can be told to give.\<close>

lemma permits_scripted:
  assumes "permits T q r T'" and "about_open q" and "proper T"
  shows "(\<exists>e. en_accept e \<and> r = scripted_answer e q \<and> (\<forall>p. q = Delete p \<longrightarrow> en_yes e \<longrightarrow> p \<notin> fst ` ran T))
    \<and> (\<forall>s. session_of q = Some s \<longrightarrow> granted T s (needs q) \<or> r = denial q)"
proof -
  note g = proper_granted [OF assms(3)]
  note no = exI [of _ "entry_with False 0 0 []"] and yes = exI [of _ "entry_with True 0 0 []"]
  show ?thesis
    using assms(1,2)
  proof cases
    case (read s off n d)
    then show ?thesis
      by (auto simp: needs_def intro!: exI [of _ "entry_with True 0 0 d"])
  next
    case (path_described p st sz md)
    then show ?thesis
      by (auto intro!: exI [of _ "entry_with True st sz md"])
  next
    case (described s st sz md)
    then show ?thesis
      by (auto simp: needs_def g intro!: exI [of _ "entry_with True st sz md"])
  qed (auto simp: needs_def denial_def g intro: no yes)
qed

lemma permits_determined:
  "permits T q r T1 \<Longrightarrow> permits T q r T2 \<Longrightarrow> \<not> (\<exists>f p. q = Open f p) \<Longrightarrow> T1 = T2"
  by (cases q) (auto elim!: permitsE)

lemma others_played:
  assumes q: "about_open q" and p: "permits (pt_table V) q r T'"
  shows "\<exists>es. \<forall>rest m. plays V (es @ rest) m \<longrightarrow>
    (\<exists>m'. answers m q = Some (r, m') \<and> plays (V\<lparr>pt_table := T'\<rparr>) rest m')"
proof (cases "proper (pt_table V)")
  case False
  then show ?thesis
    using plays_proper by blast
next
  case T: True
  obtain e where e: "en_accept e" "r = scripted_answer e q"
    "\<forall>p. q = Delete p \<longrightarrow> en_yes e \<longrightarrow> p \<notin> fst ` ran (pt_table V)"
    and den: "\<forall>s. session_of q = Some s \<longrightarrow> granted (pt_table V) s (needs q) \<or> r = denial q"
    using permits_scripted [OF p q T] by blast
  let ?es = "if \<exists>s. session_of q = Some s \<and> \<not> granted (pt_table V) s (needs q) then [] else [e]"
  have "\<exists>m'. answers m q = Some (r, m') \<and> plays (V\<lparr>pt_table := T'\<rparr>) rest m'" if m: "plays V (?es @ rest) m" for rest m
  proof -
    have "\<exists>m' h. answers m q = Some (r, m') \<and> handlers m' = [h] \<and> sc_script h = rest"
    proof (cases "session_of q")
      case None
      then have me: "plays V (e # rest) m"
        using m by simp
      from None consider p where "q = Stat p" | p where "q = Delete p"
        using q by (cases q) simp_all
      then show ?thesis
      proof cases
        case 1
        then show ?thesis
          using stat_answer [OF me e(1)] e(2) by simp
      next
        case 2
        then show ?thesis
          using delete_answer [OF me e(1)] e(2,3) by simp
      qed
    next
      case (Some s)
      show ?thesis
      proof (cases "granted (pt_table V) s (needs q)")
        case True
        then have "plays V (e # rest) m"
          using m Some by simp
        then show ?thesis
          using session_answer [of V e rest m q s] Some True e(2) by simp
      next
        case False
        then have me: "plays V rest m"
          using m Some by simp
        obtain h where "handlers m = [h]" "sc_script h = rest"
          using me by (rule playsE)
        moreover have "answers m q = Some (r, m)"
          using session_denial [OF me Some False] den Some False by simp
        ultimately show ?thesis
          by blast
      qed
    qed
    then obtain m' where a: "answers m q = Some (r, m')" and h: "\<exists>h. handlers m' = [h] \<and> sc_script h = rest"
      by blast
    have inv: "mgr_inv (\<lambda>_. True) sc_live m" and V: "proto_of m = V"
      using m by (simp_all add: plays_def)
    have "permits (pt_table V) q r (open_table m')"
      using perform_permits [OF scripted.blob_handler_axioms inv a] V by auto
    then have "open_table m' = T'"
      using p q permits_determined by (metis about_open.simps(3))
    moreover have "same_lists m m'"
      using a q by (rule perform_same_lists)
    ultimately have "proto_of m' = V\<lparr>pt_table := T'\<rparr>"
      using V by (auto simp: proto_of_def same_lists_def)
    then show ?thesis
      using answers_plays [OF m a _ h] a by blast
  qed
  then show ?thesis
    by blast
qed

text \<open>Every step of the specification is one of the daemon, at the entries \<open>es\<close> of the script.\<close>

definition played :: "proto \<Rightarrow> client_request \<Rightarrow> reply \<Rightarrow> proto \<Rightarrow> script_entry list \<Rightarrow> bool" where
  "played V q r V' es \<longleftrightarrow> (\<forall>rest m. plays V (es @ rest) m \<longrightarrow>
     (\<exists>m'. answers m q = Some (r, m') \<and> plays V' rest m'))"

lemma playedI:
  assumes "\<And>rest m. plays V (e # rest) m \<Longrightarrow> \<exists>m' h. answers m q = Some (r, m') \<and> handlers m' = [h]
    \<and> sc_script h = rest \<and> proto_of m' = V'"
  shows "played V q r V' [e]"
  unfolding played_def
proof (intro allI impI)
  fix rest m
  assume m: "plays V ([e] @ rest) m"
  then obtain m' h where a: "answers m q = Some (r, m')" and "handlers m' = [h]" "sc_script h = rest"
    and V': "proto_of m' = V'"
    using assms [of rest m] by auto
  then have "\<exists>h. handlers m' = [h] \<and> sc_script h = rest"
    by blast
  then show "\<exists>m'. answers m q = Some (r, m') \<and> plays V' rest m'"
    using a answers_plays [OF m a V'] by blast
qed

lemma map_le_restrict: "T0 \<subseteq>\<^sub>m T \<Longrightarrow> T |` (- (dom T - dom T0)) = T0"
proof (rule ext)
  show "T0 \<subseteq>\<^sub>m T \<Longrightarrow> (T |` (- (dom T - dom T0))) s = T0 s" for s
    by (cases "T s"; cases "T0 s") (auto simp: map_le_def restrict_map_def dom_def)
qed

lemma open_played:
  assumes "next_free (pt_table V) (pt_next V) = Some s" and "has_flag f read_or_write"
    and T0: "T0 \<subseteq>\<^sub>m pt_table V"
  shows "played V (Open f p) (if yes then Answer (le16 s) else Refused)
    (V\<lparr>pt_table := if yes then T0(s \<mapsto> (p, f)) else T0, pt_next := s + 1\<rparr>)
    [(entry_with yes 0 0 [])\<lparr>en_drop := dom (pt_table V) - dom T0\<rparr>]"
  (is "played _ _ ?r ?V [?e]")
proof (rule playedI)
  fix rest m
  assume m: "plays V (?e # rest) m"
  have "en_accept ?e" and "pt_table V |` (- en_drop ?e) = T0"
    using map_le_restrict [OF T0] by (simp_all add: entry_with_def)
  then show "\<exists>m' h. answers m (Open f p) = Some (?r, m') \<and> handlers m' = [h] \<and> sc_script h = rest
      \<and> proto_of m' = ?V"
    using open_answer [OF m _ assms(1,2), of p] by (simp add: entry_with_def Let_def del: perform.simps)
qed

lemma refused_played:
  assumes "\<not> en_accept e \<or> next_free (pt_table V) (pt_next V) = None \<or> \<not> has_flag f read_or_write"
    and "V' = (if \<not> en_accept e then V
        else case next_free (pt_table V) (pt_next V) of
          None \<Rightarrow> V\<lparr>pt_next := pt_next V - 1\<rparr> | Some s \<Rightarrow> V\<lparr>pt_next := s + 1\<rparr>)"
  shows "played V (Open f p) Refused V' [e]"
  by (rule playedI) (unfold assms(2), rule open_without_answer [OF _ assms(1)])

lemma allows_played:
  assumes "allows V q r V'"
  shows "\<exists>es. played V q r V' es"
  using assms
proof cases
  case (counted l)
  then show ?thesis
    using playedI [of V "idle\<lparr>en_ids := l\<rparr>" q r V'] count_answer [of V "idle\<lparr>en_ids := l\<rparr>"]
    by (auto simp del: perform.simps)
next
  case (listed i)
  have "answers m q = Some (r, m)" if "plays V es m" for es m
    using that by (rule playsE) (simp add: listed getBlobId_def entry_at_def)
  then show ?thesis
    using listed(3) by (auto simp: played_def intro!: exI [of _ "[]"])
next
  case (nobody f p)
  then show ?thesis
    using refused_played [of idle V f V p] by (auto simp: idle_def)
next
  case (no_number f p)
  then show ?thesis
    using refused_played [of "entry_with False 0 0 []" V f V' p] by auto
next
  case (no_flags s f p)
  then show ?thesis
    using refused_played [of "entry_with False 0 0 []" V f V' p] by auto
next
  case (turned_down s f T0 p)
  then show ?thesis
    using open_played [of V s f T0 p False] by auto
next
  case (opened s f T0 p)
  then show ?thesis
    using open_played [of V s f T0 p True] by auto
next
  case (others T')
  then show ?thesis
    using others_played [of q V r T'] by (auto simp: played_def)
qed

lemma delivers_played:
  assumes "delivers crc maxTransfer V qs rs V'"
  shows "\<exists>es. \<forall>m. plays V es m \<longrightarrow> (\<exists>m'. serve crc scripted_methods maxTransfer t clk qs (Some m) = Some (rs, Some m')
    \<and> plays V' [] m')"
  using assms
proof (induction rule: runs.induct)
  case (no_request V)
  then show ?case by auto
next
  case (turned_away q r V qs rs V')
  then obtain es where es: "\<And>m. plays V es m \<Longrightarrow>
      \<exists>m'. serve crc scripted_methods maxTransfer t clk qs (Some m) = Some (rs, Some m') \<and> plays V' [] m'"
    by blast
  have "handleBlobCommand crc scripted_methods t clk (req_cmd q) (req_data q) k (Some m) = Some (r, Some m)"
    for k and m :: "scripted BlobManager"
    using turned_away.hyps(1) by (simp add: handle_meaning getBlobManager_def)
  then show ?case
    using es by (intro exI [of _ es]) (fastforce simp: oem_handler_def)
next
  case (served q c V rp V1 qs rs V')
  obtain e1 where e1: "\<And>rest m. plays V (e1 @ rest) m \<Longrightarrow> \<exists>m'. answers m c = Some (rp, m') \<and> plays V1 rest m'"
    using allows_played [OF served.hyps(2)] unfolding played_def by blast
  obtain es where es: "\<And>m. plays V1 es m \<Longrightarrow>
      \<exists>m'. serve crc scripted_methods maxTransfer t clk qs (Some m) = Some (rs, Some m') \<and> plays V' [] m'"
    using served.IH by blast
  let ?max = "maxTransfer (req_channel q)"
  have "\<exists>m'. serve crc scripted_methods maxTransfer t clk (q # qs) (Some m) =
      Some (respond crc ?max rp # rs, Some m') \<and> plays V' [] m'" if m: "plays V (e1 @ es) m" for m
  proof -
    obtain m1 where a: "answers m c = Some (rp, m1)" and m1: "plays V1 es m1"
      using e1 [OF m] by blast
    have "handleBlobCommand crc scripted_methods t clk (req_cmd q) (req_data q) ?max (Some m) =
        Some (respond crc ?max rp, Some m1)"
      using a served.hyps(1) by (simp add: handle_meaning getBlobManager_def del: perform.simps)
    then show ?thesis
      using es [OF m1] by (auto simp: oem_handler_def)
  qed
  then show ?case
    by blast
qed

section \<open>From power-on\<close>

text \<open>The manager with the handlers \<open>hs\<close>, registered one after the other.\<close>

definition registered :: "'h list \<Rightarrow> 'h BlobManager \<Rightarrow> 'h BlobManager" where
  "registered hs = fold (\<lambda>h m. snd (registerHandler (Some h) m)) hs"

lemma registered_eq: "registered hs m = m\<lparr>handlers := handlers m @ hs\<rparr>"
  by (induction hs arbitrary: m) (simp_all add: registered_def registerHandler_def)

lemma registered_inv:
  assumes "blob_handler gbi hinv live accepts" and "list_all (\<lambda>h. hinv h \<and> live h = Map.empty) hs"
    and "mgr_inv hinv live m"
  shows "mgr_inv hinv live (registered hs m)"
  using assms(2,3)
proof (induction hs arbitrary: m)
  case (Cons h hs)
  then show ?case
    using blob_handler.registerHandler_inv [OF assms(1), of m h]
    by (simp add: registered_def registerHandler_def)
qed (simp add: registered_def)

definition power_on :: "int \<Rightarrow> proto" where
  "power_on t = \<lparr>pt_table = Map.empty, pt_next = word_of_int t, pt_ids = []\<rparr>"

lemma proto_of_new: "proto_of (registered hs (getBlobManager t clk None)) = power_on t"
  by (simp add: proto_of_def power_on_def registered_eq getBlobManager_def new_BlobManager_def open_table_def
      fun_eq_iff)

definition player :: "script_entry list \<Rightarrow> scripted" where
  "player es = \<lparr>sc_live = Map.empty, sc_now = idle, sc_script = es\<rparr>"

definition striding :: "nat \<Rightarrow> time" where
  "striding k = int k * nanoseconds defaultSessionTimeout"

lemma striding_mono: "mono striding"
  by (auto simp: striding_def nanoseconds_def defaultSessionTimeout_def intro!: monoI)

lemma plays_new:
  "plays (power_on t) es (registered [player es] (getBlobManager t striding None))"
  (is "plays _ _ ?m")
proof -
  have "mgr_inv (\<lambda>_. True) sc_live (getBlobManager t striding None :: scripted BlobManager)"
    by (rule getBlobManager_inv) simp
  then have "mgr_inv (\<lambda>_. True) sc_live ?m"
    by (rule registered_inv [OF scripted.blob_handler_axioms, rotated]) (simp add: player_def)
  moreover have "strides ?m"
    by (auto simp: strides_def registered_eq getBlobManager_def new_BlobManager_def striding_def
        nanoseconds_def defaultSessionTimeout_def algebra_simps)
  moreover have "handlers ?m = [player es]" and "sc_script (player es) = es"
    by (simp_all add: registered_eq getBlobManager_def new_BlobManager_def player_def)
  ultimately show ?thesis
    using proto_of_new by (auto simp: plays_def)
qed

lemma delivers_from_power_on:
  assumes "delivers crc maxTransfer (power_on t) qs rs V'"
  shows "\<exists>es m'. serve crc scripted_methods maxTransfer t striding qs
    (Some (registered [player es] (getBlobManager t striding None))) = Some (rs, Some m')"
  using delivers_played [OF assms, of t striding] plays_new by blast

text \<open>Start-up does nothing to the manager but register handlers in their initial state.\<close>

lemma run_factory_registers:
  assumes "run_factory (BlobManager_methods gbi) call p factory seen m d = Some (x, l, seen', m', d')"
    and "makes_new call new_handler"
  shows "m' = m \<or> (\<exists>h. new_handler h \<and> m' = m\<lparr>handlers := handlers m @ [h]\<rparr>)"
proof (cases "factory \<in> seen")
  case False
  then obtain f where f: "factory = Some f"
    using assms(1) by (cases factory) (simp_all add: run_factory_def)
  obtain r d1 where r: "call f d = (r, d1)"
    by fastforce
  then have "new_handler h" if "r = Inr (Some h)" for h
    using assms(2) that unfolding makes_new_def by blast
  then show ?thesis
    using assms(1) False r
    by (auto simp: run_factory_def f registerHandler_def Let_def
        split: option.splits sum.splits exn.splits)
qed (use assms(1) in \<open>simp add: run_factory_def\<close>)

lemma load_library_registers:
  assumes "load_library (BlobManager_methods gbi) sys call p seen m d = Some (x, l, seen', m', d')"
    and "makes_new call new_handler"
  shows "\<exists>hs. list_all new_handler hs \<and> m' = registered hs m"
proof -
  have "m' = m \<or> (\<exists>h. new_handler h \<and> m' = m\<lparr>handlers := handlers m @ [h]\<rparr>)"
    using assms(1) run_factory_registers [OF _ assms(2)]
    by (auto simp: load_library_def Let_def split: prod.splits option.splits)
  then show ?thesis
  proof
    assume "m' = m"
    then show ?thesis
      by (intro exI [of _ "[]"]) (simp add: registered_def)
  next
    assume "\<exists>h. new_handler h \<and> m' = m\<lparr>handlers := handlers m @ [h]\<rparr>"
    then obtain h where "new_handler h" "m' = m\<lparr>handlers := handlers m @ [h]\<rparr>"
      by blast
    then show ?thesis
      by (intro exI [of _ "[h]"]) (simp add: registered_eq)
  qed
qed

lemma load_libraries_registers:
  assumes "load_libraries (BlobManager_methods gbi) sys call ps seen m d = Some (x, l, m', d')"
    and new: "makes_new call new_handler"
  shows "\<exists>hs. list_all new_handler hs \<and> m' = registered hs m"
  using assms(1)
proof (induction ps arbitrary: seen m d x l)
  case Nil
  then show ?case
    by (intro exI [of _ "[]"]) (simp add: registered_def)
next
  case (Cons p ps)
  obtain x1 l1 seen1 m1 d1 where 1: "load_library (BlobManager_methods gbi) sys call p seen m d =
      Some (x1, l1, seen1, m1, d1)"
    using Cons.prems by (auto simp: bind_eq_Some_conv)
  obtain hs where hs: "list_all new_handler hs" "m1 = registered hs m"
    using load_library_registers [OF 1 new] by blast
  show ?case
  proof (cases x1)
    case None
    then obtain x2 l2 where "load_libraries (BlobManager_methods gbi) sys call ps seen1 m1 d1 = Some (x2, l2, m', d')"
      using Cons.prems 1 by (auto simp: bind_eq_Some_conv)
    then obtain hs' where "list_all new_handler hs'" "m' = registered hs' m1"
      using Cons.IH by blast
    then have "list_all new_handler (hs @ hs') \<and> m' = registered (hs @ hs') m"
      using hs by (simp add: registered_def)
    then show ?thesis
      by blast
  next
    case (Some e)
    then show ?thesis
      using Cons.prems 1 hs by auto
  qed
qed

lemma setup_registers:
  assumes "setupBlobGlobalHandler ipmi crc maxTransfer gbi t clk rd libc call path g d = Some (x, w, Some m, d')"
    and "makes_new call new_handler"
  shows "\<exists>hs. list_all new_handler hs \<and> m = registered hs (getBlobManager t clk g)"
proof -
  let ?load = "loadLibraries rd (dlsys_impl libc) call (BlobManager_methods gbi) path (getBlobManager t clk g)
    (registerOemHandler ipmi (prioOemBase ipmi) (obmcOemNumber ipmi) (blobTransferCmd ipmi)
      (Privilege_User ipmi) (oem_handler crc gbi maxTransfer) d)"
  obtain y ls m1 d1 where l: "?load = Some (y, ls, m1, d1)"
    using assms(1) by (cases ?load) (auto simp: setupBlobGlobalHandler_def)
  have m: "m1 = m"
    using assms(1) l by (simp add: setupBlobGlobalHandler_def Let_def split: option.splits exn.splits)
  show ?thesis
  proof (cases "rd path")
    case (Inl e)
    then show ?thesis
      using l m by (intro exI [of _ "[]"]) (simp add: loadLibraries_def getLibraryList_def registered_def)
  next
    case (Inr ps)
    then show ?thesis
      using l m load_libraries_registers [OF _ assms(2)] by (simp add: loadLibraries_def getLibraryList_def)
  qed
qed

text \<open>
  An environment with one library, whose factory makes the handler \<open>h\<close>; \<open>lib\<close> and \<open>f\<close> are the
  library and the address of the factory.
\<close>

definition one_library :: "'p \<Rightarrow> 'f \<Rightarrow> ('p, 'f, 'd) libc_dl" where
  "one_library lib f = \<lparr>libc_dlerror = (\<lambda>d. (None, d)), libc_dlopen = (\<lambda>p fl d. (Some lib, d)),
     libc_dlsym = (\<lambda>l s d. (Some f, d))\<rparr>"

lemma one_library_loaded:
  "load_library (BlobManager_methods gbi) (dlsys_impl (one_library lib f)) (\<lambda>f d. (Inr (Some h), d)) p {} m d =
     Some (None, [], {Some f}, registered [h] m, d)"
  by (simp add: load_library_def run_factory_def one_library_def registered_eq registerHandler_def)

lemma setup_one_library:
  "\<exists>w d'. setupBlobGlobalHandler ipmi crc maxTransfer gbi t clk (\<lambda>p. Inr [''/h.so'']) (one_library lib f)
     (\<lambda>f d. (Inr (Some h), d)) path None d = Some (None, w, Some (registered [h] (getBlobManager t clk None)), d')"
proof -
  have "matching_paths matchBlobHandler [''/h.so''] = [''/h.so'']"
    by (simp add: matchBlobHandler_def)
  then show ?thesis
    by (simp add: setupBlobGlobalHandler_def loadLibraries_def getLibraryList_def one_library_loaded)
qed

text \<open>
  The replies the program can give to the requests \<open>qs\<close> from power-on: with handlers of state type
  \<open>'h\<close> that keep their contract, a loader with libraries of type \<open>'p\<close> and factories of type \<open>'f\<close>
  that make handlers in their initial state, any directory, and a clock in \<open>clocks\<close>. Start-up
  has to be defined, and so has the service of the requests.
\<close>

definition possible_replies ::
    "((nat \<Rightarrow> time) \<Rightarrow> bool) \<Rightarrow> ('o, 'c, 'h, 'd) ipmi_daemon \<Rightarrow> ('p \<times> 'f) itself \<Rightarrow> (bytes \<Rightarrow> u16)
       \<Rightarrow> ('c \<Rightarrow> nat) \<Rightarrow> int \<Rightarrow> string \<Rightarrow> 'd \<Rightarrow> 'c request list \<Rightarrow> resp list set" where
  "possible_replies clocks ipmi types crc maxTransfer t path d qs =
     {rs. \<exists>gbi hinv live accepts clk rd (libc :: ('p, 'f, 'd) libc_dl) call x w m d' m'.
        blob_handler gbi hinv live accepts \<and> makes_new call (\<lambda>h. hinv h \<and> live h = Map.empty) \<and> clocks clk
        \<and> setupBlobGlobalHandler ipmi crc maxTransfer gbi t clk rd libc call path None d = Some (x, w, Some m, d')
        \<and> serve crc gbi maxTransfer t clk qs (Some m) = Some (rs, Some m')}"

lemma possible_replies_delivered:
  fixes libs :: "('p \<times> 'f) itself"
  shows "rs \<in> possible_replies clocks ipmi libs crc maxTransfer t path d qs \<Longrightarrow>
    \<exists>V'. delivers crc maxTransfer (power_on t) qs rs V'"
proof -
  assume "rs \<in> possible_replies clocks ipmi libs crc maxTransfer t path d qs"
  then obtain gbi hinv live accepts clk rd and libc :: "('p, 'f, 'd) libc_dl" and call x w m d' m'
    where h: "blob_handler gbi hinv live accepts" "makes_new call (\<lambda>h. hinv h \<and> live h = Map.empty)"
      and up: "setupBlobGlobalHandler ipmi crc maxTransfer gbi t clk rd libc call path None d = Some (x, w, Some m, d')"
      and s: "serve crc gbi maxTransfer t clk qs (Some m) = Some (rs, Some m')"
    unfolding possible_replies_def by blast
  obtain hs where hs: "list_all (\<lambda>h. hinv h \<and> live h = Map.empty) hs" "m = registered hs (getBlobManager t clk None)"
    using setup_registers [OF up h(2)] by blast
  have "mgr_inv hinv live m"
    unfolding hs(2) by (rule registered_inv [OF h(1) hs(1)]) (simp add: getBlobManager_inv)
  from serve_delivers [OF h(1) this] s show ?thesis
    unfolding hs(2) by (metis option.inject prod.inject proto_of_new)
qed

lemma delivered_possible:
  fixes ipmi :: "('o, 'c, scripted, 'd) ipmi_daemon" and libs :: "('p \<times> 'f) itself"
  assumes "delivers crc maxTransfer (power_on t) qs rs V'"
  shows "rs \<in> possible_replies mono ipmi libs crc maxTransfer t path d qs"
proof -
  obtain es m' where s: "serve crc scripted_methods maxTransfer t striding qs
      (Some (registered [player es] (getBlobManager t striding None))) = Some (rs, Some m')"
    using delivers_from_power_on [OF assms] by blast
  obtain w d' where "setupBlobGlobalHandler ipmi crc maxTransfer scripted_methods t striding (\<lambda>p. Inr [''/h.so''])
      (one_library undefined undefined :: ('p, 'f, 'd) libc_dl) (\<lambda>f d. (Inr (Some (player es)), d)) path None d =
      Some (None, w, Some (registered [player es] (getBlobManager t striding None)), d')"
    using setup_one_library [where gbi = scripted_methods and ipmi = ipmi and clk = striding and h = "player es"
        and lib = undefined and f = undefined] by blast
  moreover have "makes_new (\<lambda>f d. (Inr (Some (player es)), d)) (\<lambda>h. True \<and> sc_live h = Map.empty)"
    by (simp add: makes_new_def player_def)
  ultimately show ?thesis
    using s scripted.blob_handler_axioms striding_mono unfolding possible_replies_def by blast
qed

text \<open>
  C5: The program is exactly its protocol. Take the program from power-on, start-up included.
  First, whatever the handlers, of any type, as long as they keep their contract, whatever the
  directory and the libraries, any number of them, as long as factories make handlers in their
  initial state and start-up is defined, and whatever the clock: every sequence of replies it
  gives is one that the abstract protocol allows. Second, the protocol allows no more: each of
  its sequences of replies is given by the program over the handler of \<open>Scripted_Handler\<close>, on a
  clock that does not go back. The protocol knows the table of open sessions, the next session
  number and the last list of blobs, and nothing of handlers, libraries and clocks.
\<close>

theorem program_is_its_protocol:
  fixes ipmi :: "('o, 'c, 'h, 'd) ipmi_daemon" and ipmi' :: "('o, 'c, scripted, 'd) ipmi_daemon"
    and libs :: "('p \<times> 'f) itself"
  shows "possible_replies (\<lambda>clk. True) ipmi libs crc maxTransfer t path d qs
      \<subseteq> {rs. \<exists>V'. delivers crc maxTransfer (power_on t) qs rs V'}
    \<and> possible_replies mono ipmi' libs crc maxTransfer t path d qs
      = {rs. \<exists>V'. delivers crc maxTransfer (power_on t) qs rs V'}"
  by (auto intro: possible_replies_delivered delivered_possible)

section \<open>From any state\<close>

text \<open>
  A step of \<open>permits\<close> is one of \<open>allows\<close>, for a fitting session number and list of blobs; and
  there is a state of the daemon with these.
\<close>

lemma find_here: "P 0 \<Longrightarrow> 0 < n \<Longrightarrow> find P [0..<n] = Some 0"
  by (simp add: upt_conv_Cons)

lemma next_free_here:
  assumes "T n = None"
  shows "next_free T n = Some n"
proof -
  have "find (\<lambda>k. T (n + word_of_nat k) = None) [0..<65535] = Some 0"
    by (rule find_here) (simp_all add: assms)
  then show ?thesis
    unfolding next_free_def by (simp only: option.map) simp
qed

lemma permits_allows:
  assumes "permits T q r T'"
  shows "\<exists>V V'. pt_table V = T \<and> allows V q r V' \<and> pt_table V' = T'"
proof -
  define V where "V n l = \<lparr>pt_table = T, pt_next = n, pt_ids = l\<rparr>" for n l
  have T: "pt_table (V n l) = T" "pt_next (V n l) = n" "pt_ids (V n l) = l" for n l
    by (simp_all add: V_def)
  have by_step: ?thesis if "allows (V n l) q r V'" "pt_table V' = T'" for n l V'
    using that T by blast
  show ?thesis
    using assms
  proof cases
    case (counted n)
    then show ?thesis
      using by_step [of 0 "[]" "(V 0 [])\<lparr>pt_ids := replicate (unat n) []\<rparr>"] T
        allows.counted [of "V 0 []" "replicate (unat n) []"] by simp
  next
    case (listed p i)
    have "entry_at (replicate (unat i + 1) p) i = Answer (c_str_bytes p)"
      using listed(4) by (simp add: entry_at_def del: replicate_Suc)
    then show ?thesis
      using by_step [of 0 "replicate (unat i + 1) p"] listed T
        allows.listed [of "V 0 (replicate (unat i + 1) p)" i] by simp
  next
    case (not_listed i)
    then show ?thesis
      using by_step [of 0 "[]"] T allows.listed [of "V 0 []" i] by (auto simp: entry_at_def)
  next
    case (opened s f T0 p)
    then show ?thesis
      using by_step [of s "[]"] T allows.opened [of "V s []" s f T0 p] next_free_here [of T s] by auto
  next
    case (not_opened f p)
    show ?thesis
    proof (cases "T' = T")
      case True
      then show ?thesis
        using not_opened by_step [of 0 "[]"] T allows.nobody [of "V 0 []" f p] by simp
    next
      case False
      then obtain s where "T s = None" "has_flag f read_or_write" "T' \<subseteq>\<^sub>m T"
        using not_opened by auto
      then show ?thesis
        using not_opened by_step [of s "[]"] T allows.turned_down [of "V s []" s f T' p]
          next_free_here [of T s] by simp
    qed
  qed (use assms by_step [OF allows.others, of 0 "[]" T'] T in auto)
qed

definition staged :: "proto \<Rightarrow> script_entry list \<Rightarrow> scripted BlobManager" where
  "staged V es =
     \<lparr>sessionTimeout = 1, next_session = pt_next V, ids = pt_ids V,
      handlers = [\<lparr>sc_live = pt_table V, sc_now = idle, sc_script = es\<rparr>],
      sessions = (\<lambda>s. map_option (\<lambda>(p, f). \<lparr>blobId = p, handler = Some 0, flags = f,
        lastActionTime = - nanoseconds 1\<rparr>) (pt_table V s)),
      openFiles = (\<lambda>p. Some (int (card {s. \<exists>f. pt_table V s = Some (p, f)}))),
      openSessions = [0 \<mapsto> dom (pt_table V)], clock = (\<lambda>k. int k * nanoseconds 1), cerr = []\<rparr>"

lemma staged_plays:
  assumes "proper (pt_table V)"
  shows "plays V es (staged V es)" and "mgr_inv (\<lambda>_. True) sc_live (staged V es)"
    and "open_table (staged V es) = pt_table V"
proof -
  let ?m = "staged V es"
  show T: "open_table ?m = pt_table V"
    by (auto simp: open_table_def staged_def fun_eq_iff option.map_comp comp_def split_beta
        intro: option.map_ident)
  have of_handler: "sessions_of_handler ?m i = (if i = 0 then dom (pt_table V) else {})" for i
    by (auto simp: sessions_of_handler_def staged_def)
  have on: "sessions_on ?m p = {s. \<exists>f. pt_table V s = Some (p, f)}" for p
    by (auto simp: sessions_on_def staged_def)
  have "table_inv ?m"
    using properD [OF assms] by (auto simp: table_inv_def staged_def)
  moreover have "sess_of ?m 0 = pt_table V"
    by (auto simp: sess_of_def staged_def fun_eq_iff split: option.split)
  ultimately show inv: "mgr_inv (\<lambda>_. True) sc_live ?m"
    using of_handler on by (auto simp: mgr_inv_def index_inv_def file_count_def handler_sessions_def staged_def)
  have "strides ?m"
    by (auto simp: strides_def staged_def nanoseconds_def)
  then show "plays V es ?m"
    using inv T by (simp add: plays_def proto_of_def) (simp add: staged_def)
qed

text \<open>
  C30: The table alone is exact too: from any state, \<open>permits\<close> allows no answer that the daemon
  cannot give. For each of its steps, on any table whose sessions have been opened for reading
  or writing, and for any bytes that decode to its request, there are a handler that keeps its
  contract and a well-formed state of the manager with that table in which the daemon gives just
  this reply and ends with just this table.
\<close>

theorem protocol_is_exact:
  assumes "permits T q r T'" and "\<forall>p f. (p, f) \<in> ran T \<longrightarrow> has_flag f read_or_write"
    and "decode crc cmd d = Inr q"
  shows "\<exists>(gbi :: scripted GenericBlobInterface) hinv live accepts m m'. blob_handler gbi hinv live accepts
    \<and> mgr_inv hinv live m \<and> open_table m = T \<and> open_table m' = T'
    \<and> handleBlobCommand crc gbi t clk cmd d maxSize (Some m) = Some (respond crc maxSize r, Some m')"
proof -
  obtain V V' where V: "pt_table V = T" "allows V q r V'" "pt_table V' = T'"
    using permits_allows [OF assms(1)] by blast
  obtain es where es: "played V q r V' es"
    using allows_played [OF V(2)] by blast
  have proper: "proper (pt_table V)"
    using assms(2) V(1) by (simp add: proper_def)
  note staged = staged_plays [OF proper, of "es @ []"]
  obtain m' where a: "answers (staged V (es @ [])) q = Some (r, m')" and m': "plays V' [] m'"
    using es staged(1) unfolding played_def by blast
  then have "handleBlobCommand crc scripted_methods t clk cmd d maxSize (Some (staged V (es @ []))) =
      Some (respond crc maxSize r, Some m')"
    by (simp add: handle_meaning getBlobManager_def assms(3) del: perform.simps)
  moreover have "open_table m' = T'"
    using m' V(3) by (auto elim: playsE)
  ultimately show ?thesis
    using scripted.blob_handler_axioms staged(2,3) V(1) by blast
qed

text \<open>An \<open>open\<close> that the handler refuses, but that has ended a stale session.\<close>

lemma protocol_is_exact_witness:
  "\<exists>(gbi :: scripted GenericBlobInterface) hinv live accepts m m'. blob_handler gbi hinv live accepts
    \<and> mgr_inv hinv live m \<and> open_table m = [5 \<mapsto> (''/a'', 1)] \<and> open_table m' = Map.empty
    \<and> handleBlobCommand demo_crc gbi 0 (\<lambda>k. 0) 2 (with_crc demo_crc (open_body 3 ''/b'')) 64 (Some m) =
        Some (respond demo_crc 64 Refused, Some m')"
proof (rule protocol_is_exact)
  show "permits [5 \<mapsto> (''/a'', 1)] (Open 3 ''/b'') Refused Map.empty"
    by (rule not_opened) (auto intro!: exI [of _ 6])
  show "decode demo_crc 2 (with_crc demo_crc (open_body 3 ''/b'')) = Inr (Open 3 ''/b'')"
    using decode_encoded [of "Open 3 ''/b''" demo_crc] by simp
qed simp

end
