(* ===== verification/Width.thy ===== *)
theory Width
  imports Protocol_Tight
begin

unbundle bit_operations_syntax

text \<open>
  The width of times. The readings of \<open>std::chrono::steady_clock\<close> and the durations made of them
  are 64-bit counters of nanoseconds; the model has integers. As long as the clock itself fits,
  no difference and no conversion overflows, so that the integers are what the code computes.
\<close>

definition fits64 :: "int \<Rightarrow> bool" where
  "fits64 x \<longleftrightarrow> - (2 ^ 63) \<le> x \<and> x < 2 ^ 63"

text \<open>
  \<open>timeNow - lastActionTime >= sessionTimeout\<close> on 64-bit counters: the timeout, in seconds, is
  brought to nanoseconds first.
\<close>

definition stale64 :: "64 word \<Rightarrow> 64 word \<Rightarrow> 64 word \<Rightarrow> bool" where
  "stale64 timeNow lastAction timeout \<longleftrightarrow> sint (timeNow - lastAction) \<ge> sint (timeout * 1000000000)"

lemma sint_fits: "fits64 x \<Longrightarrow> sint (word_of_int x :: 64 word) = x"
  unfolding fits64_def by transfer (simp add: signed_take_bit_int_eq_self)

lemma stale64_eq:
  assumes "fits64 (now - t)" and "fits64 (nanoseconds secs)"
  shows "stale64 (word_of_int now) (word_of_int t) (word_of_int secs) \<longleftrightarrow> now - t \<ge> nanoseconds secs"
proof -
  have "word_of_int secs * (1000000000 :: 64 word) = word_of_int (nanoseconds secs)"
    by (simp add: nanoseconds_def)
  moreover have "word_of_int now - word_of_int t = (word_of_int (now - t) :: 64 word)"
    by simp
  ultimately show ?thesis
    using sint_fits [OF assms(1)] sint_fits [OF assms(2)] by (simp add: stale64_def)
qed

text \<open>Every time in the table is a reading of the clock.\<close>

lemma times_are_readings:
  assumes "setupBlobGlobalHandler ipmi crc maxTransfer gbi t clk rd libc call path None d = Some (x, w, Some m, d')"
    and "serve crc gbi maxTransfer t' clk' qs (Some m) = Some (rs, Some m')"
  shows "sessionTimeout m' = defaultSessionTimeout \<and> range (clock m') \<subseteq> range clk
    \<and> (\<forall>s si. sessions m' s = Some si \<longrightarrow> lastActionTime si \<in> range clk)"
proof -
  have "makes_new call (\<lambda>_. True)"
    by (simp add: makes_new_def)
  from setup_registers [OF assms(1) this] obtain hs where "m = registered hs (getBlobManager t clk None)"
    by blast
  then have m: "sessionTimeout m = defaultSessionTimeout" "clock m = clk" "sessions m = Map.empty"
    by (simp_all add: registered_eq getBlobManager_def new_BlobManager_def)
  obtain n where n: "sessionTimeout m' = sessionTimeout m" "\<forall>k. clock m' k = clock m (n + k)" "stamped n m m'"
    using serve_advances [OF assms(2)] by (auto simp: advances_def)
  have "lastActionTime si \<in> range clk" if "sessions m' s = Some si" for s si
    using n(3) that m(2,3) unfolding stamped_def by (metis option.distinct(1) rangeI)
  then show ?thesis
    using n(1,2) m(1,2) by auto
qed

text \<open>
  C40: Times fit their 64-bit counters. Take the program from power-on, with whatever libraries,
  handlers and requests, on a clock whose readings fit a signed 64-bit counter and are not
  negative. For any session then open and any reading to come, neither the time since its last
  use nor the timeout in nanoseconds overflows, and the comparison of the two on 64-bit counters
  comes out as on integers.
\<close>

theorem times_fit:
  assumes "setupBlobGlobalHandler ipmi crc maxTransfer gbi t clk rd libc call path None d = Some (x, w, Some m, d')"
    and "serve crc gbi maxTransfer t' clk' qs (Some m) = Some (rs, Some m')"
    and "\<forall>k. 0 \<le> clk k \<and> clk k < 2 ^ 63" and "sessions m' s = Some si"
  shows "fits64 (clock m' k - lastActionTime si) \<and> fits64 (nanoseconds (sessionTimeout m'))
    \<and> (stale64 (word_of_int (clock m' k)) (word_of_int (lastActionTime si)) (word_of_int (sessionTimeout m'))
       \<longleftrightarrow> stale (clock m' k) m' s)"
proof -
  note r = times_are_readings [OF assms(1,2)]
  have bound: "0 \<le> i \<and> i < 2 ^ 63" if "i \<in> range clk" for i
    using assms(3) that by auto
  have "clock m' k \<in> range clk" "lastActionTime si \<in> range clk"
    using r assms(4) by auto
  then have f: "fits64 (clock m' k - lastActionTime si)"
    using bound [of "clock m' k"] bound [of "lastActionTime si"] unfolding fits64_def by linarith
  moreover have g: "fits64 (nanoseconds (sessionTimeout m'))"
    using r by (simp add: fits64_def nanoseconds_def defaultSessionTimeout_def)
  ultimately show ?thesis
    using stale64_eq [OF f g] assms(4) by (simp add: stale_def)
qed

lemma times_fit_witness:
  "fits64 (clock demo_open 3 - lastActionTime demo_session) \<and> fits64 (nanoseconds (sessionTimeout demo_open))
    \<and> (stale64 (word_of_int (clock demo_open 3)) (word_of_int (lastActionTime demo_session))
        (word_of_int (sessionTimeout demo_open)) \<longleftrightarrow> stale (clock demo_open 3) demo_open 5)"
proof -
  have start: "registered [demo_handler] (getBlobManager 5 (\<lambda>k. 0) None) = demo_start"
    by (simp add: registered_eq getBlobManager_def demo_start_def new_BlobManager_def defaultSessionTimeout_def)
  obtain w d' where up: "setupBlobGlobalHandler demo_daemon demo_crc (\<lambda>c. 64) ExampleBlobHandler_methods 5 (\<lambda>k. 0)
      (\<lambda>p. Inr [''/h.so'']) (one_library () ()) (\<lambda>f d. (Inr (Some demo_handler), d)) ''/usr/lib'' None None =
      Some (None, w, Some demo_start, d')"
    using setup_one_library [where ipmi = demo_daemon and gbi = ExampleBlobHandler_methods and h = demo_handler
        and clk = "\<lambda>k. 0" and t = 5 and d = None and lib = "()" and f = "()"] unfolding start by blast
  have "serve demo_crc ExampleBlobHandler_methods (\<lambda>c. 64) 0 (\<lambda>k. 0)
      [\<lparr>req_channel = 0 :: nat, req_cmd = 2, req_data = with_crc demo_crc (open_body 3 supportedPath)\<rparr>] (Some demo_start) =
      Some ([framed demo_crc 64 (le16 5)], Some demo_open)"
    by (simp add: oem_handler_def demo_open_request)
  from times_fit [OF up this, of 5 demo_session 3] show ?thesis
    by (simp add: demo_open_def)
qed

end
