(* ===== verification/Spec2Isabelle.thy ===== *)
theory Spec2Isabelle
  imports Manager_Props Ipmi_Props Example_Props Utils_Props Simulation Exceptions_Props Service Timing
    Protocol_Exceptions Protocol_Tight Width
begin

text \<open>
  A verification development for phosphor-ipmi-blobs, the blob transfer commands of the
  OpenBMC IPMI daemon.

  \<^bold>\<open>The program.\<close> A shared module (\<^verbatim>\<open>main.cpp\<close>) registers a callback with the IPMI daemon and
  loads the blob libraries of a directory (\<^verbatim>\<open>utils.cpp\<close>, \<^verbatim>\<open>fs.cpp\<close>, \<^verbatim>\<open>internal/sys.cpp\<close>), each
  of which makes one blob handler. A request goes through \<^verbatim>\<open>process.cpp\<close> (length and checksum,
  choice of the command handler, size and checksum of the reply) to a command handler of
  \<^verbatim>\<open>ipmi.cpp\<close> (decoding of the packed structs, the call of the manager, encoding of the
  result) and from there to the one manager (\<^verbatim>\<open>manager.hpp\<close>, \<^verbatim>\<open>manager.cpp\<close>), which owns the
  handlers and the open sessions and calls the handlers through the virtual interface of
  \<^verbatim>\<open>blobs-ipmid/blobs.hpp\<close>. \<^verbatim>\<open>example/\<close> is the handler the repository ships.

  \<^bold>\<open>The model, theory by theory.\<close>
  \<^item> \<open>Prelude\<close>: machine integers as words; computations that can run into undefined behaviour
    as options, \<open>None\<close> being the undefined behaviour, with the weakest-precondition predicate
    \<open>ok\<close>; bounds-checked buffer reads; little-endian integers.
  \<^item> \<open>Blobs\<close>: commands, flags, \<open>BlobMeta\<close>, the handler interface \<open>GenericBlobInterface\<close> as a
    record of methods, and the locale \<open>blob_handler\<close>, the contract of a handler.
  \<^item> \<open>Manager_Iface\<close>: the class \<open>ManagerInterface\<close> as a record of methods, and the locale
    \<open>manager_interface\<close>, what its clients rely on.
  \<^item> \<open>Manager\<close>: the members of \<open>BlobManager\<close> as a record, one definition for each member
    function. \<open>Manager_Inv\<close>: its invariant \<open>mgr_inv\<close>, kept by every operation over handlers that
    satisfy \<open>blob_handler\<close>; the \<open>sublocale\<close> at its end discharges \<open>manager_interface\<close>.
  \<^item> \<open>Ipmi\<close>, \<open>Process\<close>, \<open>Utils\<close>, \<open>System\<close>: the command handlers, the routing, the loading of the
    libraries and the start-up, each over an arbitrary manager where the code has a
    \<open>ManagerInterface*\<close>. \<open>System\<close> also has \<open>serve\<close> (a sequence of requests) and \<open>reachable\<close> (the
    states of the static manager pointer, as an inductive predicate).
  \<^item> \<open>Requests\<close>: the client's side. A typed request (\<open>client_request\<close>) is laid out by \<open>encode\<close>
    and read from any bytes by \<open>decode\<close>; \<open>perform\<close> is the one call of the manager behind it
    and \<open>respond\<close> the reply. \<open>routing_meaning\<close> shows that routing and command handlers
    together are \<open>decode\<close>, \<open>perform\<close> and \<open>respond\<close>, for any bytes and any manager; the later
    theories reason about requests through it.
  \<^item> \<open>Example\<close>: the example handler, with the interpretation of \<open>blob_handler\<close>.
  \<^item> \<open>Contract\<close>: a monitor that makes the calling contract of the README checkable for any
    handler. \<open>Transparency\<close>: monitors do not change what the manager does.
  \<^item> \<open>Reference\<close>: a manager with the session table only, and the simulation between the two.
    \<open>Simulation\<close>: the locale \<open>manager_simulation\<close>, which lifts a simulation of managers to the
    replies of the whole daemon, with its instances.
  \<^item> \<open>Exceptions\<close>: the manager once more, over handlers whose methods may throw; the locale
    \<open>throwing_handler\<close> is their contract. \<open>Exceptions_Daemon\<close>: requests on top of it; the safety
    of the command handlers comes from \<open>manager_interface\<close>, the agreement with the daemon
    without exceptions from \<open>manager_simulation\<close>.
  \<^item> \<open>Service\<close>: the specification of the daemon with the example handler as its clients see it,
    \<open>service_step\<close> on a table of blobs and a session number, and the proof that the daemon
    refines it for any requests, with \<open>client_view\<close> as the abstraction function.
  \<^item> \<open>Protocol\<close>: the specification of the daemon with any handlers: the step relation \<open>permits\<close>
    on the table of open sessions, its closure \<open>conforms\<close> over requests on the wire, and the
    proof that every run of the daemon is one of its runs. \<open>Protocol_Exceptions\<close>: the same over
    handlers that throw, where an exception counts as a refusal (\<open>endures\<close>).
  \<^item> \<open>Protocol_Runs\<close>: the protocol with all that determines a reply, the next session number and
    the last list of blobs besides the table: the step relation \<open>allows\<close>, its closure
    \<open>delivers\<close>, and \<open>serve_delivers\<close>. \<open>Scripted_Handler\<close>: a handler that can do anything its
    contract allows. \<open>Protocol_Tight\<close>: over it the daemon takes every run of the protocol, so
    that the program, from the start-up on, is exactly its protocol.
  \<^item> \<open>Timing\<close>: the readings of the clock over a run, the one manager call of a request, and how
    long a session is safe.
  \<^item> \<open>Width\<close>: the test for stale sessions on 64-bit counters.
  \<^item> \<open>Samples\<close>: concrete states for the witnesses. \<open>Manager_Props\<close>, \<open>Ipmi_Props\<close>,
    \<open>Example_Props\<close>, \<open>Utils_Props\<close>, \<open>Exceptions_Props\<close>, the ends of \<open>Service\<close>, \<open>Timing\<close>,
    \<open>Protocol\<close>, \<open>Protocol_Exceptions\<close>, \<open>Protocol_Tight\<close> and \<open>Width\<close>, and this theory: the properties.

  \<^bold>\<open>What is shown.\<close> The daemon serves any sequence of requests without undefined behaviour and
  with one well-formed reply each; with the example handler the replies are those of the
  abstract service, and with any handlers those of an abstract protocol, exceptions
  included; and, from power-on, every run of the protocol is one of the program, in some
  environment. The manager respects the calling contract towards its handlers; its
  indexes agree with the session table in every reachable state and are only an optimisation of
  it; the invariant and the protocol survive exceptions of the handlers at any point. For the manager: session
  numbers and the end of the search for one, opening, closing, expiring, deleting, the dispatch
  of session operations, the choice of the handler, the list of blobs; a session in use
  outlives any requests of others. For the protocol: the manager call that any bytes become and
  how its result comes back, so that a call over the wire is a local call of the manager, what is
  rejected, what an error reply says about the state, the type and shape of replies, that nobody
  can use a session that is not open and that the number of an open one is not handed out again.
  For the loader and the start-up: which handlers get registered, in any environment, and that
  start-up leaves a working daemon, whatever the factories throw, as long as \<open>dlsym\<close> returns no
  null symbol without an error. For the example handler: reads after writes, bounds, isolation of
  sessions, and a whole exchange over the wire. Some properties record where the code deviates from its documentation: the
  search for a session number stops one short, a full table is not cleaned up, a one-byte body
  needs no checksum, the length of large metadata wraps around, a new example session reads
  uninitialised memory, and any path with \<^verbatim>\<open>.so\<close> in it is loaded.

  \<^bold>\<open>Termination and bounds.\<close> All definitions are total functions; nothing has fuel. The loop of
  \<open>getSession\<close> ends because its 16-bit counter reaches \<open>0xffff\<close>, after at most 65535 rounds; it
  is also modelled as a loop that might not end (\<open>getSession_while\<close>), which is shown to. The
  other loops go over lists. The counts in \<open>openFiles\<close> are 32-bit integers; that they never
  overflow follows from the invariant, as there are at most 65536 sessions. Times are integers
  in nanoseconds; \<open>Width\<close> shows that nothing is lost by that, as long as the readings of the
  clock fit the 64-bit counters of \<open>std::chrono\<close>.

  \<^bold>\<open>Parameters.\<close> Code outside the repository is a parameter: the checksum
  \<open>ipmiblob::generateCrc\<close>, the channel size \<open>ipmi::getChannelMaxTransferSize\<close>, the registration
  \<open>ipmi::registerOemHandler\<close> with its constants, the directory listing, the dynamic loader of the
  C library, the factories and the handlers in the libraries. The clocks are inputs: \<open>clock\<close> is
  the sequence of readings to come. Handlers of all classes share one state type, whose
  methods dispatch on it.

  \<^bold>\<open>Not modelled.\<close> Exhaustion of memory, what the IPMI daemon does after an exception out of the
  callback or out of the start-up, and calls of a handler back into the manager. The daemon
  serves one request at a time, as the code assumes. \<open>setupExampleHandler\<close> has an empty body.
  The rest of the repository's C++ code is modelled; the tests and the build files are not part
  of the program.
\<close>

unbundle bit_operations_syntax

section \<open>The daemon as a whole\<close>

text \<open>
  C1: Whatever requests arrive, in whatever order and however malformed, in any reachable
  state of the daemon: serving them runs into no undefined behaviour (no read past the end
  of a request or of a reply, no dangling handler pointer, no use of an indeterminate value,
  no overflow of a session count), every request gets exactly one well-formed reply, and the
  invariant of the manager holds afterwards. This is for handlers that keep their side of
  the calling contract.
\<close>

theorem daemon_always_replies:
  assumes "blob_handler gbi hinv live accepts"
    and "reachable crc gbi (\<lambda>h. hinv h \<and> live h = Map.empty) g"
  shows "\<exists>rs g'. serve crc gbi maxTransfer t clk qs g = Some (rs, g')
    \<and> length rs = length qs \<and> list_all wf_resp rs \<and> static_inv hinv live g'"
  using blob_handler.serve_safe [OF assms(1) blob_handler.reachable_inv [OF assms],
      of crc maxTransfer t clk qs]
  by (auto simp: ok_iff)

lemma daemon_always_replies_witness:
  "\<exists>rs g'. serve demo_crc ExampleBlobHandler_methods (\<lambda>c :: nat. 64) 0 (\<lambda>k. 0)
      [\<lparr>req_channel = 0, req_cmd = 2, req_data = [1, 2, 3]\<rparr>, \<lparr>req_channel = 0, req_cmd = 77, req_data = []\<rparr>]
      (Some demo_start) = Some (rs, g')
    \<and> length rs = length [\<lparr>req_channel = 0, req_cmd = 2, req_data = [1, 2, 3]\<rparr>,
         \<lparr>req_channel = 0 :: nat, req_cmd = 77, req_data = []\<rparr>]
    \<and> list_all wf_resp rs \<and> static_inv example_inv example_live g'"
  by (rule daemon_always_replies [OF example.blob_handler_axioms demo_reachable])

text \<open>
  C2: The manager keeps its side of the calling contract. Take any handlers that return
  normally, and put a monitor in front of each that is undefined on a session call for a
  session not open in that handler, on a read or write without the flag for it, on a second
  open of a session number, on an open, stat or delete of a path the handler has not just
  accepted, and on a delete of a path with an open session. No sequence of requests ever
  trips a monitor, and the replies are those of the daemon without monitors.
\<close>

theorem daemon_respects_contract:
  assumes "plain_handler gbi hinv"
    and "reachable crc (monitored gbi) (\<lambda>hm. hinv (fst hm) \<and> mon_sessions (snd hm) = Map.empty) g"
  shows "\<exists>rs g'. serve crc (monitored gbi) maxTransfer t clk qs g = Some (rs, g')
    \<and> serve crc gbi maxTransfer t clk qs (map_option forget g) = Some (rs, map_option forget g')"
proof -
  have h: "blob_handler (monitored gbi) (mon_inv hinv) mon_live path_accepted"
    using assms(1) by (rule plain_handler.monitored_is_handler)
  have "static_inv (mon_inv hinv) mon_live g"
    using assms(2) by (intro blob_handler.reachable_inv [OF h]) (simp add: mon_inv_def mon_live_def)
  then obtain rs g' where s: "serve crc (monitored gbi) maxTransfer t clk qs g = Some (rs, g')"
    using blob_handler.serve_safe [OF h, of g crc maxTransfer t clk qs] by (auto simp: ok_iff)
  then show ?thesis
    using serve_monitored [OF s] by auto
qed

lemma daemon_respects_contract_witness:
  "\<exists>rs g'. serve demo_crc (monitored ExampleBlobHandler_methods) (\<lambda>c :: nat. 64) 0 (\<lambda>k. 0)
      [\<lparr>req_channel = 0, req_cmd = 2, req_data = with_crc demo_crc (open_body 3 supportedPath)\<rparr>]
      (Some (new_BlobManager 600 5 (\<lambda>k. 0))) = Some (rs, g')
    \<and> serve demo_crc ExampleBlobHandler_methods (\<lambda>c :: nat. 64) 0 (\<lambda>k. 0)
      [\<lparr>req_channel = 0, req_cmd = 2, req_data = with_crc demo_crc (open_body 3 supportedPath)\<rparr>]
      (map_option forget (Some (new_BlobManager 600 5 (\<lambda>k. 0)))) = Some (rs, map_option forget g')"
proof (rule daemon_respects_contract [OF example_plain.plain_handler_axioms])
  let ?R = "reachable demo_crc (monitored ExampleBlobHandler_methods)
    (\<lambda>hm. example_inv (fst hm) \<and> mon_sessions (snd hm) = Map.empty)"
  have "?R (Some (getBlobManager 5 (\<lambda>k. 0) None))"
    by (rule reachable.create [OF reachable.start])
  then show "?R (Some (new_BlobManager 600 5 (\<lambda>k. 0)))"
    by (simp add: getBlobManager_def defaultSessionTimeout_def)
qed

text \<open>
  C10: In every reachable state the manager's three maps agree: \<open>openFiles\<close> counts the open
  sessions of each path, \<open>openSessions\<close> holds the open sessions of each handler, every open
  session belongs to a registered handler and has been opened for reading or writing, and
  that handler holds a session under the same number, for the same path, with the same flags.
\<close>

theorem reachable_indexes_agree:
  assumes "blob_handler gbi hinv live accepts"
    and "reachable crc gbi (\<lambda>h. hinv h \<and> live h = Map.empty) (Some m)"
  shows "(\<forall>p. file_count m p = int (card {s. \<exists>si. sessions m s = Some si \<and> blobId si = p}))
    \<and> (\<forall>i. handler_sessions m i = {s. \<exists>si. sessions m s = Some si \<and> handler si = Some i})
    \<and> (\<forall>s si. sessions m s = Some si \<longrightarrow> (\<exists>i f. handler si = Some i \<and> i < length (handlers m)
         \<and> flags si = f \<and> has_flag f read_or_write
         \<and> live (handlers m ! i) s = Some (blobId si, f)))"
proof -
  have inv: "mgr_inv hinv live m"
    using blob_handler.reachable_inv [OF assms] by simp
  have "\<exists>i f. handler si = Some i \<and> i < length (handlers m) \<and> flags si = f
      \<and> has_flag f read_or_write \<and> live (handlers m ! i) s = Some (blobId si, f)"
    if si: "sessions m s = Some si" for s si
  proof -
    obtain i f where i: "handler si = Some i" "i < length (handlers m)" "flags si = f"
      "has_flag f read_or_write"
      using table_invE [OF index_inv_table [OF mgr_inv_index [OF inv]] si] by metis
    then show ?thesis
      using mgr_inv_live [OF inv i(2)] si by (simp add: sess_of_def)
  qed
  then show ?thesis
    using mgr_inv_index [OF inv]
    by (auto simp: index_inv_def sessions_on_def sessions_of_handler_def)
qed

lemma demo_open_reachable:
  "reachable demo_crc ExampleBlobHandler_methods (\<lambda>h. example_inv h \<and> example_live h = Map.empty)
     (Some demo_open)"
  by (rule reachable.request [OF demo_reachable demo_open_request])

lemma reachable_indexes_agree_witness:
  "file_count demo_open supportedPath =
     int (card {s. \<exists>si. sessions demo_open s = Some si \<and> blobId si = supportedPath})"
  using reachable_indexes_agree [OF example.blob_handler_axioms demo_open_reachable] by blast

text \<open>
  C9: The indexes are only an optimisation. For every sequence of calls of the manager's
  methods, and whatever the handlers do, the manager returns what the reference manager
  returns, which has the session table only and looks everything up in it; the state of the
  one is the state of the other without the indexes.
\<close>

theorem manager_refines_reference:
  assumes "index_inv m"
  shows "mgr_run (Reference_methods gbi) cs (forget_index m) =
    map_option (apsnd forget_index) (mgr_run (BlobManager_methods gbi) cs m)"
  using sim_run [OF assms, of gbi cs] by (simp add: sim_def)

lemma manager_refines_reference_witness:
  "mgr_run (Reference_methods ExampleBlobHandler_methods) [CallDeleteBlob supportedPath] (forget_index demo_open) =
    map_option (apsnd forget_index)
      (mgr_run (BlobManager_methods ExampleBlobHandler_methods) [CallDeleteBlob supportedPath] demo_open)"
  by (rule manager_refines_reference [OF mgr_inv_index [OF demo_open_inv]])

text \<open>
  A client cannot tell the two managers apart either: every request, valid or not, gets
  the same reply from the daemon over the reference manager.
\<close>

theorem daemon_refines_reference:
  assumes "index_inv m"
    and "handleBlobCommand crc gbi t clk cmd d maxSize (Some m) = Some (r, Some m')"
  shows "index_inv m' \<and>
    do { f \<leftarrow> validateBlobCommand crc cmd d;
         processBlobCommand crc f (Reference_methods gbi) d maxSize (forget_index m) } =
      Some (r, forget_index m')"
proof -
  have "do { f \<leftarrow> validateBlobCommand crc cmd d;
      processBlobCommand crc f (BlobManager_methods gbi) d maxSize m } = Some (r, m')"
    using assms(2) by (auto simp: handleBlobCommand_def bind_eq_Some_conv getBlobManager_def)
  from tracks_SomeD [OF reference_simulation.request_tracks [OF assms(1)] this] show ?thesis
    by simp
qed

lemma daemon_refines_reference_witness:
  "do { f \<leftarrow> validateBlobCommand demo_crc 2 (with_crc demo_crc (open_body 3 supportedPath));
        processBlobCommand demo_crc f (Reference_methods ExampleBlobHandler_methods)
          (with_crc demo_crc (open_body 3 supportedPath)) 64 (forget_index demo_start) } =
    Some (framed demo_crc 64 (le16 5), forget_index demo_open)"
  using daemon_refines_reference [OF mgr_inv_index [OF demo_start_inv] demo_open_request] by simp

text \<open>
  C32: Start-up leaves a working daemon: whatever the directory holds and however the libraries
  behave, as long as handlers keep their contract, factories make them in their initial state,
  and \<open>dlsym\<close> returns a null pointer only together with an error (a null symbol without one would
  be called), \<open>setupBlobGlobalHandler\<close> announces itself first and leaves a manager in
  its invariant, on which the registered callback answers every request. It returns normally,
  unless a factory throws something that is not a \<open>std::exception\<close>; an error of the listing is
  caught and logged, and then the libraries have had no effect.
\<close>

theorem setup_safe:
  fixes ipmi :: "('o, 'c, 'h, 'd) ipmi_daemon"
  assumes "blob_handler gbi hinv live accepts" and "static_inv hinv live g"
    and "reports_null (dlsys_impl libc)" and "makes_new call (\<lambda>h. hinv h \<and> live h = Map.empty)"
  shows "\<exists>x l m d'. setupBlobGlobalHandler ipmi crc maxTransfer gbi t clk rd libc call path g d =
      Some (x, RegisteringOem (obmcOemNumber ipmi) (blobTransferCmd ipmi) # l, Some m, d')
    \<and> mgr_inv hinv live m
    \<and> (\<forall>t clk c cmd q. oem_handler crc gbi maxTransfer t clk c cmd q (Some m) \<noteq> None)
    \<and> (throws_std call \<longrightarrow> x = None)
    \<and> (\<forall>e. rd path = Inl e \<longrightarrow> x = None \<and> l = [ErrorLoadingBlobHandlers e] \<and> m = getBlobManager t clk g
         \<and> d' = registerOemHandler ipmi (prioOemBase ipmi) (obmcOemNumber ipmi) (blobTransferCmd ipmi)
             (Privilege_User ipmi) (oem_handler crc gbi maxTransfer) d)"
proof -
  let ?g = "getBlobManager t clk g"
  let ?d = "registerOemHandler ipmi (prioOemBase ipmi) (obmcOemNumber ipmi) (blobTransferCmd ipmi)
    (Privilege_User ipmi) (oem_handler crc gbi maxTransfer) d"
  have mi: "manager_interface (BlobManager_methods gbi) (mgr_inv hinv live)
      (\<lambda>h. hinv h \<and> live h = Map.empty)"
    using assms(1) by (rule blob_handler.manages)
  have inv: "mgr_inv hinv live ?g"
    by (rule getBlobManager_inv [OF assms(2)])
  have serves: "oem_handler crc gbi maxTransfer t' clk' c cmd q (Some m) \<noteq> None"
    if "mgr_inv hinv live m" for t' clk' c cmd q m
    using blob_handler.handleBlobCommand_safe [OF assms(1), of "Some m" crc t' clk' cmd q "maxTransfer c"]
      that by (auto simp: oem_handler_def ok_iff)
  show ?thesis
  proof (cases "rd path")
    case (Inl e)
    then show ?thesis
      using inv serves by (simp add: setupBlobGlobalHandler_def loadLibraries_def getLibraryList_def)
  next
    case (Inr ps)
    obtain x l m d' where "load_libraries (BlobManager_methods gbi) (dlsys_impl libc) call
        (matching_paths matchBlobHandler ps) {} ?g ?d = Some (x, l, m, d')" and "mgr_inv hinv live m"
      and "x = None \<or> x = Some OtherException \<and> \<not> throws_std call"
      using manager_interface.load_libraries_ok [OF mi inv assms(3,4)] by (fastforce simp: ok_iff)
    then show ?thesis
      using Inr serves by (auto simp: setupBlobGlobalHandler_def loadLibraries_def getLibraryList_def)
  qed
qed

lemma setup_safe_witness:
  "\<exists>l m d'. setupBlobGlobalHandler demo_daemon demo_crc (\<lambda>c. 64) ExampleBlobHandler_methods 5 (\<lambda>k. 0)
      (\<lambda>p. Inr demo_listing) demo_libc (\<lambda>f d. (if f = 1 then Inl (StdException ''failed'')
        else Inr (Some demo_handler), d)) ''/usr/lib'' None None =
      Some (None, RegisteringOem 49871 128 # l, Some m, d')
    \<and> mgr_inv example_inv example_live m"
proof -
  let ?call = "\<lambda>f d. (if f = 1 then Inl (StdException ''failed'') else Inr (Some demo_handler), d)"
  have "reports_null (dlsys_impl demo_libc)"
    by (auto simp: reports_null_def demo_libc_def)
  moreover have "makes_new ?call (\<lambda>h. example_inv h \<and> example_live h = Map.empty)"
    using demo_handler_new by (auto simp: makes_new_def split: if_splits)
  moreover have "throws_std ?call"
    by (simp add: throws_std_def)
  ultimately show ?thesis
    using setup_safe [OF example.blob_handler_axioms, of None demo_libc ?call
        demo_daemon demo_crc "\<lambda>c. 64" 5 "\<lambda>k. 0" "\<lambda>p. Inr demo_listing" "''/usr/lib''" None]
    by (fastforce simp: demo_daemon_def)
qed

end
